theory Spec2Isabelle
  imports Main "HOL-Library.AList" "HOL-Library.Sublist"
begin

section \<open>Common vocabulary\<close>

text \<open>
  JavaScript failures are values.  \<open>Thrown msg\<close> is \<^verbatim>\<open>throw new Error(msg)\<close>,
  \<open>TypeError msg\<close> is the exception the engine raises when a property of
  \<^verbatim>\<open>undefined\<close> is read or a non-function is called, and \<open>Exit msg\<close> is
  \<^verbatim>\<open>console.error(msg); process.exit(1)\<close>, which no \<^verbatim>\<open>try/catch\<close> intercepts.
\<close>

datatype error = Thrown string | TypeError string | Exit string

datatype arch = Client | Server

datatype role = Use | Test

text \<open>The loop \<^verbatim>\<open>_.each(xs, f)\<close> over a state, where an exception leaves the loop.\<close>

fun each_e :: "('a \<Rightarrow> 's \<Rightarrow> error + 's) \<Rightarrow> 'a list \<Rightarrow> 's \<Rightarrow> error + 's" where
  "each_e f [] s = Inr s"
| "each_e f (x # xs) s = (case f x s of Inl e \<Rightarrow> Inl e | Inr s' \<Rightarrow> each_e f xs s')"

section \<open>packages.js: the capability passed to on\_use and on\_test\<close>

text \<open>
  An argument that is either omitted, a single string or an array of strings, as the
  \<^verbatim>\<open>names\<close>, \<^verbatim>\<open>paths\<close>, \<^verbatim>\<open>symbols\<close> and \<^verbatim>\<open>where\<close> parameters are.
\<close>

datatype js_arg = Undefined | Str string | Arr "string list"

text \<open>
  \<^verbatim>\<open>if (!(x instanceof Array)) x = x ? [x] : dflt;\<close>  The empty string is falsy.
\<close>

fun as_array :: "js_arg \<Rightarrow> string list \<Rightarrow> string list" where
  "as_array (Arr xs) dflt = xs"
| "as_array (Str s) dflt = (if s = [] then dflt else [s])"
| "as_array Undefined dflt = dflt"

record use_edge =
  spec :: string
  unordered :: bool

record use_options =
  opt_role :: "string option"
  opt_unordered :: bool

text \<open>
  The three tables \<^verbatim>\<open>uses[role]\<close>, \<^verbatim>\<open>sources[role]\<close> and \<^verbatim>\<open>forceExport[role]\<close> of
  \<^verbatim>\<open>initFromPackageDir\<close>, for the role whose handler is running.  Each has the two keys
  \<^verbatim>\<open>client\<close> and \<^verbatim>\<open>server\<close>.
\<close>

record decl =
  decl_uses :: "arch \<Rightarrow> use_edge list"
  decl_sources :: "arch \<Rightarrow> string list"
  decl_forceExport :: "arch \<Rightarrow> string list"

fun arch_of :: "string \<Rightarrow> arch option" where
  "arch_of w = (if w = ''client'' then Some Client else if w = ''server'' then Some Server else None)"

text \<open>
  \<^verbatim>\<open>table[arch].push(x)\<close>: for a key other than the two archs \<^verbatim>\<open>table[arch]\<close> has no
  \<^verbatim>\<open>push\<close> and the call raises.
\<close>

definition push_arch :: "string \<Rightarrow> 'a \<Rightarrow> (arch \<Rightarrow> 'a list) \<Rightarrow> error + (arch \<Rightarrow> 'a list)" where
  "push_arch w x table =
     (case arch_of w of
        None \<Rightarrow> Inl (TypeError ''Cannot call method push of undefined'')
      | Some a \<Rightarrow> Inr (table(a := table a @ [x])))"

definition role_override :: "use_options \<Rightarrow> bool" where
  "role_override options =
     (case opt_role options of None \<Rightarrow> False | Some r \<Rightarrow> r \<noteq> [] \<and> r \<noteq> ''use'')"

definition use_push :: "use_options \<Rightarrow> string \<Rightarrow> string \<Rightarrow> (arch \<Rightarrow> use_edge list)
    \<Rightarrow> error + (arch \<Rightarrow> use_edge list)" where
  "use_push options name w table =
     (if role_override options then Inl (Thrown ''Role override is no longer supported'')
      else push_arch w \<lparr>spec = name, unordered = opt_unordered options\<rparr> table)"

definition use :: "js_arg \<Rightarrow> js_arg \<Rightarrow> use_options \<Rightarrow> decl \<Rightarrow> error + decl" where
  "use names where options d =
     (case each_e (\<lambda>name. each_e (use_push options name) (as_array where [''client'', ''server'']))
             (as_array names []) (decl_uses d) of
        Inl e \<Rightarrow> Inl e
      | Inr u \<Rightarrow> Inr (d\<lparr>decl_uses := u\<rparr>))"

definition add_files :: "js_arg \<Rightarrow> js_arg \<Rightarrow> decl \<Rightarrow> error + decl" where
  "add_files paths where d =
     (case each_e (\<lambda>path. each_e (\<lambda>w. push_arch w path) (as_array where []))
             (as_array paths []) (decl_sources d) of
        Inl e \<Rightarrow> Inl e
      | Inr s \<Rightarrow> Inr (d\<lparr>decl_sources := s\<rparr>))"

definition exportSymbol :: "js_arg \<Rightarrow> js_arg \<Rightarrow> decl \<Rightarrow> error + decl" where
  "exportSymbol symbols where d =
     (case each_e (\<lambda>symbol. each_e (\<lambda>w. push_arch w symbol) (as_array where []))
             (as_array symbols []) (decl_forceExport d) of
        Inl e \<Rightarrow> Inl e
      | Inr s \<Rightarrow> Inr (d\<lparr>decl_forceExport := s\<rparr>))"

section \<open>packages.js: scanning an application directory for sources\<close>

text \<open>
  Node's \<^verbatim>\<open>path.extname\<close> on a file path: the text from the last dot of the last path
  component, and nothing when that component has no dot or only a leading one.
\<close>

definition basename :: "string \<Rightarrow> string" where
  "basename p = rev (takeWhile (\<lambda>c. c \<noteq> CHR ''/'') (rev p))"

definition extname :: "string \<Rightarrow> string" where
  "extname p =
     (let b = basename p; e = rev (takeWhile (\<lambda>c. c \<noteq> CHR ''.'') (rev b))
      in if CHR ''.'' \<notin> set b \<or> Suc (length e) = length b then [] else CHR ''.'' # e)"

definition is_html :: "string \<Rightarrow> bool" where
  "is_html filename = (extname filename = ''.html'')"

text \<open>
  The body of the loop that pushes the templates ahead: \<^verbatim>\<open>_.each\<close> walks the array it was
  given while the variable \<^verbatim>\<open>fileList\<close> is rebound to ever shorter copies.
\<close>

definition hoist_step :: "string \<Rightarrow> string list \<times> string list \<Rightarrow> string list \<times> string list" where
  "hoist_step filename st =
     (if is_html filename
      then (fst st @ [filename], filter (\<lambda>f. f \<noteq> filename) (snd st))
      else st)"

definition hoist_html :: "string list \<Rightarrow> string list" where
  "hoist_html fileList = (let st = fold hoist_step fileList ([], fileList) in fst st @ snd st)"

fun has_dotdot :: "string \<Rightarrow> bool" where
  "has_dotdot (a # b # cs) = ((a = CHR ''.'' \<and> b = CHR ''.'') \<or> has_dotdot (b # cs))"
| "has_dotdot cs = False"

definition root_prefix :: "string \<Rightarrow> string" where
  "root_prefix rootPath =
     (if rootPath = [] \<or> last rootPath \<noteq> CHR ''/'' then rootPath @ ''/'' else rootPath)"

fun relativize :: "(string \<Rightarrow> string \<Rightarrow> string) \<Rightarrow> string \<Rightarrow> string list \<Rightarrow> error + string list" where
  "relativize relative pfx [] = Inr []"
| "relativize relative pfx (file # rest) =
     (if has_dotdot (relative pfx file)
      then Inl (Thrown ''internal error: source file outside of parent?'')
      else (case relativize relative pfx rest of
              Inl e \<Rightarrow> Inl e
            | Inr out \<Rightarrow> Inr (drop (length pfx) file # out)))"

text \<open>
  \<^verbatim>\<open>scanForSources(rootPath, extensions, ignoreFiles)\<close>.  The module \<^verbatim>\<open>files.js\<close> and Node's
  \<^verbatim>\<open>path.relative\<close> are not part of the sources at hand, so what they return is taken as
  given: \<open>listed\<close> is the result of \<^verbatim>\<open>files.file_list_sync(rootPath, extensions)\<close>,
  \<open>sort_files\<close> is \<^verbatim>\<open>Array.sort\<close> under the comparator \<^verbatim>\<open>files.sort\<close>, and \<open>relative\<close>
  is \<^verbatim>\<open>path.relative\<close>.  An ignore pattern is the set of names it matches.
\<close>

definition scanForSources ::
  "(string \<Rightarrow> string \<Rightarrow> string) \<Rightarrow> (string list \<Rightarrow> string list) \<Rightarrow> string list
     \<Rightarrow> string \<Rightarrow> (string \<Rightarrow> bool) list \<Rightarrow> error + string list" where
  "scanForSources relative sort_files listed rootPath ignoreFiles =
     (let fileList = filter (\<lambda>file. \<not> list_ex (\<lambda>pattern. pattern file) ignoreFiles) listed;
          fileList = sort_files fileList;
          fileList = hoist_html fileList
      in relativize relative (root_prefix rootPath) fileList)"

section \<open>packages.js: slices and their compilation\<close>

record jsfile =
  js_source :: string
  js_servePath :: "string option"

record resource =
  r_type :: string
  r_data :: string
  r_servePath :: "string option"

text \<open>
  The \<^verbatim>\<open>data\<close> option of \<^verbatim>\<open>add_resource\<close>: absent, a Buffer, a string, or a (truthy)
  value of another type.  Buffers and strings are both byte strings here.
\<close>

datatype js_data = NoData | BufferData string | StringData string | OtherData

record resource_options =
  o_type :: string
  o_path :: "string option"
  o_source_file :: "string option"
  o_data :: js_data
  o_where :: "string option"

text \<open>
  An extension handler is a callback from some \<^verbatim>\<open>package.js\<close>.  What is known of it: its
  identity as a function object (\<open>h_id\<close>), the property \<^verbatim>\<open>pkg\<close> it carries, if any, with
  that object's \<^verbatim>\<open>name\<close>, and the calls of \<^verbatim>\<open>add_resource\<close> it makes, possibly ended by
  an exception, when run on the file system, a source path, a serve path and an arch.
\<close>

datatype handler_step = AddResource resource_options | Raise string

record handler =
  h_id :: nat
  h_pkg :: "string option option"
  h_run :: "(string \<Rightarrow> string option) \<Rightarrow> string \<Rightarrow> string \<Rightarrow> string \<Rightarrow> handler_step list"

record package =
  p_id :: nat
  p_name :: "string option"
  p_sourceRoot :: string
  p_serveRoot :: string
  p_extensions :: "(string \<times> handler) list"

record slice =
  s_pkg :: package
  s_sliceName :: string
  s_arch :: arch
  s_uses :: "use_edge list"
  s_sources :: "string list"
  s_forceExport :: "string list"
  s_dependencyFiles :: "(string \<times> string) list"
  s_isCompiled :: bool
  s_exports :: "string list option"
  s_boundary :: "string option"
  s_prelinkFiles :: "jsfile list option"
  s_resources :: "resource list option"

record prelink_args =
  pa_inputFiles :: "jsfile list"
  pa_useGlobalNamespace :: bool
  pa_combinedServePath :: "string option"
  pa_importStubServePath :: string
  pa_name :: "string option"
  pa_forceExport :: "string list"

record prelink_result =
  pr_files :: "jsfile list"
  pr_boundary :: string
  pr_exports :: "string list"

record link_args =
  la_imports :: "(string \<times> string option) list"
  la_useGlobalNamespace :: bool
  la_prelinkFiles :: "jsfile list option"
  la_boundary :: "string option"

text \<open>
  What the compilation reads from outside \<^verbatim>\<open>packages.js\<close>: the file system, \<^verbatim>\<open>sha1\<close>,
  Node's \<^verbatim>\<open>path.resolve\<close> and \<^verbatim>\<open>path.join\<close>, the two phases of \<^verbatim>\<open>linker.js\<close>, and the
  library (\<^verbatim>\<open>get\<close> by name, where \<open>None\<close> stands for its exception, and \<^verbatim>\<open>getSlices\<close>,
  which answers with the identifiers of slice objects).
\<close>

record env =
  e_readFile :: "string \<Rightarrow> string option"
  e_sha1 :: "string \<Rightarrow> string"
  e_resolve :: "string \<Rightarrow> string \<Rightarrow> string"
  e_join :: "string \<Rightarrow> string \<Rightarrow> string"
  e_prelink :: "prelink_args \<Rightarrow> error + prelink_result"
  e_link :: "link_args \<Rightarrow> error + jsfile list"
  e_library :: "string \<Rightarrow> package option"
  e_getSlices :: "string \<Rightarrow> arch \<Rightarrow> error + string list"

definition truthy :: "string option \<Rightarrow> bool" where
  "truthy x = (case x of None \<Rightarrow> False | Some s \<Rightarrow> s \<noteq> [])"

definition name_or_app :: "string option \<Rightarrow> string" where
  "name_or_app n = (case n of None \<Rightarrow> ''your app'' | Some s \<Rightarrow> if s = [] then ''your app'' else s)"

fun arch_name :: "arch \<Rightarrow> string" where
  "arch_name Client = ''client''"
| "arch_name Server = ''server''"

text \<open>The loop \<^verbatim>\<open>_.each(xs, f)\<close> where the state reached when an exception leaves it matters.\<close>

fun each_s :: "('a \<Rightarrow> 's \<Rightarrow> error option \<times> 's) \<Rightarrow> 'a list \<Rightarrow> 's \<Rightarrow> error option \<times> 's" where
  "each_s f [] s = (None, s)"
| "each_s f (x # xs) s =
     (case f x s of (Some e, s') \<Rightarrow> (Some e, s') | (None, s') \<Rightarrow> each_s f xs s')"

subsection \<open>Extension handlers\<close>

text \<open>\<^verbatim>\<open>_.extend(ret, obj)\<close> on objects kept as association lists in insertion order.\<close>

definition extend_obj :: "('k \<times> 'v) list \<Rightarrow> ('k \<times> 'v) list \<Rightarrow> ('k \<times> 'v) list" where
  "extend_obj ret obj = fold (\<lambda>(k, v). AList.update k v) obj ret"

definition conflict :: "package \<Rightarrow> handler \<Rightarrow> package \<Rightarrow> string \<Rightarrow> error" where
  "conflict pkg registered otherPkg ext =
     (case h_pkg registered of
        None \<Rightarrow> TypeError ''Cannot read property name of undefined''
      | Some n \<Rightarrow>
          Thrown (''Conflict: two packages included in '' @ name_or_app (p_name pkg) @ '', '' @
                  name_or_app n @ '' and '' @ name_or_app (p_name otherPkg) @ '', '' @
                  ''are both trying to handle .'' @ ext))"

definition merge_handler :: "package \<Rightarrow> package \<Rightarrow> string \<times> handler \<Rightarrow> (string \<times> handler) list
    \<Rightarrow> error + (string \<times> handler) list" where
  "merge_handler pkg otherPkg eh ret =
     (case map_of ret (fst eh) of
        None \<Rightarrow> Inr (AList.update (fst eh) (snd eh) ret)
      | Some registered \<Rightarrow>
          if h_id registered \<noteq> h_id (snd eh) then Inl (conflict pkg registered otherPkg (fst eh))
          else Inr (AList.update (fst eh) (snd eh) ret))"

definition merge_use :: "env \<Rightarrow> package \<Rightarrow> use_edge \<Rightarrow> (string \<times> handler) list
    \<Rightarrow> error + (string \<times> handler) list" where
  "merge_use env pkg u ret =
     (let name = takeWhile (\<lambda>c. c \<noteq> CHR ''.'') (spec u)
      in case e_library env name of
           None \<Rightarrow> Inl (Thrown (''Package not available: '' @ name))
         | Some otherPkg \<Rightarrow> each_e (merge_handler pkg otherPkg) (p_extensions otherPkg) ret)"

definition allHandlers :: "env \<Rightarrow> slice \<Rightarrow> error + (string \<times> handler) list" where
  "allHandlers env self =
     each_e (merge_use env (s_pkg self)) (s_uses self) (extend_obj [] (p_extensions (s_pkg self)))"

definition registeredExtensions :: "env \<Rightarrow> slice \<Rightarrow> error + string list" where
  "registeredExtensions env self =
     (case allHandlers env self of Inl e \<Rightarrow> Inl e | Inr ret \<Rightarrow> Inr (map fst ret))"

definition getSourceHandler :: "env \<Rightarrow> slice \<Rightarrow> string \<Rightarrow> error + handler option" where
  "getSourceHandler env self extension =
     (case allHandlers env self of Inl e \<Rightarrow> Inl e | Inr ret \<Rightarrow> Inr (map_of ret extension))"

subsection \<open>Compilation\<close>

definition read_or_throw :: "env \<Rightarrow> string \<Rightarrow> error + string" where
  "read_or_throw env file =
     (case e_readFile env file of
        None \<Rightarrow> Inl (Thrown (''ENOENT, no such file or directory '' @ file))
      | Some contents \<Rightarrow> Inr contents)"

definition resource_data :: "env \<Rightarrow> resource_options \<Rightarrow> error + string" where
  "resource_data env options =
     (let sourceFile = (if truthy (o_source_file options) then o_source_file options
                        else o_path options);
          from_file = (case sourceFile of
                         None \<Rightarrow> Inl (Thrown ''Need either source_file or data'')
                       | Some f \<Rightarrow> if f = [] then Inl (Thrown ''Need either source_file or data'')
                                  else read_or_throw env f)
      in case o_data options of
           NoData \<Rightarrow> from_file
         | BufferData b \<Rightarrow> Inr b
         | StringData str \<Rightarrow> if str = [] then from_file else Inr str
         | OtherData \<Rightarrow> Inl (Thrown ''Bad type for data''))"

definition add_resource :: "env \<Rightarrow> arch \<Rightarrow> resource_options \<Rightarrow> resource list \<times> jsfile list
    \<Rightarrow> error + resource list \<times> jsfile list" where
  "add_resource env self_arch options st =
     (case resource_data env options of
        Inl e \<Rightarrow> Inl e
      | Inr data \<Rightarrow>
          if truthy (o_where options) \<and> o_where options \<noteq> Some (arch_name self_arch)
          then Inl (Thrown (''where is deprecated here and if provided must be '' @ arch_name self_arch))
          else if o_type options = ''js''
          then Inr (fst st, snd st @ [\<lparr>js_source = data, js_servePath = o_path options\<rparr>])
          else Inr (fst st @ [\<lparr>r_type = o_type options, r_data = data, r_servePath = o_path options\<rparr>],
                    snd st))"

fun run_handler :: "env \<Rightarrow> arch \<Rightarrow> handler_step list \<Rightarrow> resource list \<times> jsfile list
    \<Rightarrow> error + resource list \<times> jsfile list" where
  "run_handler env self_arch [] st = Inr st"
| "run_handler env self_arch (Raise msg # steps) st = Inl (Thrown msg)"
| "run_handler env self_arch (AddResource options # steps) st =
     (case add_resource env self_arch options st of
        Inl e \<Rightarrow> Inl e
      | Inr st' \<Rightarrow> run_handler env self_arch steps st')"

text \<open>
  One round of the loop over \<^verbatim>\<open>self.sources\<close>.  The state is the two local arrays
  \<^verbatim>\<open>resources\<close> and \<^verbatim>\<open>js\<close> and the object \<^verbatim>\<open>self.dependencyInfo.files\<close>, which keeps
  what was written to it when a later step throws.
\<close>

definition compile_source :: "env \<Rightarrow> slice \<Rightarrow> string
    \<Rightarrow> resource list \<times> jsfile list \<times> (string \<times> string) list
    \<Rightarrow> error option \<times> resource list \<times> jsfile list \<times> (string \<times> string) list" where
  "compile_source env self relPath st =
     (let resources = fst st; js = fst (snd st); files = snd (snd st);
          absPath = e_resolve env (p_sourceRoot (s_pkg self)) relPath;
          ext = drop 1 (extname relPath)
      in case getSourceHandler env self ext of
           Inl e \<Rightarrow> (Some e, st)
         | Inr h \<Rightarrow>
             (case read_or_throw env absPath of
                Inl e \<Rightarrow> (Some e, st)
              | Inr contents \<Rightarrow>
                  (let files' = AList.update absPath (e_sha1 env contents) files
                   in case h of
                        None \<Rightarrow>
                          (None,
                           resources @ [\<lparr>r_type = ''static'', r_data = contents,
                              r_servePath = Some (e_join env (p_serveRoot (s_pkg self)) relPath)\<rparr>],
                           js, files')
                      | Some f \<Rightarrow>
                          (case run_handler env (s_arch self)
                                  (h_run f (e_readFile env)
                                     (e_join env (p_sourceRoot (s_pkg self)) relPath)
                                     (e_join env (p_serveRoot (s_pkg self)) relPath)
                                     (arch_name (s_arch self)))
                                  (resources, js) of
                             Inl e \<Rightarrow> (Some e, resources, js, files')
                           | Inr rj \<Rightarrow> (None, fst rj, snd rj, files')))))"

definition prelink_input :: "slice \<Rightarrow> jsfile list \<Rightarrow> prelink_args" where
  "prelink_input self js =
     (let isApp = \<not> truthy (p_name (s_pkg self))
      in \<lparr>pa_inputFiles = js,
          pa_useGlobalNamespace = isApp,
          pa_combinedServePath =
            (if isApp then None
             else Some (''/packages/'' @ the (p_name (s_pkg self)) @
                        (if s_sliceName self = ''main'' then [] else ''.'' @ s_sliceName self) @
                        ''.js'')),
          pa_importStubServePath = ''/packages/global-imports.js'',
          pa_name = (if isApp then None else p_name (s_pkg self)),
          pa_forceExport = s_forceExport self\<rparr>)"

definition ensureCompiled :: "env \<Rightarrow> slice \<Rightarrow> error option \<times> slice" where
  "ensureCompiled env self =
     (if s_isCompiled self then (None, self)
      else (case each_s (compile_source env self) (s_sources self) ([], [], s_dependencyFiles self) of
              (Some e, st) \<Rightarrow> (Some e, self\<lparr>s_dependencyFiles := snd (snd st)\<rparr>)
            | (None, st) \<Rightarrow>
                (case e_prelink env (prelink_input self (fst (snd st))) of
                   Inl e \<Rightarrow> (Some e, self\<lparr>s_dependencyFiles := snd (snd st)\<rparr>)
                 | Inr results \<Rightarrow>
                     (None, self\<lparr>s_dependencyFiles := snd (snd st),
                                 s_prelinkFiles := Some (pr_files results),
                                 s_boundary := Some (pr_boundary results),
                                 s_exports := Some (pr_exports results),
                                 s_resources := Some (fst st),
                                 s_isCompiled := True\<rparr>))))"

subsection \<open>Imports and the final link\<close>

text \<open>
  Slices are shared objects that compilation updates in place.  The store maps the
  identifier of a slice (\<^verbatim>\<open>slice.id\<close>) to its present state.
\<close>

type_synonym store = "string \<Rightarrow> slice option"

type_synonym import_map = "(string \<times> string option) list"

definition import_slice :: "env \<Rightarrow> string \<Rightarrow> import_map \<times> store \<Rightarrow> error option \<times> import_map \<times> store" where
  "import_slice env otherId st =
     (case snd st otherId of
        None \<Rightarrow> (Some (TypeError ''Cannot call method _ensureCompiled of undefined''), st)
      | Some otherSlice \<Rightarrow>
          (case ensureCompiled env otherSlice of
             (Some e, otherSlice') \<Rightarrow> (Some e, fst st, (snd st)(otherId \<mapsto> otherSlice'))
           | (None, otherSlice') \<Rightarrow>
               (None,
                fold (\<lambda>symbol. AList.update symbol (p_name (s_pkg otherSlice')))
                  (case s_exports otherSlice' of None \<Rightarrow> [] | Some syms \<Rightarrow> syms) (fst st),
                (snd st)(otherId \<mapsto> otherSlice'))))"

definition import_use :: "env \<Rightarrow> arch \<Rightarrow> use_edge \<Rightarrow> import_map \<times> store \<Rightarrow> error option \<times> import_map \<times> store" where
  "import_use env self_arch u st =
     (if unordered u then (None, st)
      else (case e_getSlices env (spec u) self_arch of
              Inl e \<Rightarrow> (Some e, st)
            | Inr others \<Rightarrow> each_s (import_slice env) others st))"

definition computeImports :: "env \<Rightarrow> slice \<Rightarrow> store \<Rightarrow> error option \<times> import_map \<times> store" where
  "computeImports env self sto = each_s (import_use env (s_arch self)) (s_uses self) ([], sto)"

definition js_resource :: "jsfile \<Rightarrow> resource" where
  "js_resource file = \<lparr>r_type = ''js'', r_data = js_source file, r_servePath = js_servePath file\<rparr>"

definition getResources :: "env \<Rightarrow> string \<Rightarrow> store \<Rightarrow> (error + resource list) \<times> store" where
  "getResources env selfId sto =
     (case sto selfId of
        None \<Rightarrow> (Inl (TypeError ''Cannot read property pkg of undefined''), sto)
      | Some self0 \<Rightarrow>
          (case ensureCompiled env self0 of
             (Some e, self1) \<Rightarrow> (Inl e, sto(selfId \<mapsto> self1))
           | (None, self1) \<Rightarrow>
               (case computeImports env self1 (sto(selfId \<mapsto> self1)) of
                  (Some e, st) \<Rightarrow> (Inl e, snd st)
                | (None, st) \<Rightarrow>
                    (case snd st selfId of
                       None \<Rightarrow> (Inl (TypeError ''Cannot read property pkg of undefined''), snd st)
                     | Some self2 \<Rightarrow>
                         (case e_link env \<lparr>la_imports = fst st,
                                  la_useGlobalNamespace = \<not> truthy (p_name (s_pkg self2)),
                                  la_prelinkFiles = s_prelinkFiles self2,
                                  la_boundary = s_boundary self2\<rparr> of
                            Inl e \<Rightarrow> (Inl e, snd st)
                          | Inr files \<Rightarrow>
                              (Inr ((case s_resources self2 of None \<Rightarrow> [] | Some rs \<Rightarrow> rs) @
                                    map js_resource files),
                               snd st))))))"

section \<open>A small package used to exercise the theorems\<close>

text \<open>
  A package of four files, none of which has an extension handler, a file system that
  holds them, and stand-ins for what lies outside the two modules: a digest that only
  tags its input, paths joined by a slash, and a linker that passes files through.
\<close>

definition simple_join :: "string \<Rightarrow> string \<Rightarrow> string" where
  "simple_join a b = (if a \<noteq> [] \<and> last a = CHR ''/'' then a @ b else a @ ''/'' @ b)"

definition example_env :: env where
  "example_env =
     \<lparr>e_readFile = map_of [(''/pkg/z.js'', ''zz''), (''/pkg/a.html'', ''aa''),
                          (''/pkg/m.js'', ''mm''), (''/pkg/b.html'', ''bb'')],
      e_sha1 = (\<lambda>contents. ''sha1-of-'' @ contents),
      e_resolve = simple_join,
      e_join = simple_join,
      e_prelink = (\<lambda>args. Inr \<lparr>pr_files = pa_inputFiles args, pr_boundary = ''__boundary__'',
                                 pr_exports = pa_forceExport args\<rparr>),
      e_link = (\<lambda>args. Inr (case la_prelinkFiles args of None \<Rightarrow> [] | Some fs \<Rightarrow> fs)),
      e_library = (\<lambda>name. None),
      e_getSlices = (\<lambda>spec a. Inr [])\<rparr>"

definition example_slice :: slice where
  "example_slice =
     \<lparr>s_pkg = \<lparr>p_id = 1, p_name = Some ''assets'', p_sourceRoot = ''/pkg'',
                p_serveRoot = ''/packages/assets'', p_extensions = []\<rparr>,
      s_sliceName = ''main'', s_arch = Client, s_uses = [],
      s_sources = [''z.js'', ''a.html'', ''m.js'', ''b.html''],
      s_forceExport = [], s_dependencyFiles = [], s_isCompiled = False,
      s_exports = None, s_boundary = None, s_prelinkFiles = None, s_resources = None\<rparr>"


section \<open>The import map as the description has it\<close>

text \<open>
  What the used slices export, read off the store: for every entry of \<^verbatim>\<open>uses\<close> that is not
  marked unordered, in the order of the list, the symbols of each slice the library
  answers with, each paired with the name of the package that supplies it.
\<close>

definition slice_exports :: "store \<Rightarrow> string \<Rightarrow> (string \<times> string option) list" where
  "slice_exports sto otherId =
     (case sto otherId of
        None \<Rightarrow> []
      | Some otherSlice \<Rightarrow>
          map (\<lambda>symbol. (symbol, p_name (s_pkg otherSlice)))
            (case s_exports otherSlice of None \<Rightarrow> [] | Some syms \<Rightarrow> syms))"

definition use_exports :: "env \<Rightarrow> arch \<Rightarrow> store \<Rightarrow> use_edge \<Rightarrow> (string \<times> string option) list" where
  "use_exports env self_arch sto u =
     (if unordered u then []
      else (case e_getSlices env (spec u) self_arch of
              Inl e \<Rightarrow> []
            | Inr others \<Rightarrow> concat (map (slice_exports sto) others)))"

definition exported_to :: "env \<Rightarrow> slice \<Rightarrow> store \<Rightarrow> (string \<times> string option) list" where
  "exported_to env self sto = concat (map (use_exports env (s_arch self) sto) (s_uses self))"

text \<open>Compiled slices of the first store are the same in the second.\<close>

definition frozen :: "store \<Rightarrow> store \<Rightarrow> bool" where
  "frozen sto sto' = (\<forall>i sl. sto i = Some sl \<and> s_isCompiled sl \<longrightarrow> sto' i = Some sl)"

definition compiled_in :: "store \<Rightarrow> string \<Rightarrow> bool" where
  "compiled_in sto i = (case sto i of None \<Rightarrow> False | Some sl \<Rightarrow> s_isCompiled sl)"

text \<open>
  The registrations a slice can see: those of the packages its \<^verbatim>\<open>uses\<close> entries name.
  A handler map agrees with a set of registrations when it maps each of their
  extensions to a handler that is the same function.
\<close>

definition agree :: "(string \<times> handler) list \<Rightarrow> (string \<times> handler) set \<Rightarrow> bool" where
  "agree ret S = (\<forall>p \<in> S. \<exists>h'. map_of ret (fst p) = Some h' \<and> h_id h' = h_id (snd p))"

definition used_extensions :: "env \<Rightarrow> use_edge list \<Rightarrow> (string \<times> handler) set" where
  "used_extensions env us =
     (\<Union>u \<in> set us. case e_library env (takeWhile (\<lambda>c. c \<noteq> CHR ''.'') (spec u)) of
                       None \<Rightarrow> {} | Some otherPkg \<Rightarrow> set (p_extensions otherPkg))"

section \<open>Two small libraries used to exercise the theorems\<close>

text \<open>
  Packages \<open>x\<close> and \<open>y\<close> each register a handler of their own for \<^verbatim>\<open>.less\<close>, as
  \<^verbatim>\<open>Package.register_extension("less", function (...) {...})\<close> does: the callback is stored
  as it is, a function without a \<^verbatim>\<open>pkg\<close> property.  An application uses both.
\<close>

definition less_x :: handler where
  "less_x = \<lparr>h_id = 1, h_pkg = None, h_run = (\<lambda>fs source_path serve_path w. [])\<rparr>"

definition less_y :: handler where
  "less_y = \<lparr>h_id = 2, h_pkg = None, h_run = (\<lambda>fs source_path serve_path w. [])\<rparr>"

definition pkg_x :: package where
  "pkg_x = \<lparr>p_id = 2, p_name = Some ''x'', p_sourceRoot = ''/packages/x'',
            p_serveRoot = ''/packages/x'', p_extensions = [(''less'', less_x)]\<rparr>"

definition pkg_y :: package where
  "pkg_y = \<lparr>p_id = 3, p_name = Some ''y'', p_sourceRoot = ''/packages/y'',
            p_serveRoot = ''/packages/y'', p_extensions = [(''less'', less_y)]\<rparr>"

definition conflict_env :: env where
  "conflict_env = example_env\<lparr>e_library := map_of [(''x'', pkg_x), (''y'', pkg_y)]\<rparr>"

definition conflict_slice :: slice where
  "conflict_slice =
     \<lparr>s_pkg = \<lparr>p_id = 1, p_name = None, p_sourceRoot = ''/app'', p_serveRoot = ''/'',
                p_extensions = []\<rparr>,
      s_sliceName = ''app'', s_arch = Client,
      s_uses = [\<lparr>spec = ''x'', unordered = False\<rparr>, \<lparr>spec = ''y'', unordered = False\<rparr>],
      s_sources = [], s_forceExport = [], s_dependencyFiles = [], s_isCompiled = False,
      s_exports = None, s_boundary = None, s_prelinkFiles = None, s_resources = None\<rparr>"

text \<open>
  Packages \<open>p\<close> and \<open>q\<close> both export \<open>Foo\<close>, \<open>r\<close> exports \<open>Bar\<close>; an application uses
  \<open>p\<close>, then \<open>r\<close> as an unordered edge, then \<open>q\<close>.
\<close>

definition exporting :: "nat \<Rightarrow> string \<Rightarrow> string list \<Rightarrow> slice" where
  "exporting i name syms =
     \<lparr>s_pkg = \<lparr>p_id = i, p_name = Some name, p_sourceRoot = ''/packages/'' @ name,
                p_serveRoot = ''/packages/'' @ name, p_extensions = []\<rparr>,
      s_sliceName = ''main'', s_arch = Client, s_uses = [], s_sources = [],
      s_forceExport = syms, s_dependencyFiles = [], s_isCompiled = False,
      s_exports = None, s_boundary = None, s_prelinkFiles = None, s_resources = None\<rparr>"

definition import_env :: env where
  "import_env = example_env\<lparr>e_getSlices := (\<lambda>spec a. Inr [spec @ ''.main''])\<rparr>"

definition import_app :: slice where
  "import_app =
     \<lparr>s_pkg = \<lparr>p_id = 1, p_name = None, p_sourceRoot = ''/app'', p_serveRoot = ''/'',
                p_extensions = []\<rparr>,
      s_sliceName = ''app'', s_arch = Client,
      s_uses = [\<lparr>spec = ''p'', unordered = False\<rparr>, \<lparr>spec = ''r'', unordered = True\<rparr>,
                \<lparr>spec = ''q'', unordered = False\<rparr>],
      s_sources = [], s_forceExport = [], s_dependencyFiles = [], s_isCompiled = True,
      s_exports = Some [], s_boundary = Some ''__boundary__'', s_prelinkFiles = Some [],
      s_resources = Some []\<rparr>"

definition import_store :: store where
  "import_store =
     [''p.main'' \<mapsto> exporting 2 ''p'' [''Foo''],
      ''q.main'' \<mapsto> exporting 3 ''q'' [''Foo''],
      ''r.main'' \<mapsto> exporting 4 ''r'' [''Bar'']]"

text \<open>
  The same library with a linker that writes the import map it is given into the one file
  it answers with, and the application as a slice that is not compiled yet, kept in the
  store like the others.
\<close>

definition linking_env :: env where
  "linking_env =
     import_env\<lparr>e_link := (\<lambda>args.
        Inr [\<lparr>js_source = concat (map (\<lambda>i. fst i @ '' from '' @ name_or_app (snd i) @ '';'')
                                    (la_imports args)),
              js_servePath = Some ''/packages/global-imports.js''\<rparr>])\<rparr>"

definition linking_app :: slice where
  "linking_app =
     import_app\<lparr>s_isCompiled := False, s_exports := None, s_boundary := None,
                s_prelinkFiles := None, s_resources := None\<rparr>"

definition linking_store :: store where
  "linking_store = import_store(''app'' \<mapsto> linking_app)"
section \<open>bundler.js: packages and slices as the bundler reads them\<close>

text \<open>
  \<^verbatim>\<open>bundler.js\<close> takes its packages from the library it is given and reads these
  properties of them: \<^verbatim>\<open>id\<close>, \<^verbatim>\<open>name\<close>, the names in \<^verbatim>\<open>uses[role][where]\<close>, the flags
  in \<^verbatim>\<open>unordered\<close>, \<^verbatim>\<open>npmDependencies\<close> and \<^verbatim>\<open>npmDir()\<close>, and, once
  \<^verbatim>\<open>ensureCompiled()\<close> has run, \<^verbatim>\<open>resources\<close>, \<^verbatim>\<open>exports.use\<close>, \<^verbatim>\<open>prelinkFiles\<close>,
  \<^verbatim>\<open>boundary\<close> and \<^verbatim>\<open>dependencyFileShas\<close>, and what \<^verbatim>\<open>registeredExtensions\<close> answers.
  \<open>b_ensureCompiled\<close> and \<open>b_installNpm\<close> are the messages of the exceptions that
  \<^verbatim>\<open>ensureCompiled()\<close> and \<^verbatim>\<open>installNpmDependencies()\<close> throw, if they throw.
\<close>

record bpkg =
  b_id :: nat
  b_name :: "string option"
  b_uses :: "role \<Rightarrow> arch \<Rightarrow> string list"
  b_unordered :: "string \<Rightarrow> bool"
  b_npmDependencies :: bool
  b_npmDir :: string
  b_installNpm :: "string option"
  b_ensureCompiled :: "string option"
  b_registeredExtensions :: "role \<Rightarrow> arch \<Rightarrow> string list"
  b_resources :: "role \<Rightarrow> arch \<Rightarrow> resource list"
  b_exports_use :: "arch \<Rightarrow> string list"
  b_prelinkFiles :: "role \<Rightarrow> arch \<Rightarrow> jsfile list"
  b_boundary :: "role \<Rightarrow> arch \<Rightarrow> string"
  b_dependencyFileShas :: "(string \<times> string) list"

record bslice =
  sl_pkg :: bpkg
  sl_role :: role
  sl_where :: arch

text \<open>
  The string \<^verbatim>\<open>slice.role + ":" + slice.where + ":" + slice.pkg.id\<close>, which determines
  and is determined by the three parts it is made of.
\<close>

type_synonym slice_key = "role \<times> arch \<times> nat"

definition slice_id :: "bslice \<Rightarrow> slice_key" where
  "slice_id s = (sl_role s, sl_where s, b_id (sl_pkg s))"

datatype pkg_ref = ByName string | ByObject bpkg

text \<open>
  \<^verbatim>\<open>getPackage\<close> asks \<^verbatim>\<open>library.get\<close>, which maps a package object to itself and throws
  for a name it cannot load (\<open>None\<close>); it never answers with a falsy value, so the
  branch of \<^verbatim>\<open>getPackage\<close> that exits is not reached.
\<close>

definition getPackage :: "(string \<Rightarrow> bpkg option) \<Rightarrow> pkg_ref \<Rightarrow> error + bpkg" where
  "getPackage library r =
     (case r of
        ByObject pkg \<Rightarrow> Inr pkg
      | ByName name \<Rightarrow>
          (case library name of
             None \<Rightarrow> Inl (Thrown (''Package not available: '' @ name))
           | Some pkg \<Rightarrow> Inr pkg))"

subsection \<open>determineLoadOrder\<close>

record add_state =
  sliceIndex :: "slice_key \<Rightarrow> bslice option"
  slicesUnordered :: "bslice list"

text \<open>
  The recursive \<^verbatim>\<open>add\<close>.  The first argument bounds the depth of the recursion; \<open>None\<close>
  means that the bound was reached.
\<close>

fun add :: "nat \<Rightarrow> (string \<Rightarrow> bpkg option) \<Rightarrow> bpkg \<Rightarrow> role \<Rightarrow> arch \<Rightarrow> add_state
      \<Rightarrow> (error + add_state) option"
  and add_uses :: "nat \<Rightarrow> (string \<Rightarrow> bpkg option) \<Rightarrow> string list \<Rightarrow> arch \<Rightarrow> add_state
      \<Rightarrow> (error + add_state) option" where
  "add 0 library pkg r w st = None"
| "add (Suc fuel) library pkg r w st =
     (if sliceIndex st (r, w, b_id pkg) \<noteq> None then Some (Inr st)
      else add_uses fuel library (b_uses pkg r w) w
             (st\<lparr>sliceIndex := (sliceIndex st)((r, w, b_id pkg) \<mapsto> \<lparr>sl_pkg = pkg, sl_role = r, sl_where = w\<rparr>),
                 slicesUnordered := slicesUnordered st @ [\<lparr>sl_pkg = pkg, sl_role = r, sl_where = w\<rparr>]\<rparr>))"
| "add_uses fuel library [] w st = Some (Inr st)"
| "add_uses fuel library (usedPkgName # rest) w st =
     (case getPackage library (ByName usedPkgName) of
        Inl e \<Rightarrow> Some (Inl e)
      | Inr usedPkg \<Rightarrow>
          (case add fuel library usedPkg Use w st of
             None \<Rightarrow> None
           | Some (Inl e) \<Rightarrow> Some (Inl e)
           | Some (Inr st') \<Rightarrow> add_uses fuel library rest w st'))"

fun add_roots :: "nat \<Rightarrow> (string \<Rightarrow> bpkg option) \<Rightarrow> role \<Rightarrow> arch \<Rightarrow> pkg_ref list \<Rightarrow> add_state
      \<Rightarrow> (error + add_state) option" where
  "add_roots fuel library r w [] st = Some (Inr st)"
| "add_roots fuel library r w (packageOrPackageName # rest) st =
     (case getPackage library packageOrPackageName of
        Inl e \<Rightarrow> Some (Inl e)
      | Inr pkg \<Rightarrow>
          (case add fuel library pkg r w st of
             None \<Rightarrow> None
           | Some (Inl e) \<Rightarrow> Some (Inl e)
           | Some (Inr st') \<Rightarrow> add_roots fuel library r w rest st'))"

text \<open>
  \<^verbatim>\<open>contents\<close> has the keys \<^verbatim>\<open>use\<close> and \<^verbatim>\<open>test\<close>, each with the keys \<^verbatim>\<open>client\<close> and
  \<^verbatim>\<open>server\<close>, written in this order by \<^verbatim>\<open>bundle\<close>; \<^verbatim>\<open>_.each\<close> visits them so.
\<close>

fun add_contents :: "nat \<Rightarrow> (string \<Rightarrow> bpkg option) \<Rightarrow> (role \<Rightarrow> arch \<Rightarrow> pkg_ref list)
      \<Rightarrow> (role \<times> arch) list \<Rightarrow> add_state \<Rightarrow> (error + add_state) option" where
  "add_contents fuel library contents [] st = Some (Inr st)"
| "add_contents fuel library contents (rw # rest) st =
     (case add_roots fuel library (fst rw) (snd rw) (contents (fst rw) (snd rw)) st of
        None \<Rightarrow> None
      | Some (Inl e) \<Rightarrow> Some (Inl e)
      | Some (Inr st') \<Rightarrow> add_contents fuel library contents rest st')"

record load_state =
  done_ids :: "slice_key set"
  remaining :: "(slice_key \<times> bslice) list"
  onStack :: "slice_key set"
  slices :: "bslice list"

text \<open>An edge is skipped by \<^verbatim>\<open>load\<close> when the using package has a name and marks it unordered.\<close>

definition skipped :: "bslice \<Rightarrow> string \<Rightarrow> bool" where
  "skipped s usedPkgName = (truthy (b_name (sl_pkg s)) \<and> b_unordered (sl_pkg s) usedPkgName)"

definition js_string :: "string option \<Rightarrow> string" where
  "js_string n = (case n of None \<Rightarrow> ''null'' | Some s \<Rightarrow> s)"

fun load :: "nat \<Rightarrow> (string \<Rightarrow> bpkg option) \<Rightarrow> (slice_key \<Rightarrow> bslice option) \<Rightarrow> bslice \<Rightarrow> load_state
      \<Rightarrow> (error + load_state) option"
  and load_uses :: "nat \<Rightarrow> (string \<Rightarrow> bpkg option) \<Rightarrow> (slice_key \<Rightarrow> bslice option) \<Rightarrow> bslice
      \<Rightarrow> string list \<Rightarrow> load_state \<Rightarrow> (error + load_state) option" where
  "load 0 library index s st = None"
| "load (Suc fuel) library index s st =
     (if slice_id s \<in> done_ids st then Some (Inr st)
      else (case load_uses fuel library index s (b_uses (sl_pkg s) (sl_role s) (sl_where s)) st of
              None \<Rightarrow> None
            | Some (Inl e) \<Rightarrow> Some (Inl e)
            | Some (Inr st') \<Rightarrow>
                Some (Inr (st'\<lparr>slices := slices st' @ [s],
                               done_ids := insert (slice_id s) (done_ids st'),
                               remaining := AList.delete (slice_id s) (remaining st')\<rparr>))))"
| "load_uses fuel library index s [] st = Some (Inr st)"
| "load_uses fuel library index s (usedPkgName # rest) st =
     (if skipped s usedPkgName then load_uses fuel library index s rest st
      else (case getPackage library (ByName usedPkgName) of
              Inl e \<Rightarrow> Some (Inl e)
            | Inr usedPkg \<Rightarrow>
                (case index (Use, sl_where s, b_id usedPkg) of
                   None \<Rightarrow> Some (Inl (Thrown ''Missing slice?''))
                 | Some usedSlice \<Rightarrow>
                     if slice_id usedSlice \<in> onStack st
                     then Some (Inl (Exit (''fatal: circular dependency between packages '' @
                                           js_string (b_name (sl_pkg s)) @ '' and '' @
                                           js_string (b_name (sl_pkg usedSlice)))))
                     else (case load fuel library index usedSlice
                                  (st\<lparr>onStack := insert (slice_id usedSlice) (onStack st)\<rparr>) of
                             None \<Rightarrow> None
                           | Some (Inl e) \<Rightarrow> Some (Inl e)
                           | Some (Inr st') \<Rightarrow>
                               load_uses fuel library index s rest
                                 (st'\<lparr>onStack := onStack st' - {slice_id usedSlice}\<rparr>)))))"

text \<open>
  The \<^verbatim>\<open>while (true)\<close> loop: take the first key of \<^verbatim>\<open>remaining\<close> and load its slice, until
  no key remains.
\<close>

fun load_all :: "nat \<Rightarrow> (string \<Rightarrow> bpkg option) \<Rightarrow> (slice_key \<Rightarrow> bslice option) \<Rightarrow> load_state
      \<Rightarrow> (error + load_state) option" where
  "load_all 0 library index st = None"
| "load_all (Suc fuel) library index st =
     (case remaining st of
        [] \<Rightarrow> Some (Inr st)
      | first # others \<Rightarrow>
          (case load fuel library index (snd first) st of
             None \<Rightarrow> None
           | Some (Inl e) \<Rightarrow> Some (Inl e)
           | Some (Inr st') \<Rightarrow> load_all fuel library index st'))"

text \<open>
  \<^verbatim>\<open>determineLoadOrder(contents)\<close>, from the slices the bundle holds already (none, in
  \<^verbatim>\<open>bundle\<close>) to the slices it holds afterwards.
\<close>

definition determineLoadOrder :: "nat \<Rightarrow> (string \<Rightarrow> bpkg option) \<Rightarrow> (role \<Rightarrow> arch \<Rightarrow> pkg_ref list)
      \<Rightarrow> bslice list \<Rightarrow> (error + bslice list) option" where
  "determineLoadOrder fuel library contents self_slices =
     (case add_contents fuel library contents
             [(Use, Client), (Use, Server), (Test, Client), (Test, Server)]
             \<lparr>sliceIndex = (\<lambda>k. None), slicesUnordered = []\<rparr> of
        None \<Rightarrow> None
      | Some (Inl e) \<Rightarrow> Some (Inl e)
      | Some (Inr added) \<Rightarrow>
          (case load_all fuel library (sliceIndex added)
                  \<lparr>done_ids = {},
                   remaining = fold (\<lambda>s. AList.update (slice_id s) s) (slicesUnordered added) [],
                   onStack = {},
                   slices = self_slices\<rparr> of
             None \<Rightarrow> None
           | Some (Inl e) \<Rightarrow> Some (Inl e)
           | Some (Inr st) \<Rightarrow> Some (Inr (slices st))))"

section \<open>bundler.js: the bundle\<close>

record manifest_entry =
  m_path :: string
  m_where :: string
  m_type :: "string option"
  m_cacheable :: "bool option"
  m_url :: "string option"
  m_size :: "nat option"
  m_hash :: string

text \<open>A watched directory: the sources of its include and exclude patterns.\<close>

record dir_watch =
  dw_include :: "string list option"
  dw_exclude :: "string list"

record dependency_info =
  di_files :: "(string \<times> string) list"
  di_directories :: "(string \<times> dir_watch) list"

text \<open>
  The fields of a \<^verbatim>\<open>Bundle\<close>.  Objects used as maps are association lists in insertion
  order; \<^verbatim>\<open>self.files\<close> is kept as its three parts.
\<close>

record bundle_t =
  bn_slices :: "bslice list"
  bn_releaseStamp :: "string option"
  bn_js :: "arch \<Rightarrow> string list"
  bn_css :: "string list"
  bn_static :: "arch \<Rightarrow> string list"
  bn_client :: "(string \<times> string) list"
  bn_clientCacheable :: "(string \<times> string) list"
  bn_server :: "(string \<times> string) list"
  bn_manifest :: "manifest_entry list"
  bn_nodeModulesDirs :: "(string \<times> string) list"
  bn_head :: "string list"
  bn_body :: "string list"
  bn_dependencyInfo :: "dependency_info option"

definition new_Bundle :: "string option \<Rightarrow> bundle_t" where
  "new_Bundle stamp =
     \<lparr>bn_slices = [], bn_releaseStamp = stamp, bn_js = (\<lambda>w. []), bn_css = [],
      bn_static = (\<lambda>w. []), bn_client = [], bn_clientCacheable = [], bn_server = [],
      bn_manifest = [], bn_nodeModulesDirs = [], bn_head = [], bn_body = [],
      bn_dependencyInfo = None\<rparr>"

text \<open>
  What the bundler takes from outside the two modules: \<^verbatim>\<open>sha1\<close>, the two minifiers (\<open>None\<close>
  when they throw), the second phase of \<^verbatim>\<open>linker.js\<close>, the template engine applied to
  \<^verbatim>\<open>app.html.in\<close>, \<^verbatim>\<open>JSON.stringify\<close> of \<^verbatim>\<open>app.json\<close>, \<^verbatim>\<open>path.resolve\<close>, the directory of
  the tools (\<^verbatim>\<open>__dirname\<close>), \<^verbatim>\<open>files.get_dev_bundle()\<close>, the names that \<^verbatim>\<open>ignoreFiles\<close>
  matches and the sources of its patterns, and the fixed text of the README.
\<close>

record tools =
  t_sha1 :: "string \<Rightarrow> string"
  t_uglify :: "string \<Rightarrow> string option"
  t_cleanCSS :: "string \<Rightarrow> string option"
  t_link :: "link_args \<Rightarrow> error + jsfile list"
  t_render :: "string \<Rightarrow> string list \<Rightarrow> string \<Rightarrow> string \<Rightarrow> string list \<Rightarrow> string"
  t_json :: "string list \<Rightarrow> manifest_entry list \<Rightarrow> string option \<Rightarrow> string"
  t_resolve :: "string \<Rightarrow> string"
  t_toolsDir :: string
  t_devBundle :: string
  t_ignored :: "string \<Rightarrow> bool"
  t_ignoreFiles :: "string list"
  t_readme :: string

subsection \<open>prepNodeModules and emitResources\<close>

definition path_join :: "string \<Rightarrow> string \<Rightarrow> string" where
  "path_join a b =
     (let a' = (if a \<noteq> [] \<and> last a = CHR ''/'' then butlast a else a);
          b' = (if b \<noteq> [] \<and> hd b = CHR ''/'' then tl b else b)
      in a' @ ''/'' @ b')"

definition prep_slice :: "bslice \<Rightarrow> nat set \<times> bundle_t \<Rightarrow> error + nat set \<times> bundle_t" where
  "prep_slice s st =
     (if b_npmDependencies (sl_pkg s) \<and> b_id (sl_pkg s) \<notin> fst st
      then (case b_installNpm (sl_pkg s) of
              Some msg \<Rightarrow> Inl (Thrown msg)
            | None \<Rightarrow>
                Inr (insert (b_id (sl_pkg s)) (fst st),
                     (snd st)\<lparr>bn_nodeModulesDirs :=
                        AList.update (js_string (b_name (sl_pkg s)))
                          (path_join (b_npmDir (sl_pkg s)) ''node_modules'')
                          (bn_nodeModulesDirs (snd st))\<rparr>))
      else Inr st)"

definition prepNodeModules :: "bundle_t \<Rightarrow> error + bundle_t" where
  "prepNodeModules b =
     (case each_e prep_slice (bn_slices b) ({}, b) of Inl e \<Rightarrow> Inl e | Inr st \<Rightarrow> Inr (snd st))"

definition files_of :: "arch \<Rightarrow> bundle_t \<Rightarrow> (string \<times> string) list" where
  "files_of w b = (case w of Client \<Rightarrow> bn_client b | Server \<Rightarrow> bn_server b)"

definition set_file :: "arch \<Rightarrow> string \<Rightarrow> string \<Rightarrow> bundle_t \<Rightarrow> bundle_t" where
  "set_file w servePath data b =
     (case w of
        Client \<Rightarrow> b\<lparr>bn_client := AList.update servePath data (bn_client b)\<rparr>
      | Server \<Rightarrow> b\<lparr>bn_server := AList.update servePath data (bn_server b)\<rparr>)"

definition key_of :: "string option \<Rightarrow> string" where
  "key_of p = (case p of None \<Rightarrow> ''undefined'' | Some s \<Rightarrow> s)"

definition emit_resource :: "arch \<Rightarrow> resource \<Rightarrow> bundle_t \<Rightarrow> error + bundle_t" where
  "emit_resource w res b =
     (if r_type res = ''js''
      then Inr ((set_file w (key_of (r_servePath res)) (r_data res) b)
                  \<lparr>bn_js := (bn_js b)(w := bn_js b w @ [key_of (r_servePath res)])\<rparr>)
      else if r_type res = ''css''
      then (if w \<noteq> Client then Inr b
            else Inr ((set_file w (key_of (r_servePath res)) (r_data res) b)
                        \<lparr>bn_css := bn_css b @ [key_of (r_servePath res)]\<rparr>))
      else if r_type res = ''static''
      then Inr ((set_file w (key_of (r_servePath res)) (r_data res) b)
                  \<lparr>bn_static := (bn_static b)(w := bn_static b w @ [key_of (r_servePath res)])\<rparr>)
      else if r_type res = ''head'' \<or> r_type res = ''body''
      then (if w \<noteq> Client then Inl (Thrown ''HTML segments can only go to the client'')
            else if r_type res = ''head'' then Inr (b\<lparr>bn_head := bn_head b @ [r_data res]\<rparr>)
            else Inr (b\<lparr>bn_body := bn_body b @ [r_data res]\<rparr>))
      else Inl (Thrown (''Unknown type '' @ r_type res)))"

definition import_from :: "(string \<Rightarrow> bpkg option) \<Rightarrow> bslice \<Rightarrow> string
    \<Rightarrow> (string \<times> string option) list \<Rightarrow> error + (string \<times> string option) list" where
  "import_from library s otherPkgName imps =
     (case getPackage library (ByName otherPkgName) of
        Inl e \<Rightarrow> Inl e
      | Inr otherPkg \<Rightarrow>
          if truthy (b_name otherPkg) \<and> \<not> b_unordered (sl_pkg s) (js_string (b_name otherPkg))
          then (case b_ensureCompiled otherPkg of
                  Some msg \<Rightarrow> Inl (Thrown msg)
                | None \<Rightarrow>
                    Inr (fold (\<lambda>symbol. AList.update symbol (b_name otherPkg))
                           (b_exports_use otherPkg (sl_where s)) imps))
          else Inr imps)"

definition emit_slice :: "tools \<Rightarrow> (string \<Rightarrow> bpkg option) \<Rightarrow> bslice \<Rightarrow> bundle_t \<Rightarrow> error + bundle_t" where
  "emit_slice t library s b =
     (case b_ensureCompiled (sl_pkg s) of
        Some msg \<Rightarrow> Inl (Thrown msg)
      | None \<Rightarrow>
          (case each_e (import_from library s)
                  (b_uses (sl_pkg s) (sl_role s) (sl_where s)) [] of
             Inl e \<Rightarrow> Inl e
           | Inr imps \<Rightarrow>
               (case t_link t \<lparr>la_imports = imps,
                        la_useGlobalNamespace = \<not> truthy (b_name (sl_pkg s)),
                        la_prelinkFiles = Some (b_prelinkFiles (sl_pkg s) (sl_role s) (sl_where s)),
                        la_boundary = Some (b_boundary (sl_pkg s) (sl_role s) (sl_where s))\<rparr> of
                  Inl e \<Rightarrow> Inl e
                | Inr files \<Rightarrow>
                    each_e (emit_resource (sl_where s))
                      (b_resources (sl_pkg s) (sl_role s) (sl_where s) @ map js_resource files) b)))"

definition emitResources :: "tools \<Rightarrow> (string \<Rightarrow> bpkg option) \<Rightarrow> bundle_t \<Rightarrow> error + bundle_t" where
  "emitResources t library b = each_e (emit_slice t library) (bn_slices b) b"

subsection \<open>minify\<close>

definition addFile :: "tools \<Rightarrow> string \<Rightarrow> string \<Rightarrow> bundle_t \<Rightarrow> bundle_t" where
  "addFile t type finalCode b =
     (let contents = finalCode;
          hash = t_sha1 t contents;
          name = ''/'' @ hash @ ''.'' @ type
      in b\<lparr>bn_clientCacheable := AList.update name contents (bn_clientCacheable b),
           bn_manifest := bn_manifest b @
             [\<lparr>m_path = ''static_cacheable'' @ name, m_where = ''client'', m_type = Some type,
               m_cacheable = Some True, m_url = Some name, m_size = Some (length contents),
               m_hash = hash\<rparr>]\<rparr>)"

text \<open>\<^verbatim>\<open>Array.prototype.join\<close>.\<close>

fun js_join :: "string \<Rightarrow> string list \<Rightarrow> string" where
  "js_join sep [] = []"
| "js_join sep [x] = x"
| "js_join sep (x # y # ys) = x @ sep @ js_join sep (y # ys)"

text \<open>
  One round of a loop of \<^verbatim>\<open>minify\<close>: read \<^verbatim>\<open>self.files.client[path]\<close>, which is undefined
  when the path is no key of the map (any more), and delete the key.
\<close>

definition take_client :: "string \<Rightarrow> string list \<times> (string \<times> string) list
    \<Rightarrow> error + string list \<times> (string \<times> string) list" where
  "take_client p st =
     (case map_of (snd st) p of
        None \<Rightarrow> Inl (TypeError ''Cannot call method toString of undefined'')
      | Some data \<Rightarrow> Inr (fst st @ [data], AList.delete p (snd st)))"

definition minify :: "tools \<Rightarrow> bundle_t \<Rightarrow> error + bundle_t" where
  "minify t b =
     (case each_e take_client (bn_js b Client) ([], bn_client b) of
        Inl e \<Rightarrow> Inl e
      | Inr js_st \<Rightarrow>
          (case t_uglify t (js_join [CHR 0x0A, CHR '';'', CHR 0x0A] (fst js_st)) of
             None \<Rightarrow> Inl (Thrown ''uglify: parse error'')
           | Some finalCode \<Rightarrow>
               (let b1 = addFile t ''js'' finalCode
                           (b\<lparr>bn_client := snd js_st, bn_js := (bn_js b)(Client := [])\<rparr>)
                in case each_e take_client (bn_css b1) ([], bn_client b1) of
                     Inl e \<Rightarrow> Inl e
                   | Inr css_st \<Rightarrow>
                       (case t_cleanCSS t (concat (map (\<lambda>cssData. CHR 0x0A # cssData) (fst css_st))) of
                          None \<Rightarrow> Inl (Thrown ''clean-css: error'')
                        | Some finalCss \<Rightarrow>
                            Inr (addFile t ''css'' finalCss
                                   (b1\<lparr>bn_client := snd css_st, bn_css := []\<rparr>))))))"

subsection \<open>The file system\<close>

text \<open>
  Modelled from the spec: \<^verbatim>\<open>files.js\<close> (\<^verbatim>\<open>rm_recursive\<close>, \<^verbatim>\<open>mkdir_p\<close>, \<^verbatim>\<open>cp_r\<close>,
  \<^verbatim>\<open>is_app_dir\<close>) is not among the sources, nor is Node's \<^verbatim>\<open>fs\<close>.  The file system is a
  finite map from paths to nodes.  Removing a path removes what lies below it, renaming
  moves what lies below it, copying a tree copies the files below it that are not
  ignored and answers with their relative paths, and reading a path that is no file
  throws.  Writing and making a directory always succeed here.
\<close>

datatype node = File string | Dir | Symlink string

type_synonym fs = "(string \<times> node) list"

definition under :: "string \<Rightarrow> string \<Rightarrow> bool" where
  "under dir p = (p = dir \<or> prefix (dir @ ''/'') p)"

definition existsSync :: "fs \<Rightarrow> string \<Rightarrow> bool" where
  "existsSync fs p = (map_of fs p \<noteq> None)"

definition rm_recursive :: "string \<Rightarrow> fs \<Rightarrow> fs" where
  "rm_recursive p fs = filter (\<lambda>e. \<not> under p (fst e)) fs"

definition mkdir_p :: "string \<Rightarrow> fs \<Rightarrow> fs" where
  "mkdir_p p fs = (if map_of fs p = None then AList.update p Dir fs else fs)"

definition writeFileSync :: "string \<Rightarrow> string \<Rightarrow> fs \<Rightarrow> fs" where
  "writeFileSync p data fs = AList.update p (File data) fs"

definition symlinkSync :: "string \<Rightarrow> string \<Rightarrow> fs \<Rightarrow> fs" where
  "symlinkSync target p fs = AList.update p (Symlink target) fs"

definition readFileSync :: "fs \<Rightarrow> string \<Rightarrow> error + string" where
  "readFileSync fs p =
     (case map_of fs p of
        Some (File data) \<Rightarrow> Inr data
      | _ \<Rightarrow> Inl (Thrown (''ENOENT, no such file or directory '' @ p)))"

definition renameSync :: "string \<Rightarrow> string \<Rightarrow> fs \<Rightarrow> fs" where
  "renameSync src dst fs =
     map (\<lambda>e. if under src (fst e) then (dst @ drop (length src) (fst e), snd e) else e) fs"

definition cp_r :: "(string \<Rightarrow> bool) \<Rightarrow> string \<Rightarrow> string \<Rightarrow> fs \<Rightarrow> error + fs \<times> string list" where
  "cp_r ignored src dst fs =
     (if map_of fs src = None then Inl (Thrown (''ENOENT, no such file or directory '' @ src))
      else (let copied = filter (\<lambda>c. snd c \<noteq> Dir \<and> \<not> ignored (fst c))
                           (map (\<lambda>e. (drop (Suc (length src)) (fst e), snd e))
                              (filter (\<lambda>e. prefix (src @ ''/'') (fst e)) fs))
            in Inr (fold (\<lambda>c. AList.update (path_join dst (fst c)) (snd c)) copied (mkdir_p dst fs),
                    map fst copied)))"

definition is_app_dir :: "fs \<Rightarrow> string \<Rightarrow> bool" where
  "is_app_dir fs dir = existsSync fs (path_join (path_join dir ''.meteor'') ''packages'')"

text \<open>Node's \<^verbatim>\<open>path.dirname\<close> on a path without a trailing slash.\<close>

definition dirname :: "string \<Rightarrow> string" where
  "dirname p =
     (let d = rev (drop 1 (dropWhile (\<lambda>c. c \<noteq> CHR ''/'') (rev p)))
      in if d \<noteq> [] then d else if CHR ''/'' \<in> set p then ''/'' else ''.'')"

subsection \<open>writeToDirectory\<close>

text \<open>
  The state of \<^verbatim>\<open>writeToDirectory\<close>: the exception that has left it, if any, the file
  system, the bundle, and \<^verbatim>\<open>appJson.load\<close>.  A step does nothing once an exception has
  been thrown, so that the state at the end is the state in which it was thrown.
\<close>

record wstate =
  w_error :: "error option"
  w_fs :: fs
  w_bundle :: bundle_t
  w_load :: "string list"

definition step :: "(wstate \<Rightarrow> wstate) \<Rightarrow> wstate \<Rightarrow> wstate" where
  "step f st = (if w_error st = None then f st else st)"

definition w_fail :: "error \<Rightarrow> wstate \<Rightarrow> wstate" where
  "w_fail e st = st\<lparr>w_error := Some e\<rparr>"

definition each_w :: "('a \<Rightarrow> wstate \<Rightarrow> wstate) \<Rightarrow> 'a list \<Rightarrow> wstate \<Rightarrow> wstate" where
  "each_w f xs st = fold (\<lambda>x. step (f x)) xs st"

definition on_fs :: "(fs \<Rightarrow> fs) \<Rightarrow> wstate \<Rightarrow> wstate" where
  "on_fs f st = st\<lparr>w_fs := f (w_fs st)\<rparr>"

definition on_bundle :: "(bundle_t \<Rightarrow> bundle_t) \<Rightarrow> wstate \<Rightarrow> wstate" where
  "on_bundle f st = st\<lparr>w_bundle := f (w_bundle st)\<rparr>"

definition on_dependencyInfo :: "(dependency_info \<Rightarrow> dependency_info) \<Rightarrow> wstate \<Rightarrow> wstate" where
  "on_dependencyInfo f st =
     (case bn_dependencyInfo (w_bundle st) of
        None \<Rightarrow> w_fail (TypeError ''Cannot read property files of null'') st
      | Some d \<Rightarrow> on_bundle (\<lambda>b. b\<lparr>bn_dependencyInfo := Some (f d)\<rparr>) st)"

definition set_directory :: "string \<Rightarrow> dir_watch \<Rightarrow> wstate \<Rightarrow> wstate" where
  "set_directory dir watch =
     on_dependencyInfo (\<lambda>d. d\<lparr>di_directories := AList.update dir watch (di_directories d)\<rparr>)"

definition addDependency :: "tools \<Rightarrow> string \<Rightarrow> string option \<Rightarrow> bool \<Rightarrow> wstate \<Rightarrow> wstate" where
  "addDependency t filePath hash onlyIfExists st =
     (let p = t_resolve t filePath
      in if onlyIfExists \<and> \<not> existsSync (w_fs st) p then st
         else if truthy hash
         then on_dependencyInfo (\<lambda>d. d\<lparr>di_files := AList.update p (key_of hash) (di_files d)\<rparr>) st
         else (case readFileSync (w_fs st) p of
                 Inl e \<Rightarrow> w_fail e st
               | Inr data \<Rightarrow>
                   on_dependencyInfo
                     (\<lambda>d. d\<lparr>di_files := AList.update p (t_sha1 t data) (di_files d)\<rparr>) st))"

definition addClientFileToManifest :: "tools \<Rightarrow> string \<Rightarrow> string \<Rightarrow> string \<Rightarrow> bool
    \<Rightarrow> string option \<Rightarrow> string option \<Rightarrow> bundle_t \<Rightarrow> bundle_t" where
  "addClientFileToManifest t filepath contents type cacheable url hash b =
     (let normalized = (if filepath \<noteq> [] \<and> hd filepath = CHR ''/'' then tl filepath else filepath)
      in b\<lparr>bn_manifest := bn_manifest b @
            [\<lparr>m_path = (if cacheable then ''static_cacheable'' else ''static'') @ ''/'' @ normalized,
              m_where = ''client'', m_type = Some type, m_cacheable = Some cacheable,
              m_url = Some (if truthy url then key_of url else ''/'' @ normalized),
              m_size = Some (length contents),
              m_hash = (if truthy hash then key_of hash else t_sha1 t contents)\<rparr>]\<rparr>)"

definition processClientCode :: "tools \<Rightarrow> string \<Rightarrow> string \<Rightarrow> wstate \<Rightarrow> wstate" where
  "processClientCode t type file st =
     (case map_of (bn_clientCacheable (w_bundle st)) file of
        Some contents \<Rightarrow>
          on_bundle (addClientFileToManifest t file contents type True (Some file) None) st
      | None \<Rightarrow>
          (case map_of (bn_client (w_bundle st)) file of
             Some contents \<Rightarrow>
               on_bundle
                 (\<lambda>b. addClientFileToManifest t file contents type True
                         (Some (file @ ''?'' @ t_sha1 t contents)) (Some (t_sha1 t contents))
                         (b\<lparr>bn_client := AList.delete file (bn_client b),
                            bn_clientCacheable := AList.update file contents (bn_clientCacheable b)\<rparr>))
                 st
           | None \<Rightarrow> w_fail (Thrown (''unable to find file: '' @ file)) st))"

definition buildPath_of :: "string \<Rightarrow> string" where
  "buildPath_of outputPath = path_join (dirname outputPath) (''.build.'' @ basename outputPath)"

definition everything :: "tools \<Rightarrow> dir_watch" where
  "everything t = \<lparr>dw_include = Some [[CHR ''.'', CHR 0x3F]], dw_exclude = t_ignoreFiles t\<rparr>"

definition nothing :: dir_watch where
  "nothing = \<lparr>dw_include = None, dw_exclude = [[CHR ''.'', CHR 0x3F]]\<rparr>"

definition copy_server :: "tools \<Rightarrow> string \<Rightarrow> wstate \<Rightarrow> wstate" where
  "copy_server t buildPath st =
     (let serverPath = path_join (t_toolsDir t) ''server''
      in case cp_r (t_ignored t) serverPath (path_join buildPath ''server'') (w_fs st) of
           Inl e \<Rightarrow> w_fail e st
         | Inr r \<Rightarrow>
             step (set_directory serverPath (everything t))
               (each_w (\<lambda>relPath. addDependency t (path_join serverPath relPath) None False)
                  (snd r) (st\<lparr>w_fs := fst r\<rparr>)))"

definition third_party :: "tools \<Rightarrow> string \<Rightarrow> string \<Rightarrow> wstate \<Rightarrow> wstate" where
  "third_party t buildPath nodeModulesMode st =
     (let src = path_join (path_join (t_devBundle t) ''lib'') ''node_modules'';
          dst = path_join (path_join buildPath ''server'') ''node_modules''
      in if nodeModulesMode = ''symlink'' then on_fs (symlinkSync src dst) st
         else if nodeModulesMode = ''copy''
         then (case cp_r (t_ignored t) src dst (w_fs st) of
                 Inl e \<Rightarrow> w_fail e st
               | Inr r \<Rightarrow> st\<lparr>w_fs := fst r\<rparr>)
         else st)"

definition bundle_version :: "tools \<Rightarrow> string \<Rightarrow> wstate \<Rightarrow> wstate" where
  "bundle_version t buildPath st =
     (case readFileSync (w_fs st) (path_join (t_devBundle t) ''.bundle_version.txt'') of
        Inl e \<Rightarrow> w_fail e st
      | Inr data \<Rightarrow>
          on_fs (writeFileSync (path_join (path_join buildPath ''server'') ''.bundle_version.txt'') data)
            st)"

definition public_file :: "tools \<Rightarrow> string \<Rightarrow> string \<Rightarrow> wstate \<Rightarrow> wstate" where
  "public_file t publicDir relPath st =
     (case readFileSync (w_fs st) (path_join publicDir relPath) of
        Inl e \<Rightarrow> w_fail e st
      | Inr contents \<Rightarrow>
          step (on_bundle (addClientFileToManifest t relPath contents ''static'' False None
                             (Some (t_sha1 t contents))))
            (addDependency t (path_join publicDir relPath) (Some (t_sha1 t contents)) False st))"

definition static_assets :: "tools \<Rightarrow> string \<Rightarrow> string \<Rightarrow> wstate \<Rightarrow> wstate" where
  "static_assets t buildPath projectDir st =
     (let publicDir = path_join projectDir ''public''
      in step (set_directory publicDir (everything t))
           (if existsSync (w_fs st) publicDir
            then (case cp_r (t_ignored t) publicDir (path_join buildPath ''static'') (w_fs st) of
                    Inl e \<Rightarrow> w_fail e st
                  | Inr r \<Rightarrow> each_w (public_file t publicDir) (snd r) (st\<lparr>w_fs := fst r\<rparr>))
            else st))"

definition write_under :: "string \<Rightarrow> string \<Rightarrow> string \<Rightarrow> fs \<Rightarrow> fs" where
  "write_under dir relPath data fs =
     writeFileSync (path_join dir relPath) data (mkdir_p (dirname (path_join dir relPath)) fs)"

definition client_file :: "tools \<Rightarrow> string \<Rightarrow> string \<times> string \<Rightarrow> wstate \<Rightarrow> wstate" where
  "client_file t buildPath f st =
     on_bundle (addClientFileToManifest t (fst f) (snd f) ''static'' False None None)
       (on_fs (write_under (path_join buildPath ''static'') (fst f) (snd f)) st)"

definition cacheable_file :: "string \<Rightarrow> string \<times> string \<Rightarrow> wstate \<Rightarrow> wstate" where
  "cacheable_file buildPath f st =
     on_fs (write_under (path_join buildPath ''static_cacheable'') (fst f) (snd f)) st"

definition server_file :: "string \<Rightarrow> string \<times> string \<Rightarrow> wstate \<Rightarrow> wstate" where
  "server_file buildPath f st =
     (on_fs (write_under buildPath (path_join ''app'' (fst f)) (snd f)) st)
       \<lparr>w_load := w_load st @ [path_join ''app'' (fst f)]\<rparr>"

definition node_modules_dir :: "tools \<Rightarrow> string \<Rightarrow> string \<Rightarrow> string \<times> string \<Rightarrow> wstate \<Rightarrow> wstate" where
  "node_modules_dir t buildPath nodeModulesMode d st =
     (let st1 = on_fs (mkdir_p (path_join buildPath ''npm'')) st;
          buildModulesPath = path_join (path_join buildPath ''npm'') (fst d)
      in if nodeModulesMode = ''symlink'' then on_fs (symlinkSync (snd d) buildModulesPath) st1
         else (case cp_r (\<lambda>name. False) (snd d) buildModulesPath (w_fs st1) of
                 Inl e \<Rightarrow> w_fail e st1
               | Inr r \<Rightarrow> st1\<lparr>w_fs := fst r\<rparr>))"

definition clientUrlsFor :: "string \<Rightarrow> bundle_t \<Rightarrow> string list" where
  "clientUrlsFor type b =
     map (\<lambda>m. key_of (m_url m))
       (filter (\<lambda>m. m_where m = ''client'' \<and> m_type m = Some type) (bn_manifest b))"

definition app_html :: "tools \<Rightarrow> string \<Rightarrow> wstate \<Rightarrow> wstate" where
  "app_html t buildPath st =
     (case readFileSync (w_fs st) (path_join (t_toolsDir t) ''app.html.in'') of
        Inl e \<Rightarrow> w_fail e st
      | Inr template \<Rightarrow>
          (let b = w_bundle st;
               appHtml = t_render t template (clientUrlsFor ''js'' b)
                           (js_join [CHR 0x0A] (bn_head b)) (js_join [CHR 0x0A] (bn_body b))
                           (clientUrlsFor ''css'' b)
           in step (addDependency t (path_join (t_toolsDir t) ''app.html.in'') None False)
                (on_bundle
                   (\<lambda>b. b\<lparr>bn_manifest := bn_manifest b @
                           [\<lparr>m_path = ''app.html'', m_where = ''internal'', m_type = None,
                             m_cacheable = None, m_url = None, m_size = None,
                             m_hash = t_sha1 t appHtml\<rparr>]\<rparr>)
                   (on_fs (writeFileSync (path_join buildPath ''app.html'') appHtml) st))))"

definition launcher :: "tools \<Rightarrow> string \<Rightarrow> wstate \<Rightarrow> wstate" where
  "launcher t buildPath st =
     on_fs (writeFileSync (path_join buildPath ''README'') (t_readme t))
       (on_fs (writeFileSync (path_join buildPath ''main.js'')
                 (''require('' @ [CHR 0x27] @ ''./server/server.js'' @ [CHR 0x27] @ '');'' @ [CHR 0x0A])) st)"

text \<open>
  The step headed ``Source file dependencies'': \<^verbatim>\<open>slice.pkg.dependencyFileShas\<close> of every
  slice of the bundle is merged into \<^verbatim>\<open>dependencyInfo.files\<close>.
\<close>

definition source_dependencies :: "wstate \<Rightarrow> wstate" where
  "source_dependencies st =
     each_w (\<lambda>s. on_dependencyInfo
                   (\<lambda>d. d\<lparr>di_files := extend_obj (di_files d) (b_dependencyFileShas (sl_pkg s))\<rparr>))
       (bn_slices (w_bundle st)) st"

text \<open>\<^verbatim>\<open>_.union\<close> of two arrays: the first occurrences, in order.\<close>

definition js_union :: "'a list \<Rightarrow> 'a list \<Rightarrow> 'a list" where
  "js_union xs ys = rev (remdups (rev (xs @ ys)))"

definition appExtensions :: "bundle_t \<Rightarrow> string list" where
  "appExtensions b =
     fold (\<lambda>s ret. if \<not> truthy (b_name (sl_pkg s))
                    then js_union ret (b_registeredExtensions (sl_pkg s) (sl_role s) (sl_where s))
                    else ret)
       (bn_slices b) []"

definition app_directories :: "tools \<Rightarrow> string \<Rightarrow> wstate \<Rightarrow> wstate" where
  "app_directories t projectDir st =
     step (set_directory (t_resolve t (path_join (path_join projectDir ''.meteor'') ''local'')) nothing)
       (step (set_directory (t_resolve t (path_join projectDir ''packages'')) nothing)
          (set_directory (t_resolve t projectDir)
             \<lparr>dw_include = Some (map (\<lambda>ext. [CHR 0x5C, CHR ''.''] @ drop 1 ext @ [CHR 0x24])
                                   (appExtensions (w_bundle st))),
               dw_exclude = t_ignoreFiles t\<rparr> st))"

definition metadata :: "tools \<Rightarrow> string \<Rightarrow> wstate \<Rightarrow> wstate" where
  "metadata t buildPath st =
     on_fs (writeFileSync (path_join buildPath ''app.json'')
              (t_json t (w_load st) (bn_manifest (w_bundle st))
                 (if truthy (bn_releaseStamp (w_bundle st)) \<and>
                     bn_releaseStamp (w_bundle st) \<noteq> Some ''none''
                  then bn_releaseStamp (w_bundle st) else None))) st"

definition move_into_place :: "string \<Rightarrow> string \<Rightarrow> wstate \<Rightarrow> wstate" where
  "move_into_place buildPath outputPath st =
     on_fs (\<lambda>fs. renameSync buildPath outputPath (rm_recursive outputPath fs)) st"

definition set_up_build_area :: "string \<Rightarrow> wstate \<Rightarrow> wstate" where
  "set_up_build_area buildPath st = on_fs (\<lambda>fs. mkdir_p buildPath (rm_recursive buildPath fs)) st"

definition control_files :: "tools \<Rightarrow> string \<Rightarrow> wstate \<Rightarrow> wstate" where
  "control_files t projectDir st =
     step (addDependency t (path_join (path_join projectDir ''.meteor'') ''release'') None True)
       (addDependency t (path_join (path_join projectDir ''.meteor'') ''packages'') None False st)"

text \<open>The steps of \<^verbatim>\<open>writeToDirectory\<close>, in the order of the source.\<close>

definition write_steps :: "tools \<Rightarrow> string \<Rightarrow> string \<Rightarrow> string \<Rightarrow> bool \<Rightarrow> (wstate \<Rightarrow> wstate) list" where
  "write_steps t outputPath projectDir nodeModulesMode isApp =
     (let buildPath = buildPath_of outputPath
      in [(\<lambda>st. if isApp then control_files t projectDir st else st),
          set_up_build_area buildPath,
          copy_server t buildPath,
          third_party t buildPath nodeModulesMode,
          bundle_version t buildPath,
          (\<lambda>st. if isApp then static_assets t buildPath projectDir st else st),
          (\<lambda>st. each_w (processClientCode t ''js'') (bn_js (w_bundle st) Client) st),
          (\<lambda>st. each_w (processClientCode t ''css'') (bn_css (w_bundle st)) st),
          (\<lambda>st. each_w (client_file t buildPath) (bn_client (w_bundle st)) st),
          (\<lambda>st. each_w (cacheable_file buildPath) (bn_clientCacheable (w_bundle st)) st),
          (\<lambda>st. each_w (server_file buildPath) (bn_server (w_bundle st))
                   (on_fs (mkdir_p (path_join buildPath ''app'')) st)),
          (\<lambda>st. each_w (node_modules_dir t buildPath nodeModulesMode)
                   (bn_nodeModulesDirs (w_bundle st)) st),
          app_html t buildPath,
          launcher t buildPath,
          source_dependencies,
          (\<lambda>st. if isApp then app_directories t projectDir st else st),
          metadata t buildPath,
          move_into_place buildPath outputPath])"

definition writeToDirectory :: "tools \<Rightarrow> string \<Rightarrow> string \<Rightarrow> string \<Rightarrow> bundle_t \<Rightarrow> fs \<Rightarrow> wstate" where
  "writeToDirectory t outputPath projectDir nodeModulesMode b fs =
     fold step (write_steps t outputPath projectDir nodeModulesMode (is_app_dir fs projectDir))
       \<lparr>w_error = None, w_fs = fs,
        w_bundle = b\<lparr>bn_dependencyInfo := Some \<lparr>di_files = [], di_directories = []\<rparr>\<rparr>,
        w_load = []\<rparr>"

subsection \<open>bundle\<close>

record library =
  lib_get :: "string \<Rightarrow> bpkg option"
  lib_getForApp :: "string \<Rightarrow> error + bpkg"

record bundle_options =
  bo_nodeModulesMode :: "string option"
  bo_library :: "library option"
  bo_releaseStamp :: "string option"
  bo_minify :: bool
  bo_testPackages :: "pkg_ref list option"

record bundle_result =
  br_errors :: "string list option"
  br_dependencyInfo :: "dependency_info option"

text \<open>
  How a call of \<^verbatim>\<open>bundle\<close> ends: it returns, an exception leaves it, or the process
  exits.  The file system it leaves is part of the outcome.
\<close>

datatype outcome = Returns bundle_result | Raises error | Exits string

definition message :: "error \<Rightarrow> string" where
  "message e = (case e of Thrown m \<Rightarrow> m | TypeError m \<Rightarrow> m | Exit m \<Rightarrow> m)"

text \<open>
  What \<^verbatim>\<open>catch\<close> can catch: an exception, but not the end of the process
  (\<^verbatim>\<open>process.exit\<close>).
\<close>

definition caught :: "error \<Rightarrow> bool" where
  "caught e = (case e of Exit m \<Rightarrow> False | _ \<Rightarrow> True)"

text \<open>
  The phases inside \<^verbatim>\<open>try\<close> before the bundle is written; they leave the file system
  as it is.
\<close>

definition prepare :: "nat \<Rightarrow> tools \<Rightarrow> library \<Rightarrow> string \<Rightarrow> bundle_options \<Rightarrow> (error + bundle_t) option" where
  "prepare fuel t lib appDir options =
     (case lib_getForApp lib appDir of
        Inl e \<Rightarrow> Some (Inl e)
      | Inr app \<Rightarrow>
          (case determineLoadOrder fuel (lib_get lib)
                  (\<lambda>r w. case r of
                            Use \<Rightarrow> [ByObject app]
                          | Test \<Rightarrow> (case bo_testPackages options of None \<Rightarrow> [] | Some ps \<Rightarrow> ps))
                  (bn_slices (new_Bundle (bo_releaseStamp options))) of
             None \<Rightarrow> None
           | Some (Inl e) \<Rightarrow> Some (Inl e)
           | Some (Inr ss) \<Rightarrow>
               (case prepNodeModules ((new_Bundle (bo_releaseStamp options))\<lparr>bn_slices := ss\<rparr>) of
                  Inl e \<Rightarrow> Some (Inl e)
                | Inr b1 \<Rightarrow>
                    (case emitResources t (lib_get lib) b1 of
                       Inl e \<Rightarrow> Some (Inl e)
                     | Inr b2 \<Rightarrow> if bo_minify options then Some (minify t b2) else Some (Inr b2)))))"

text \<open>
  \<^verbatim>\<open>exports.bundle\<close>.  \<open>None\<close> as options stands for a call without options.  The
  answer \<open>None\<close> means that the depth bound of \<open>determineLoadOrder\<close> was reached.
\<close>

definition bundle_op :: "nat \<Rightarrow> tools \<Rightarrow> string \<Rightarrow> string \<Rightarrow> bundle_options option \<Rightarrow> fs
    \<Rightarrow> (outcome \<times> fs) option" where
  "bundle_op fuel t appDir outputPath opts fs =
     (case opts of
        None \<Rightarrow> Some (Raises (Thrown ''Must pass options''), fs)
      | Some options \<Rightarrow>
          if \<not> truthy (bo_nodeModulesMode options)
          then Some (Raises (Thrown ''Must pass options.nodeModulesMode''), fs)
          else (case bo_library options of
                  None \<Rightarrow> Some (Raises (Thrown ''Must pass options.library''), fs)
                | Some lib \<Rightarrow>
                    if \<not> truthy (bo_releaseStamp options)
                    then Some (Raises (Thrown (''Must pass options.releaseStamp or '' @ [CHR 0x27] @ ''none'' @ [CHR 0x27])), fs)
                    else (case prepare fuel t lib appDir options of
                            None \<Rightarrow> None
                          | Some (Inl (Exit m)) \<Rightarrow> Some (Exits m, fs)
                          | Some (Inl e) \<Rightarrow>
                              Some (Returns \<lparr>br_errors =
                                               Some [''Exception while bundling application:'' @
                                                     [CHR 0x0A] @ message e],
                                             br_dependencyInfo = None\<rparr>,
                                    rm_recursive outputPath fs)
                          | Some (Inr b) \<Rightarrow>
                              (let st = writeToDirectory t outputPath appDir
                                          (key_of (bo_nodeModulesMode options)) b fs
                               in case w_error st of
                                    None \<Rightarrow>
                                      Some (Returns \<lparr>br_errors = None,
                                                     br_dependencyInfo =
                                                       bn_dependencyInfo (w_bundle st)\<rparr>,
                                            w_fs st)
                                  | Some (Exit m) \<Rightarrow> Some (Exits m, w_fs st)
                                  | Some e \<Rightarrow>
                                      Some (Returns \<lparr>br_errors =
                                                       Some [''Exception while bundling application:'' @
                                                             [CHR 0x0A] @ message e],
                                                     br_dependencyInfo = None\<rparr>,
                                            rm_recursive outputPath (w_fs st))))))"

section \<open>Small libraries for the load order\<close>

definition mk_pkg :: "nat \<Rightarrow> string option \<Rightarrow> string list \<Rightarrow> string list \<Rightarrow> bpkg" where
  "mk_pkg i name uses unord =
     \<lparr>b_id = i, b_name = name,
      b_uses = (\<lambda>r w. if r = Use then uses else []),
      b_unordered = (\<lambda>n. n \<in> set unord),
      b_npmDependencies = False, b_npmDir = [],
      b_installNpm = None, b_ensureCompiled = None,
      b_registeredExtensions = (\<lambda>r w. []),
      b_resources = (\<lambda>r w. []), b_exports_use = (\<lambda>w. []),
      b_prelinkFiles = (\<lambda>r w. []), b_boundary = (\<lambda>r w. []),
      b_dependencyFileShas = []\<rparr>"

text \<open>The application uses \<open>a\<close>; \<open>a\<close> uses \<open>b\<close> and \<open>b\<close> uses \<open>a\<close>, neither edge unordered.\<close>

definition cycle_library :: "string \<Rightarrow> bpkg option" where
  "cycle_library = map_of [(''a'', mk_pkg 2 (Some ''a'') [''b''] []),
                           (''b'', mk_pkg 3 (Some ''b'') [''a''] [])]"

text \<open>The same, except that \<open>a\<close> marks its edge to \<open>b\<close> as unordered.\<close>

definition unordered_library :: "string \<Rightarrow> bpkg option" where
  "unordered_library = map_of [(''a'', mk_pkg 2 (Some ''a'') [''b''] [''b'']),
                               (''b'', mk_pkg 3 (Some ''b'') [''a''] [])]"

definition app_contents :: "role \<Rightarrow> arch \<Rightarrow> pkg_ref list" where
  "app_contents r w = (if r = Use then [ByObject (mk_pkg 1 None [''a''] [])] else [])"

section \<open>What it means for slices to be in load order\<close>

text \<open>
  Every edge of the slice that \<^verbatim>\<open>load\<close> does not skip leads to a package whose \<^verbatim>\<open>use\<close>
  slice for the same arch has its key in \<open>D\<close>.
\<close>

definition deps_in :: "(string \<Rightarrow> bpkg option) \<Rightarrow> bslice \<Rightarrow> slice_key set \<Rightarrow> bool" where
  "deps_in library s D =
     (\<forall>n \<in> set (b_uses (sl_pkg s) (sl_role s) (sl_where s)).
        \<not> skipped s n \<longrightarrow> (\<exists>p. library n = Some p \<and> (Use, sl_where s, b_id p) \<in> D))"

fun ordered_from :: "(string \<Rightarrow> bpkg option) \<Rightarrow> slice_key set \<Rightarrow> bslice list \<Rightarrow> bool" where
  "ordered_from library D [] = True"
| "ordered_from library D (s # ss) = (deps_in library s D \<and> ordered_from library (insert (slice_id s) D) ss)"

text \<open>
  The load order of the description: whenever the slice at position \<open>i\<close> has an edge,
  not skipped, to a package, the \<^verbatim>\<open>use\<close> slice of that package for the same arch stands at
  a position \<open>j\<close> before \<open>i\<close>.
\<close>

definition in_load_order :: "(string \<Rightarrow> bpkg option) \<Rightarrow> bslice list \<Rightarrow> bool" where
  "in_load_order library ss =
     (\<forall>i < length ss. \<forall>n \<in> set (b_uses (sl_pkg (ss ! i)) (sl_role (ss ! i)) (sl_where (ss ! i))).
        \<not> skipped (ss ! i) n \<longrightarrow>
        (\<exists>p j. library n = Some p \<and> j < i \<and> slice_id (ss ! j) = (Use, sl_where (ss ! i), b_id p)))"

definition index_wf :: "(slice_key \<Rightarrow> bslice option) \<Rightarrow> bool" where
  "index_wf index = (\<forall>k s. index k = Some s \<longrightarrow> slice_id s = k)"

definition load_inv :: "(string \<Rightarrow> bpkg option) \<Rightarrow> load_state \<Rightarrow> bool" where
  "load_inv library st =
     (done_ids st = slice_id ` set (slices st) \<and> ordered_from library {} (slices st))"

text \<open>
  A slice is blocked when one of its edges that \<^verbatim>\<open>load\<close> follows leads to a slice that is
  on the stack.
\<close>

definition blocked :: "(string \<Rightarrow> bpkg option) \<Rightarrow> (slice_key \<Rightarrow> bslice option) \<Rightarrow> bslice
    \<Rightarrow> slice_key set \<Rightarrow> bool" where
  "blocked library index s S =
     (\<exists>name \<in> set (b_uses (sl_pkg s) (sl_role s) (sl_where s)).
        \<not> skipped s name \<and>
        (\<exists>p us. library name = Some p \<and> index (Use, sl_where s, b_id p) = Some us \<and> slice_id us \<in> S))"

definition add_inv :: "add_state \<Rightarrow> bool" where
  "add_inv st =
     (index_wf (sliceIndex st) \<and>
      (\<forall>s \<in> set (slicesUnordered st). sliceIndex st (slice_id s) = Some s))"

definition remaining_wf :: "(slice_key \<Rightarrow> bslice option) \<Rightarrow> load_state \<Rightarrow> bool" where
  "remaining_wf index st = (\<forall>ks \<in> set (remaining st). index (slice_id (snd ks)) = Some (snd ks))"

section \<open>Stand-ins for the tools of the bundler\<close>

text \<open>
  A digest that only tags its input, minifiers and a linker that pass their input
  through, a template engine that answers with the template, and fixed directories.
\<close>

definition example_tools :: tools where
  "example_tools =
     \<lparr>t_sha1 = (\<lambda>contents. ''sha1-of-'' @ contents),
      t_uglify = Some,
      t_cleanCSS = Some,
      t_link = (\<lambda>args. Inr (case la_prelinkFiles args of None \<Rightarrow> [] | Some fs \<Rightarrow> fs)),
      t_render = (\<lambda>template scripts head_extra body_extra stylesheets. template),
      t_json = (\<lambda>load manifest release. ''{}''),
      t_resolve = (\<lambda>p. p),
      t_toolsDir = ''/meteor/tools'',
      t_devBundle = ''/meteor/dev_bundle'',
      t_ignored = (\<lambda>name. False),
      t_ignoreFiles = [],
      t_readme = ''This is a Meteor application bundle.''\<rparr>"

text \<open>A bundle that stages two client scripts, \<open>A\<close> then \<open>B\<close>.\<close>

definition two_scripts :: bundle_t where
  "two_scripts =
     (new_Bundle None)
       \<lparr>bn_js := (\<lambda>w. if w = Client then [''/a.js'', ''/b.js''] else []),
        bn_client := [(''/a.js'', ''A''), (''/b.js'', ''B'')]\<rparr>"

text \<open>What \<^verbatim>\<open>minify\<close> makes of it.\<close>

definition two_minified :: bundle_t where
  "two_minified =
     (new_Bundle None)
       \<lparr>bn_clientCacheable :=
          [(''/sha1-of-A'' @ [CHR 0x0A, CHR '';'', CHR 0x0A] @ ''B.js'',
            ''A'' @ [CHR 0x0A, CHR '';'', CHR 0x0A] @ ''B''),
           (''/sha1-of-.css'', [])],
        bn_manifest :=
          [\<lparr>m_path = ''static_cacheable/sha1-of-A'' @ [CHR 0x0A, CHR '';'', CHR 0x0A] @ ''B.js'',
            m_where = ''client'', m_type = Some ''js'', m_cacheable = Some True,
            m_url = Some (''/sha1-of-A'' @ [CHR 0x0A, CHR '';'', CHR 0x0A] @ ''B.js''),
            m_size = Some 5,
            m_hash = ''sha1-of-A'' @ [CHR 0x0A, CHR '';'', CHR 0x0A] @ ''B''\<rparr>,
           \<lparr>m_path = ''static_cacheable/sha1-of-.css'', m_where = ''client'', m_type = Some ''css'',
            m_cacheable = Some True, m_url = Some ''/sha1-of-.css'', m_size = Some 0,
            m_hash = ''sha1-of-''\<rparr>]\<rparr>"

section \<open>A small application to bundle\<close>

text \<open>
  An application without packages whose one source file, \<^verbatim>\<open>main.txt\<close>, has no handler and
  is served as a static client resource.  Its package object has the properties that
  \<^verbatim>\<open>bundler.js\<close> reads.
\<close>

definition app_package :: bpkg where
  "app_package =
     (mk_pkg 1 None [] [])
       \<lparr>b_resources := (\<lambda>r w. if r = Use \<and> w = Client
                               then [\<lparr>r_type = ''static'', r_data = ''hello'',
                                      r_servePath = Some ''/main.txt''\<rparr>]
                               else [])\<rparr>"

definition app_library :: library where
  "app_library = \<lparr>lib_get = (\<lambda>name. None), lib_getForApp = (\<lambda>dir. Inr app_package)\<rparr>"

definition skip_options :: bundle_options where
  "skip_options =
     \<lparr>bo_nodeModulesMode = Some ''skip'', bo_library = Some app_library,
      bo_releaseStamp = Some ''none'', bo_minify = False, bo_testPackages = None\<rparr>"

text \<open>
  A file system with the application, the tools, and an output directory from an earlier
  run.  In the first the development bundle lacks its version file.
\<close>

definition broken_fs :: fs where
  "broken_fs =
     [(''/app/.meteor/packages'', File ''''),
      (''/app/main.txt'', File ''hello''),
      (''/meteor/tools/server'', Dir),
      (''/meteor/tools/server/server.js'', File ''run''),
      (''/meteor/tools/app.html.in'', File ''html''),
      (''/out/bundle'', Dir),
      (''/out/bundle/main.js'', File ''old'')]"

definition good_fs :: fs where
  "good_fs = broken_fs @ [(''/meteor/dev_bundle/.bundle_version.txt'', File ''0.1'')]"

text \<open>The application that uses \<open>a\<close>, with the library in which \<open>a\<close> and \<open>b\<close> use each other.\<close>

definition cycle_options :: bundle_options where
  "cycle_options =
     \<lparr>bo_nodeModulesMode = Some ''skip'',
      bo_library = Some \<lparr>lib_get = cycle_library,
                         lib_getForApp = (\<lambda>dir. Inr (mk_pkg 1 None [''a''] []))\<rparr>,
      bo_releaseStamp = Some ''none'', bo_minify = False, bo_testPackages = None\<rparr>"

text \<open>What the phases before \<^verbatim>\<open>writeToDirectory\<close> stage for this application.\<close>

definition staged :: bundle_t where
  "staged =
     (new_Bundle (Some ''none''))
       \<lparr>bn_slices := [\<lparr>sl_pkg = app_package, sl_role = Use, sl_where = Client\<rparr>,
                      \<lparr>sl_pkg = app_package, sl_role = Use, sl_where = Server\<rparr>],
        bn_static := (\<lambda>w. if w = Client then [''/main.txt''] else []),
        bn_client := [(''/main.txt'', ''hello'')]\<rparr>"



section \<open>Properties of the on\_use capability\<close>

lemma each_e_no_archs: "each_e (\<lambda>x. each_e (g x) []) xs s = Inr s"
  by (induction xs) simp_all

lemma each_e_total:
  assumes "\<And>x s. f x s = Inr (h x s)"
  shows "each_e f xs s = Inr (fold h xs s)"
  by (induction xs arbitrary: s) (simp_all add: assms)

lemma fold_append_edges:
  "fold (\<lambda>n table a. table a @ [e n]) ns table = (\<lambda>a. table a @ map e ns)"
  by (induction ns arbitrary: table) simp_all

lemma use_push_both:
  assumes "\<not> role_override options"
  shows "each_e (use_push options n) [''client'', ''server''] table =
      Inr (\<lambda>a. table a @ [\<lparr>spec = n, unordered = opt_unordered options\<rparr>])"
  using assms arch.exhaust by (auto simp: use_push_def push_arch_def fun_eq_iff)

lemma use_both_archs:
  assumes "\<not> role_override options"
  shows "each_e (\<lambda>name. each_e (use_push options name) [''client'', ''server'']) ns table =
         Inr (\<lambda>a. table a @ map (\<lambda>n. \<lparr>spec = n, unordered = opt_unordered options\<rparr>) ns)"
  using each_e_total [of "\<lambda>name. each_e (use_push options name) [''client'', ''server'']"
      "\<lambda>n table a. table a @ [\<lparr>spec = n, unordered = opt_unordered options\<rparr>]" ns table,
      OF use_push_both [OF assms]]
  by (simp only: fold_append_edges)

text \<open>
  C10.  With \<^verbatim>\<open>where\<close> omitted, \<^verbatim>\<open>add_files\<close> and \<^verbatim>\<open>exportSymbol\<close> add their paths
  or symbols to no arch and leave the tables as they were, while \<^verbatim>\<open>use\<close> behaves as
  with \<^verbatim>\<open>["client", "server"]\<close>: unless a role override makes it throw, every named
  package becomes an edge of the client list and of the server list.
\<close>

theorem where_omitted:
  "add_files paths Undefined d = Inr d
   \<and> exportSymbol symbols Undefined d = Inr d
   \<and> use names Undefined options d = use names (Arr [''client'', ''server'']) options d
   \<and> (\<not> role_override options \<longrightarrow>
        use names Undefined options d =
          Inr (d\<lparr>decl_uses := \<lambda>a. decl_uses d a @
                 map (\<lambda>n. \<lparr>spec = n, unordered = opt_unordered options\<rparr>) (as_array names [])\<rparr>))"
  by (simp add: add_files_def exportSymbol_def use_def each_e_no_archs use_both_archs)

theorem where_omitted_witness:
  "\<not> role_override \<lparr>opt_role = None, opt_unordered = True\<rparr>
   \<and> add_files (Str ''a.js'') Undefined
        \<lparr>decl_uses = \<lambda>a. [], decl_sources = \<lambda>a. [], decl_forceExport = \<lambda>a. []\<rparr>
      = Inr \<lparr>decl_uses = \<lambda>a. [], decl_sources = \<lambda>a. [], decl_forceExport = \<lambda>a. []\<rparr>
   \<and> use (Str ''underscore'') Undefined \<lparr>opt_role = None, opt_unordered = True\<rparr>
        \<lparr>decl_uses = \<lambda>a. [], decl_sources = \<lambda>a. [], decl_forceExport = \<lambda>a. []\<rparr>
      = Inr \<lparr>decl_uses = \<lambda>a. [\<lparr>spec = ''underscore'', unordered = True\<rparr>],
             decl_sources = \<lambda>a. [], decl_forceExport = \<lambda>a. []\<rparr>"
  using where_omitted [where paths = "Str ''a.js''" and names = "Str ''underscore''"
      and d = "\<lparr>decl_uses = \<lambda>a. [], decl_sources = \<lambda>a. [], decl_forceExport = \<lambda>a. []\<rparr>"
      and options = "\<lparr>opt_role = None, opt_unordered = True\<rparr>"]
  by (simp add: role_override_def use_def use_push_def push_arch_def fun_eq_iff)

section \<open>The html-first order of scanned sources\<close>

lemma hoist_step_html:
  "is_html x \<Longrightarrow> hoist_step x (hs, fl) = (hs @ [x], filter (\<lambda>f. f \<noteq> x) fl)"
  by (simp add: hoist_step_def)

lemma hoist_step_other: "\<not> is_html x \<Longrightarrow> hoist_step x st = st"
  by (simp add: hoist_step_def)

lemma fold_hoist_step:
  "fold hoist_step xs (hs, fl) =
     (hs @ filter is_html xs, filter (\<lambda>f. f \<notin> set (filter is_html xs)) fl)"
proof (induction xs arbitrary: hs fl)
  case Nil
  then show ?case by simp
next
  case (Cons x xs)
  show ?case
  proof (cases "is_html x")
    case True
    have "filter (\<lambda>f. f \<notin> set (filter is_html xs)) (filter (\<lambda>f. f \<noteq> x) fl) =
          filter (\<lambda>f. f \<notin> set (filter is_html (x # xs))) fl"
      using True by (auto intro: filter_cong)
    then show ?thesis using True by (simp add: hoist_step_html Cons.IH)
  next
    case False
    then show ?thesis by (simp add: hoist_step_other Cons.IH)
  qed
qed

lemma hoist_html_partition:
  "hoist_html xs = filter is_html xs @ filter (\<lambda>f. \<not> is_html f) xs"
proof -
  have "filter (\<lambda>f. f \<notin> set (filter is_html xs)) xs = filter (\<lambda>f. \<not> is_html f) xs"
    by (rule filter_cong) auto
  then show ?thesis by (simp add: hoist_html_def fold_hoist_step)
qed

lemma relativize_Inr:
  "relativize relative pfx xs = Inr out \<Longrightarrow> out = map (drop (length pfx)) xs"
  by (induction xs arbitrary: out) (auto split: if_splits sum.splits)

section \<open>The compilation latch\<close>

lemma ensureCompiled_latched: "s_isCompiled self \<Longrightarrow> ensureCompiled env self = (None, self)"
  by (simp add: ensureCompiled_def)

lemma ensureCompiled_iterate:
  "s_isCompiled self \<Longrightarrow> ((\<lambda>s. snd (ensureCompiled env s)) ^^ n) self = self"
  by (induction n) (simp_all add: ensureCompiled_latched)

lemma ensureCompiled_success:
  assumes "ensureCompiled env self = (None, self')" "\<not> s_isCompiled self"
  shows "\<exists>st results.
           each_s (compile_source env self) (s_sources self) ([], [], s_dependencyFiles self) = (None, st)
           \<and> e_prelink env (prelink_input self (fst (snd st))) = Inr results
           \<and> self' = self\<lparr>s_dependencyFiles := snd (snd st),
                                 s_prelinkFiles := Some (pr_files results),
                                 s_boundary := Some (pr_boundary results),
                                 s_exports := Some (pr_exports results),
                                 s_resources := Some (fst st),
                                 s_isCompiled := True\<rparr>"
  using assms
  by (auto simp: ensureCompiled_def split: prod.splits option.splits sum.splits)

lemma ensureCompiled_compiled:
  assumes "ensureCompiled env self = (None, self')"
  shows "s_isCompiled self'"
proof (cases "s_isCompiled self")
  case True
  then show ?thesis using assms by (simp add: ensureCompiled_def)
next
  case False
  from ensureCompiled_success [OF assms False] show ?thesis by auto
qed

text \<open>
  C3.  A call of \<^verbatim>\<open>_ensureCompiled\<close> that returns normally leaves the slice marked as
  compiled.  If the slice was not compiled before, the call has run the sources through
  their handlers and the prelink phase and has stored the prelink files, the boundary,
  the exports and the resources.  From then on every call, whatever the file system and
  the library have become, returns normally and changes nothing, so the fields are the
  same after any number of calls.
\<close>

theorem compile_latch:
  assumes "ensureCompiled env self = (None, self')"
  shows "s_isCompiled self'
     \<and> (\<not> s_isCompiled self \<longrightarrow>
          (\<exists>st results.
             each_s (compile_source env self) (s_sources self) ([], [], s_dependencyFiles self) = (None, st)
             \<and> e_prelink env (prelink_input self (fst (snd st))) = Inr results
             \<and> s_exports self' = Some (pr_exports results)
             \<and> s_boundary self' = Some (pr_boundary results)
             \<and> s_prelinkFiles self' = Some (pr_files results)
             \<and> s_resources self' = Some (fst st)))
     \<and> (\<forall>env' n. ensureCompiled env' self' = (None, self')
             \<and> ((\<lambda>s. snd (ensureCompiled env' s)) ^^ n) self' = self')"
proof (intro conjI impI allI)
  show c: "s_isCompiled self'"
    by (rule ensureCompiled_compiled [OF assms])
  show "ensureCompiled env' self' = (None, self')" for env'
    by (rule ensureCompiled_latched [OF c])
  show "((\<lambda>s. snd (ensureCompiled env' s)) ^^ n) self' = self'" for env' n
    by (rule ensureCompiled_iterate [OF c])
next
  assume n: "\<not> s_isCompiled self"
  from ensureCompiled_success [OF assms n] obtain st where
    "\<exists>results. each_s (compile_source env self) (s_sources self) ([], [], s_dependencyFiles self) = (None, st)
        \<and> e_prelink env (prelink_input self (fst (snd st))) = Inr results
        \<and> self' = self\<lparr>s_dependencyFiles := snd (snd st),
                                 s_prelinkFiles := Some (pr_files results),
                                 s_boundary := Some (pr_boundary results),
                                 s_exports := Some (pr_exports results),
                                 s_resources := Some (fst st),
                                 s_isCompiled := True\<rparr>" ..
  then obtain results where
    "each_s (compile_source env self) (s_sources self) ([], [], s_dependencyFiles self) = (None, st)
        \<and> e_prelink env (prelink_input self (fst (snd st))) = Inr results
        \<and> self' = self\<lparr>s_dependencyFiles := snd (snd st),
                                 s_prelinkFiles := Some (pr_files results),
                                 s_boundary := Some (pr_boundary results),
                                 s_exports := Some (pr_exports results),
                                 s_resources := Some (fst st),
                                 s_isCompiled := True\<rparr>" ..
  then have "each_s (compile_source env self) (s_sources self) ([], [], s_dependencyFiles self) = (None, st)
             \<and> e_prelink env (prelink_input self (fst (snd st))) = Inr results
             \<and> s_exports self' = Some (pr_exports results)
             \<and> s_boundary self' = Some (pr_boundary results)
             \<and> s_prelinkFiles self' = Some (pr_files results)
             \<and> s_resources self' = Some (fst st)"
    by simp
  then show "\<exists>st results.
             each_s (compile_source env self) (s_sources self) ([], [], s_dependencyFiles self) = (None, st)
             \<and> e_prelink env (prelink_input self (fst (snd st))) = Inr results
             \<and> s_exports self' = Some (pr_exports results)
             \<and> s_boundary self' = Some (pr_boundary results)
             \<and> s_prelinkFiles self' = Some (pr_files results)
             \<and> s_resources self' = Some (fst st)"
    by (intro exI)
qed
section \<open>Sources are compiled in the order stored\<close>

lemma compile_static_sources:
  assumes "allHandlers env self = Inr []"
    and "each_s (compile_source env self) srcs (rs, js, fs) = (None, st)"
  shows "fst st = rs @ map (\<lambda>relPath.
            \<lparr>r_type = ''static'',
              r_data = (case e_readFile env (e_resolve env (p_sourceRoot (s_pkg self)) relPath) of
                          None \<Rightarrow> [] | Some contents \<Rightarrow> contents),
              r_servePath = Some (e_join env (p_serveRoot (s_pkg self)) relPath)\<rparr>) srcs"
  using assms(2)
proof (induction srcs arbitrary: rs js fs)
  case Nil
  then show ?case by auto
next
  case (Cons relPath srcs)
  obtain contents where rd: "e_readFile env (e_resolve env (p_sourceRoot (s_pkg self)) relPath) = Some contents"
    using Cons.prems assms(1)
    by (auto simp: compile_source_def getSourceHandler_def read_or_throw_def Let_def
        split: option.splits)
  have step: "compile_source env self relPath (rs, js, fs) =
      (None, rs @ [\<lparr>r_type = ''static'', r_data = contents,
                     r_servePath = Some (e_join env (p_serveRoot (s_pkg self)) relPath)\<rparr>], js,
       AList.update (e_resolve env (p_sourceRoot (s_pkg self)) relPath) (e_sha1 env contents) fs)"
    using assms(1) rd
    by (simp add: compile_source_def getSourceHandler_def read_or_throw_def Let_def)
  from Cons.prems have "each_s (compile_source env self) srcs
       (rs @ [\<lparr>r_type = ''static'', r_data = contents,
                     r_servePath = Some (e_join env (p_serveRoot (s_pkg self)) relPath)\<rparr>], js,
       AList.update (e_resolve env (p_sourceRoot (s_pkg self)) relPath) (e_sha1 env contents) fs) = (None, st)"
    by (simp add: step)
  from Cons.IH [OF this] show ?case by (simp add: rd)
qed

lemma example_handlers: "allHandlers example_env example_slice = Inr []"
  by (simp add: allHandlers_def example_slice_def extend_obj_def)

lemma example_is_html:
  "\<not> is_html ''/pkg/z.js''" "is_html ''/pkg/a.html''" "\<not> is_html ''/pkg/m.js''" "is_html ''/pkg/b.html''"
  by (simp_all add: is_html_def extname_def basename_def)

lemma example_scan:
  "scanForSources (\<lambda>pfx file. drop (length pfx) file) (\<lambda>xs. xs)
       [''/pkg/z.js'', ''/pkg/a.html'', ''/pkg/m.js'', ''/pkg/b.html''] ''/pkg'' [] =
       Inr [''a.html'', ''b.html'', ''z.js'', ''m.js'']"
  by (simp add: scanForSources_def hoist_html_partition example_is_html root_prefix_def)

lemma example_static: "compile_source example_env example_slice relPath (rs, js, fs) = 
  (case map_of [(''/pkg/z.js'', ''zz''), (''/pkg/a.html'', ''aa''),
                          (''/pkg/m.js'', ''mm''), (''/pkg/b.html'', ''bb'')] (simple_join ''/pkg'' relPath) of None \<Rightarrow> (Some (Thrown (''ENOENT, no such file or directory '' @ simple_join ''/pkg'' relPath)), rs, js, fs)
    | Some contents \<Rightarrow> (None, rs @ [\<lparr>r_type = ''static'', r_data = contents,
                     r_servePath = Some (simple_join ''/packages/assets'' relPath)\<rparr>], js,
       AList.update (simple_join ''/pkg'' relPath) (''sha1-of-'' @ contents) fs))"
  using example_handlers
  by (simp add: compile_source_def getSourceHandler_def read_or_throw_def Let_def example_env_def example_slice_def split: option.splits)

lemma example_loop:
  "each_s (compile_source example_env example_slice) [''z.js'', ''a.html'', ''m.js'', ''b.html''] ([], [], []) =
    (None,
     [\<lparr>r_type = ''static'', r_data = ''zz'', r_servePath = Some ''/packages/assets/z.js''\<rparr>,
      \<lparr>r_type = ''static'', r_data = ''aa'', r_servePath = Some ''/packages/assets/a.html''\<rparr>,
      \<lparr>r_type = ''static'', r_data = ''mm'', r_servePath = Some ''/packages/assets/m.js''\<rparr>,
      \<lparr>r_type = ''static'', r_data = ''bb'', r_servePath = Some ''/packages/assets/b.html''\<rparr>],
     [],
     [(''/pkg/z.js'', ''sha1-of-zz''), (''/pkg/a.html'', ''sha1-of-aa''),
      (''/pkg/m.js'', ''sha1-of-mm''), (''/pkg/b.html'', ''sha1-of-bb'')])"
  by (simp add: example_static simple_join_def)

lemma example_compile:
  "fst (ensureCompiled example_env example_slice) = None \<and>
   map r_servePath (case s_resources (snd (ensureCompiled example_env example_slice)) of None \<Rightarrow> [] | Some rs \<Rightarrow> rs) =
     [Some ''/packages/assets/z.js'', Some ''/packages/assets/a.html'',
      Some ''/packages/assets/m.js'', Some ''/packages/assets/b.html'']"
proof -
  have f: "s_isCompiled example_slice = False"
    "s_sources example_slice = [''z.js'', ''a.html'', ''m.js'', ''b.html'']"
    "s_dependencyFiles example_slice = []"
    by (simp_all add: example_slice_def)
  have pl: "e_prelink example_env args = Inr \<lparr>pr_files = pa_inputFiles args, pr_boundary = ''__boundary__'',
                                 pr_exports = pa_forceExport args\<rparr>" for args
    by (simp add: example_env_def)
  show ?thesis
    by (simp only: ensureCompiled_def f example_loop if_False) (simp add: pl)
qed

lemma example_compile_full:
  "ensureCompiled example_env example_slice =
     (None, example_slice
        \<lparr>s_dependencyFiles :=
            [(''/pkg/z.js'', ''sha1-of-zz''), (''/pkg/a.html'', ''sha1-of-aa''),
             (''/pkg/m.js'', ''sha1-of-mm''), (''/pkg/b.html'', ''sha1-of-bb'')],
         s_prelinkFiles := Some [],
         s_boundary := Some ''__boundary__'',
         s_exports := Some [],
         s_resources := Some
           [\<lparr>r_type = ''static'', r_data = ''zz'', r_servePath = Some ''/packages/assets/z.js''\<rparr>,
            \<lparr>r_type = ''static'', r_data = ''aa'', r_servePath = Some ''/packages/assets/a.html''\<rparr>,
            \<lparr>r_type = ''static'', r_data = ''mm'', r_servePath = Some ''/packages/assets/m.js''\<rparr>,
            \<lparr>r_type = ''static'', r_data = ''bb'', r_servePath = Some ''/packages/assets/b.html''\<rparr>],
         s_isCompiled := True\<rparr>)"
proof -
  have f: "s_isCompiled example_slice = False"
    "s_sources example_slice = [''z.js'', ''a.html'', ''m.js'', ''b.html'']"
    "s_dependencyFiles example_slice = []"
    by (simp_all add: example_slice_def)
  have pl: "e_prelink example_env args = Inr \<lparr>pr_files = pa_inputFiles args, pr_boundary = ''__boundary__'',
                                 pr_exports = pa_forceExport args\<rparr>" for args
    by (simp add: example_env_def)
  have fe: "s_forceExport example_slice = []"
    by (simp add: example_slice_def)
  show ?thesis
    by (simp only: ensureCompiled_def f example_loop if_False) (simp add: pl prelink_input_def fe Let_def)
qed

text \<open>
  C9, as the code has it.  \<^verbatim>\<open>scanForSources\<close> returns the files that are listed and not
  ignored, in their sorted order except that every \<^verbatim>\<open>.html\<close> file stands before every
  other file, each group keeping its sorted order, and cut down to paths below the root.
  A slice does not reorder anything: it compiles \<^verbatim>\<open>self.sources\<close> in the order stored,
  so that where no handler is registered the static resources follow that order.
\<close>

theorem html_first_scan:
  "(scanForSources relative sort_files listed rootPath ignoreFiles = Inr out \<longrightarrow>
      out = map (drop (length (root_prefix rootPath)))
              (filter is_html
                 (sort_files (filter (\<lambda>file. \<not> list_ex (\<lambda>pattern. pattern file) ignoreFiles) listed)) @
               filter (\<lambda>f. \<not> is_html f)
                 (sort_files (filter (\<lambda>file. \<not> list_ex (\<lambda>pattern. pattern file) ignoreFiles) listed))))
   \<and> (\<not> s_isCompiled self \<and> allHandlers env self = Inr [] \<and>
        ensureCompiled env self = (None, self') \<longrightarrow>
        s_resources self' = Some (map (\<lambda>relPath.
            \<lparr>r_type = ''static'',
              r_data = (case e_readFile env (e_resolve env (p_sourceRoot (s_pkg self)) relPath) of
                          None \<Rightarrow> [] | Some contents \<Rightarrow> contents),
              r_servePath = Some (e_join env (p_serveRoot (s_pkg self)) relPath)\<rparr>) (s_sources self)))"
proof (intro conjI impI)
  assume "scanForSources relative sort_files listed rootPath ignoreFiles = Inr out"
  then show "out = map (drop (length (root_prefix rootPath)))
              (filter is_html
                 (sort_files (filter (\<lambda>file. \<not> list_ex (\<lambda>pattern. pattern file) ignoreFiles) listed)) @
               filter (\<lambda>f. \<not> is_html f)
                 (sort_files (filter (\<lambda>file. \<not> list_ex (\<lambda>pattern. pattern file) ignoreFiles) listed)))"
    by (auto simp: scanForSources_def Let_def hoist_html_partition dest: relativize_Inr)
next
  assume a: "\<not> s_isCompiled self \<and> allHandlers env self = Inr [] \<and>
        ensureCompiled env self = (None, self')"
  from a have a1: "ensureCompiled env self = (None, self')" and a2: "\<not> s_isCompiled self"
    by simp_all
  from ensureCompiled_success [OF a1 a2] obtain st where
    "\<exists>results. each_s (compile_source env self) (s_sources self) ([], [], s_dependencyFiles self) = (None, st)
        \<and> e_prelink env (prelink_input self (fst (snd st))) = Inr results
        \<and> self' = self\<lparr>s_dependencyFiles := snd (snd st),
                                 s_prelinkFiles := Some (pr_files results),
                                 s_boundary := Some (pr_boundary results),
                                 s_exports := Some (pr_exports results),
                                 s_resources := Some (fst st),
                                 s_isCompiled := True\<rparr>" ..
  then obtain results where
    all: "each_s (compile_source env self) (s_sources self) ([], [], s_dependencyFiles self) = (None, st)
        \<and> e_prelink env (prelink_input self (fst (snd st))) = Inr results
        \<and> self' = self\<lparr>s_dependencyFiles := snd (snd st),
                                 s_prelinkFiles := Some (pr_files results),
                                 s_boundary := Some (pr_boundary results),
                                 s_exports := Some (pr_exports results),
                                 s_resources := Some (fst st),
                                 s_isCompiled := True\<rparr>" ..
  then have st: "each_s (compile_source env self) (s_sources self) ([], [], s_dependencyFiles self) = (None, st)"
    and self': "s_resources self' = Some (fst st)"
    by simp_all
  obtain rs js fs where "st = (rs, js, fs)" by (cases st) auto
  with compile_static_sources [of env self "s_sources self" "[]" "[]" "s_dependencyFiles self" st] a st
  show "s_resources self' = Some (map (\<lambda>relPath.
            \<lparr>r_type = ''static'',
              r_data = (case e_readFile env (e_resolve env (p_sourceRoot (s_pkg self)) relPath) of
                          None \<Rightarrow> [] | Some contents \<Rightarrow> contents),
              r_servePath = Some (e_join env (p_serveRoot (s_pkg self)) relPath)\<rparr>) (s_sources self))"
    by (simp add: self')
qed

theorem html_first_scan_witness:
  "scanForSources (\<lambda>pfx file. drop (length pfx) file) (\<lambda>xs. xs)
       [''/pkg/z.js'', ''/pkg/a.html'', ''/pkg/m.js'', ''/pkg/b.html''] ''/pkg'' [] =
     Inr [''a.html'', ''b.html'', ''z.js'', ''m.js'']
   \<and> \<not> s_isCompiled example_slice
   \<and> allHandlers example_env example_slice = Inr []
   \<and> fst (ensureCompiled example_env example_slice) = None
   \<and> map r_servePath
         (case s_resources (snd (ensureCompiled example_env example_slice)) of
            None \<Rightarrow> [] | Some rs \<Rightarrow> rs) =
       map (\<lambda>relPath. Some (e_join example_env ''/packages/assets'' relPath))
         [''z.js'', ''a.html'', ''m.js'', ''b.html'']"
proof -
  have c: "ensureCompiled example_env example_slice =
      (None, snd (ensureCompiled example_env example_slice))"
    by (simp add: example_compile_full)
  have n: "\<not> s_isCompiled example_slice"
    by (simp add: example_slice_def)
  from html_first_scan [where self = example_slice and env = example_env
      and self' = "snd (ensureCompiled example_env example_slice)"] n example_handlers c
  have "s_resources (snd (ensureCompiled example_env example_slice)) = Some (map (\<lambda>relPath.
            \<lparr>r_type = ''static'',
              r_data = (case e_readFile example_env
                               (e_resolve example_env (p_sourceRoot (s_pkg example_slice)) relPath) of
                          None \<Rightarrow> [] | Some contents \<Rightarrow> contents),
              r_servePath = Some (e_join example_env (p_serveRoot (s_pkg example_slice)) relPath)\<rparr>)
          (s_sources example_slice))"
    by blast
  then have "map r_servePath
         (case s_resources (snd (ensureCompiled example_env example_slice)) of
            None \<Rightarrow> [] | Some rs \<Rightarrow> rs) =
       map (\<lambda>relPath. Some (e_join example_env ''/packages/assets'' relPath))
         [''z.js'', ''a.html'', ''m.js'', ''b.html'']"
    by (simp add: example_slice_def)
  moreover have "fst (ensureCompiled example_env example_slice) = None"
    by (simp add: example_compile_full)
  ultimately show ?thesis
    using example_scan n example_handlers by simp
qed

text \<open>
  The slice whose sources are stored as z.js, a.html, m.js, b.html emits its resources
  in that order, not with the two html files first.
\<close>

theorem slice_order_counterexample:
  "s_sources example_slice = [''z.js'', ''a.html'', ''m.js'', ''b.html'']
   \<and> fst (ensureCompiled example_env example_slice) = None
   \<and> map r_servePath
         (case s_resources (snd (ensureCompiled example_env example_slice)) of
            None \<Rightarrow> [] | Some rs \<Rightarrow> rs) =
       [Some ''/packages/assets/z.js'', Some ''/packages/assets/a.html'',
        Some ''/packages/assets/m.js'', Some ''/packages/assets/b.html'']
   \<and> map r_servePath
         (case s_resources (snd (ensureCompiled example_env example_slice)) of
            None \<Rightarrow> [] | Some rs \<Rightarrow> rs) \<noteq>
       [Some ''/packages/assets/a.html'', Some ''/packages/assets/b.html'',
        Some ''/packages/assets/z.js'', Some ''/packages/assets/m.js'']"
  by (simp add: example_compile_full) (simp add: example_slice_def)
theorem compile_latch_witness:
  "ensureCompiled example_env example_slice =
     (None, snd (ensureCompiled example_env example_slice))
   \<and> \<not> s_isCompiled example_slice
   \<and> s_isCompiled (snd (ensureCompiled example_env example_slice))
   \<and> s_exports (snd (ensureCompiled example_env example_slice)) = Some []
   \<and> s_boundary (snd (ensureCompiled example_env example_slice)) = Some ''__boundary__''
   \<and> ensureCompiled example_env (snd (ensureCompiled example_env example_slice)) =
       (None, snd (ensureCompiled example_env example_slice))"
proof -
  have c: "ensureCompiled example_env example_slice =
      (None, snd (ensureCompiled example_env example_slice))"
    by (simp add: example_compile_full)
  have n: "\<not> s_isCompiled example_slice"
    by (simp add: example_slice_def)
  from compile_latch [OF c]
  have "s_isCompiled (snd (ensureCompiled example_env example_slice))"
    and "ensureCompiled example_env (snd (ensureCompiled example_env example_slice)) =
       (None, snd (ensureCompiled example_env example_slice))"
    by blast+
  then show ?thesis
    using c n by (simp add: example_compile_full)
qed

section \<open>The import map\<close>

lemma map_of_fold_update:
  "map_of (fold (\<lambda>kv. AList.update (fst kv) (snd kv)) kvs acc) = map_of acc ++ map_of (rev kvs)"
proof (induction kvs arbitrary: acc)
  case Nil
  then show ?case by simp
next
  case (Cons kv kvs)
  have "map_of (AList.update (fst kv) (snd kv) acc) ++ map_of (rev kvs) =
        map_of acc ++ (map_of (rev kvs @ [kv]))"
    by (cases kv) (simp add: update_conv' map_add_upd_left fun_eq_iff map_add_def split: option.splits)
  then show ?case by (simp add: Cons.IH)
qed

lemma map_of_record_exports:
  "map_of (fold (\<lambda>symbol. AList.update symbol n) syms acc) =
   map_of acc ++ map_of (rev (map (\<lambda>symbol. (symbol, n)) syms))"
  using map_of_fold_update [of "map (\<lambda>symbol. (symbol, n)) syms" acc]
  by (simp add: fold_map comp_def rev_map)

lemma frozen_refl: "frozen sto sto"
  by (simp add: frozen_def)

lemma frozen_trans: "frozen a b \<Longrightarrow> frozen b c \<Longrightarrow> frozen a c"
  by (auto simp: frozen_def)

lemma frozen_exports:
  "frozen sto sto' \<Longrightarrow> compiled_in sto i \<Longrightarrow> slice_exports sto' i = slice_exports sto i"
  by (auto simp: frozen_def compiled_in_def slice_exports_def split: option.splits)

lemma frozen_compiled: "frozen sto sto' \<Longrightarrow> compiled_in sto i \<Longrightarrow> compiled_in sto' i"
  by (auto simp: frozen_def compiled_in_def split: option.splits)

lemma ensureCompiled_marks:
  "ensureCompiled env self = (None, self') \<Longrightarrow> s_isCompiled self'"
  by (auto simp: ensureCompiled_def split: if_splits prod.splits option.splits sum.splits)

lemma import_slice_step:
  assumes "import_slice env i (imps, sto) = (None, imps', sto')"
  shows "frozen sto sto' \<and> compiled_in sto' i
         \<and> map_of imps' = map_of imps ++ map_of (rev (slice_exports sto' i))"
proof -
  from assms obtain sl where sl: "sto i = Some sl"
    by (auto simp: import_slice_def split: option.splits)
  from assms sl obtain sl' where c: "ensureCompiled env sl = (None, sl')"
    and sto': "sto' = sto(i \<mapsto> sl')"
    and imp: "imps' = fold (\<lambda>symbol. AList.update symbol (p_name (s_pkg sl')))
                  (case s_exports sl' of None \<Rightarrow> [] | Some syms \<Rightarrow> syms) imps"
    by (auto simp: import_slice_def split: option.splits prod.splits)
  have "frozen sto sto'"
    unfolding frozen_def sto'
  proof (intro allI impI)
    fix j s assume a: "sto j = Some s \<and> s_isCompiled s"
    show "(sto(i \<mapsto> sl')) j = Some s"
    proof (cases "j = i")
      case True
      with a sl have "s = sl" "s_isCompiled sl" by simp_all
      with c ensureCompiled_latched [of sl env] have "sl' = sl" by simp
      with True \<open>s = sl\<close> show ?thesis by simp
    next
      case False
      with a show ?thesis by simp
    qed
  qed
  moreover have "compiled_in sto' i"
    using ensureCompiled_marks [OF c] by (simp add: compiled_in_def sto')
  moreover have "map_of imps' = map_of imps ++ map_of (rev (slice_exports sto' i))"
    by (simp add: imp sto' slice_exports_def map_of_record_exports)
  ultimately show ?thesis by simp
qed

lemma import_slices:
  assumes "each_s (import_slice env) others (imps, sto) = (None, imps', sto')"
  shows "frozen sto sto' \<and> (\<forall>i \<in> set others. compiled_in sto' i)
         \<and> map_of imps' = map_of imps ++ map_of (rev (concat (map (slice_exports sto') others)))"
  using assms
proof (induction others arbitrary: imps sto)
  case Nil
  then show ?case by (simp add: frozen_refl)
next
  case (Cons i others)
  from Cons.prems obtain imps1 sto1 where
    s1: "import_slice env i (imps, sto) = (None, imps1, sto1)"
    and rest: "each_s (import_slice env) others (imps1, sto1) = (None, imps', sto')"
    by (auto split: prod.splits option.splits)
  from import_slice_step [OF s1] have f1: "frozen sto sto1" and c1: "compiled_in sto1 i"
    and m1: "map_of imps1 = map_of imps ++ map_of (rev (slice_exports sto1 i))"
    by simp_all
  from Cons.IH [OF rest] have f2: "frozen sto1 sto'" and c2: "\<forall>i \<in> set others. compiled_in sto' i"
    and m2: "map_of imps' = map_of imps1 ++ map_of (rev (concat (map (slice_exports sto') others)))"
    by simp_all
  have e: "slice_exports sto' i = slice_exports sto1 i"
    by (rule frozen_exports [OF f2 c1])
  show ?case
    using frozen_trans [OF f1 f2] frozen_compiled [OF f2 c1] c2
    by (simp add: m2 m1 e)
qed

lemma import_use_step:
  assumes "import_use env a u (imps, sto) = (None, imps', sto')"
  shows "frozen sto sto'
         \<and> (\<forall>sto''. frozen sto' sto'' \<longrightarrow> use_exports env a sto'' u = use_exports env a sto' u)
         \<and> map_of imps' = map_of imps ++ map_of (rev (use_exports env a sto' u))"
proof (cases "unordered u")
  case True
  with assms show ?thesis by (simp add: import_use_def use_exports_def frozen_refl)
next
  case False
  with assms obtain others where g: "e_getSlices env (spec u) a = Inr others"
    and l: "each_s (import_slice env) others (imps, sto) = (None, imps', sto')"
    by (auto simp: import_use_def split: sum.splits)
  from import_slices [OF l] have f: "frozen sto sto'" and c: "\<forall>i \<in> set others. compiled_in sto' i"
    and m: "map_of imps' = map_of imps ++ map_of (rev (concat (map (slice_exports sto') others)))"
    by simp_all
  have "use_exports env a sto'' u = use_exports env a sto' u" if "frozen sto' sto''" for sto''
  proof -
    have "map (slice_exports sto'') others = map (slice_exports sto') others"
      using c frozen_exports [OF that] by (intro map_cong) auto
    then have "concat (map (slice_exports sto'') others) = concat (map (slice_exports sto') others)"
      by (rule arg_cong)
    then show ?thesis by (simp only: use_exports_def False g if_False sum.case)
  qed
  with f m show ?thesis by (simp add: use_exports_def False g)
qed

lemma import_uses:
  assumes "each_s (import_use env a) us (imps, sto) = (None, imps', sto')"
  shows "frozen sto sto'
         \<and> map_of imps' = map_of imps ++ map_of (rev (concat (map (use_exports env a sto') us)))"
  using assms
proof (induction us arbitrary: imps sto)
  case Nil
  then show ?case by (simp add: frozen_refl)
next
  case (Cons u us)
  from Cons.prems obtain imps1 sto1 where
    s1: "import_use env a u (imps, sto) = (None, imps1, sto1)"
    and rest: "each_s (import_use env a) us (imps1, sto1) = (None, imps', sto')"
    by (auto split: prod.splits option.splits)
  from import_use_step [OF s1] have f1: "frozen sto sto1"
    and st: "\<And>sto''. frozen sto1 sto'' \<Longrightarrow> use_exports env a sto'' u = use_exports env a sto1 u"
    and m1: "map_of imps1 = map_of imps ++ map_of (rev (use_exports env a sto1 u))"
    by simp_all
  from Cons.IH [OF rest] have f2: "frozen sto1 sto'"
    and m2: "map_of imps' = map_of imps1 ++ map_of (rev (concat (map (use_exports env a sto') us)))"
    by simp_all
  show ?case
    using frozen_trans [OF f1 f2] by (simp add: m2 m1 st [OF f2])
qed

lemma import_skips_unordered:
  "each_s (import_use env a) (filter (\<lambda>u. \<not> unordered u) us) st = each_s (import_use env a) us st"
proof (induction us arbitrary: st)
  case Nil
  then show ?case by simp
next
  case (Cons u us)
  show ?case
  proof (cases "unordered u")
    case True
    then have "import_use env a u st = (None, st)" by (simp add: import_use_def)
    with True show ?thesis by (simp add: Cons.IH)
  next
    case False
    then show ?thesis by (simp add: Cons.IH split: prod.splits option.splits)
  qed
qed


lemma getResources_imports:
  assumes "getResources env selfId sto = (Inr rs, sto')"
  obtains self1 self2 imps files where
    "computeImports env self1 (sto(selfId \<mapsto> self1)) = (None, imps, sto')"
    "sto' selfId = Some self2"
    "e_link env \<lparr>la_imports = imps,
                  la_useGlobalNamespace = \<not> truthy (p_name (s_pkg self2)),
                  la_prelinkFiles = s_prelinkFiles self2,
                  la_boundary = s_boundary self2\<rparr> = Inr files"
proof -
  from assms obtain self0 where s0: "sto selfId = Some self0"
    by (cases "sto selfId") (simp_all add: getResources_def)
  obtain r1 self1 where c: "ensureCompiled env self0 = (r1, self1)"
    by (cases "ensureCompiled env self0")
  with assms s0 have r1: "r1 = None"
    by (cases r1) (simp_all add: getResources_def)
  obtain r2 imps sto2 where ci: "computeImports env self1 (sto(selfId \<mapsto> self1)) = (r2, imps, sto2)"
    by (cases "computeImports env self1 (sto(selfId \<mapsto> self1))")
  with assms s0 c r1 have r2: "r2 = None"
    by (cases r2) (simp_all add: getResources_def)
  from assms s0 c r1 ci r2 obtain self2 where s2: "sto2 selfId = Some self2"
    by (cases "sto2 selfId") (simp_all add: getResources_def)
  from assms s0 c r1 ci r2 s2 obtain files where
    l: "e_link env \<lparr>la_imports = imps,
                  la_useGlobalNamespace = \<not> truthy (p_name (s_pkg self2)),
                  la_prelinkFiles = s_prelinkFiles self2,
                  la_boundary = s_boundary self2\<rparr> = Inr files"
    by (cases "e_link env \<lparr>la_imports = imps,
                  la_useGlobalNamespace = \<not> truthy (p_name (s_pkg self2)),
                  la_prelinkFiles = s_prelinkFiles self2,
                  la_boundary = s_boundary self2\<rparr>") (simp_all add: getResources_def)
  from assms s0 c r1 ci r2 s2 l have "sto' = sto2"
    by (simp_all add: getResources_def)
  with ci r2 have "computeImports env self1 (sto(selfId \<mapsto> self1)) = (None, imps, sto')"
    by simp
  from that [OF this _ l] s2 \<open>sto' = sto2\<close> show thesis by simp
qed

lemma exporting_compile:
  "ensureCompiled import_env (exporting i name syms) =
     (None, (exporting i name syms)\<lparr>s_prelinkFiles := Some [], s_boundary := Some ''__boundary__'',
        s_exports := Some syms, s_resources := Some [], s_isCompiled := True\<rparr>)"
  by (simp add: ensureCompiled_def exporting_def import_env_def example_env_def prelink_input_def Let_def)

lemma import_slice_exporting:
  assumes "sto k = Some (exporting i name syms)"
  shows "import_slice import_env k (imps, sto) =
     (None, fold (\<lambda>symbol. AList.update symbol (Some name)) syms imps,
      sto(k \<mapsto> (exporting i name syms)\<lparr>s_prelinkFiles := Some [], s_boundary := Some ''__boundary__'',
        s_exports := Some syms, s_resources := Some [], s_isCompiled := True\<rparr>))"
  using assms by (simp add: import_slice_def exporting_compile) (simp add: exporting_def)

lemma import_use_exporting:
  assumes "sto (n @ ''.main'') = Some (exporting i name syms)"
  shows "import_use import_env Client \<lparr>spec = n, unordered = False\<rparr> (imps, sto) =
     (None, fold (\<lambda>symbol. AList.update symbol (Some name)) syms imps,
      sto(n @ ''.main'' \<mapsto> (exporting i name syms)\<lparr>s_prelinkFiles := Some [], s_boundary := Some ''__boundary__'',
        s_exports := Some syms, s_resources := Some [], s_isCompiled := True\<rparr>))"
proof -
  have g: "e_getSlices import_env n Client = Inr [n @ ''.main'']"
    by (simp add: import_env_def)
  show ?thesis
    by (simp add: import_use_def g
        import_slice_exporting [where sto = sto and k = "n @ ''.main''", OF assms])
qed

lemma import_use_unordered:
  "import_use import_env Client \<lparr>spec = n, unordered = True\<rparr> st = (None, st)"
  by (simp add: import_use_def)

lemma import_example:
  "fst (computeImports import_env import_app import_store) = None
   \<and> fst (snd (computeImports import_env import_app import_store)) = [(''Foo'', Some ''q'')]"
proof -
  define sto1 where "sto1 = import_store(''p'' @ ''.main'' \<mapsto>
      (exporting 2 ''p'' [''Foo''])\<lparr>s_prelinkFiles := Some [], s_boundary := Some ''__boundary__'',
        s_exports := Some [''Foo''], s_resources := Some [], s_isCompiled := True\<rparr>)"
  have u: "s_uses import_app = [\<lparr>spec = ''p'', unordered = False\<rparr>, \<lparr>spec = ''r'', unordered = True\<rparr>,
                \<lparr>spec = ''q'', unordered = False\<rparr>]" and a: "s_arch import_app = Client"
    by (simp_all add: import_app_def)
  have p: "import_store (''p'' @ ''.main'') = Some (exporting 2 ''p'' [''Foo''])"
    by (simp add: import_store_def)
  have q: "sto1 (''q'' @ ''.main'') = Some (exporting 3 ''q'' [''Foo''])"
    by (simp add: import_store_def sto1_def)
  have s1: "import_use import_env Client \<lparr>spec = ''p'', unordered = False\<rparr> ([], import_store) =
      (None, [(''Foo'', Some ''p'')], sto1)"
    using import_use_exporting [where sto = import_store and n = "''p''" and imps = "[]", OF p]
    by (simp add: sto1_def)
  define sto2 where "sto2 = sto1(''q'' @ ''.main'' \<mapsto>
      (exporting 3 ''q'' [''Foo''])\<lparr>s_prelinkFiles := Some [], s_boundary := Some ''__boundary__'',
        s_exports := Some [''Foo''], s_resources := Some [], s_isCompiled := True\<rparr>)"
  have s3: "import_use import_env Client \<lparr>spec = ''q'', unordered = False\<rparr>
              ([(''Foo'', Some ''p'')], sto1) = (None, [(''Foo'', Some ''q'')], sto2)"
    using import_use_exporting [where sto = sto1 and n = "''q''" and imps = "[(''Foo'', Some ''p'')]", OF q]
    by (simp add: sto2_def)
  show ?thesis
    by (simp add: computeImports_def u a s1 import_use_unordered s3)
qed


text \<open>
  C2.  The import map of \<^verbatim>\<open>getResources\<close> is built by walking \<^verbatim>\<open>uses\<close> in order and
  writing each exported symbol of each used slice into one object.  Entries marked
  unordered are skipped: the walk over all of \<^verbatim>\<open>uses\<close> is the walk over the entries that
  are not unordered.  When the walk ends normally the map holds, for every symbol, the
  package of the last entry that exports it, which is what a lookup in the reversed list
  of all exports finds; and it is this map that \<^verbatim>\<open>getResources\<close> hands to the linker.
\<close>

theorem imports_later_wins:
  "computeImports env (self\<lparr>s_uses := filter (\<lambda>u. \<not> unordered u) (s_uses self)\<rparr>) sto =
     computeImports env self sto
   \<and> (computeImports env self sto = (None, imps, sto') \<longrightarrow>
        map_of imps = map_of (rev (exported_to env self sto')))
   \<and> (getResources env selfId sto = (Inr rs, sto'') \<longrightarrow>
        (\<exists>self1 self2 linked files.
           computeImports env self1 (sto(selfId \<mapsto> self1)) = (None, linked, sto'')
           \<and> sto'' selfId = Some self2
           \<and> e_link env \<lparr>la_imports = linked,
                  la_useGlobalNamespace = \<not> truthy (p_name (s_pkg self2)),
                  la_prelinkFiles = s_prelinkFiles self2,
                  la_boundary = s_boundary self2\<rparr> = Inr files
           \<and> map_of linked = map_of (rev (exported_to env self1 sto''))))"
proof (intro conjI impI)
  show "computeImports env (self\<lparr>s_uses := filter (\<lambda>u. \<not> unordered u) (s_uses self)\<rparr>) sto =
     computeImports env self sto"
    by (simp add: computeImports_def import_skips_unordered)
next
  assume "computeImports env self sto = (None, imps, sto')"
  then show "map_of imps = map_of (rev (exported_to env self sto'))"
    using import_uses [of env "s_arch self" "s_uses self" "[]" sto imps sto']
    by (simp add: computeImports_def exported_to_def)
next
  assume "getResources env selfId sto = (Inr rs, sto'')"
  then obtain self1 self2 linked files where
    c: "computeImports env self1 (sto(selfId \<mapsto> self1)) = (None, linked, sto'')"
    and s2: "sto'' selfId = Some self2"
    and l: "e_link env \<lparr>la_imports = linked,
                  la_useGlobalNamespace = \<not> truthy (p_name (s_pkg self2)),
                  la_prelinkFiles = s_prelinkFiles self2,
                  la_boundary = s_boundary self2\<rparr> = Inr files"
    by (rule getResources_imports)
  from c have "map_of linked = map_of (rev (exported_to env self1 sto''))"
    using import_uses [of env "s_arch self1" "s_uses self1" "[]" "sto(selfId \<mapsto> self1)" linked sto'']
    by (simp add: computeImports_def exported_to_def)
  with c s2 l show "\<exists>self1 self2 linked files.
           computeImports env self1 (sto(selfId \<mapsto> self1)) = (None, linked, sto'')
           \<and> sto'' selfId = Some self2
           \<and> e_link env \<lparr>la_imports = linked,
                  la_useGlobalNamespace = \<not> truthy (p_name (s_pkg self2)),
                  la_prelinkFiles = s_prelinkFiles self2,
                  la_boundary = s_boundary self2\<rparr> = Inr files
           \<and> map_of linked = map_of (rev (exported_to env self1 sto''))"
    by (intro exI [of _ self1] exI [of _ self2] exI [of _ linked] exI [of _ files]) simp
qed

text \<open>
  On the application that uses \<open>p\<close>, then \<open>r\<close> as an unordered edge, then \<open>q\<close>: the walk
  ends normally with \<open>Foo\<close> supplied by \<open>q\<close>.  With the application in the store and not
  yet compiled, \<^verbatim>\<open>getResources\<close> compiles it, returns, and the one file the linker answers
  with shows the map it was given.
\<close>

theorem imports_later_wins_witness:
  "fst (computeImports import_env import_app import_store) = None
   \<and> fst (snd (computeImports import_env import_app import_store)) = [(''Foo'', Some ''q'')]
   \<and> map_of (rev (exported_to import_env import_app
                (snd (snd (computeImports import_env import_app import_store))))) =
       [''Foo'' \<mapsto> Some ''q'']
   \<and> fst (getResources linking_env ''app'' linking_store) =
       Inr [\<lparr>r_type = ''js'', r_data = ''Foo from q;'',
             r_servePath = Some ''/packages/global-imports.js''\<rparr>]
   \<and> map_option s_isCompiled (snd (getResources linking_env ''app'' linking_store) ''app'') = Some True
   \<and> (\<exists>self1 self2 linked files.
         computeImports linking_env self1 (linking_store(''app'' \<mapsto> self1)) =
           (None, linked, snd (getResources linking_env ''app'' linking_store))
         \<and> snd (getResources linking_env ''app'' linking_store) ''app'' = Some self2
         \<and> e_link linking_env \<lparr>la_imports = linked,
                la_useGlobalNamespace = \<not> truthy (p_name (s_pkg self2)),
                la_prelinkFiles = s_prelinkFiles self2,
                la_boundary = s_boundary self2\<rparr> = Inr files
         \<and> map_of linked =
             map_of (rev (exported_to linking_env self1
                            (snd (getResources linking_env ''app'' linking_store)))))"
proof -
  have e: "computeImports import_env import_app import_store =
      (None, fst (snd (computeImports import_env import_app import_store)),
       snd (snd (computeImports import_env import_app import_store)))"
    using import_example by (metis prod.collapse)
  from imports_later_wins [of import_env import_app import_store
      "fst (snd (computeImports import_env import_app import_store))"
      "snd (snd (computeImports import_env import_app import_store))"] e
  have "map_of (fst (snd (computeImports import_env import_app import_store))) =
        map_of (rev (exported_to import_env import_app
                (snd (snd (computeImports import_env import_app import_store)))))"
    by blast
  then have first: "fst (computeImports import_env import_app import_store) = None
   \<and> fst (snd (computeImports import_env import_app import_store)) = [(''Foo'', Some ''q'')]
   \<and> map_of (rev (exported_to import_env import_app
                (snd (snd (computeImports import_env import_app import_store))))) =
       [''Foo'' \<mapsto> Some ''q'']"
    using import_example by simp
  have g: "fst (getResources linking_env ''app'' linking_store) =
       Inr [\<lparr>r_type = ''js'', r_data = ''Foo from q;'',
             r_servePath = Some ''/packages/global-imports.js''\<rparr>]"
    by code_simp
  have c: "map_option s_isCompiled (snd (getResources linking_env ''app'' linking_store) ''app'') = Some True"
    by code_simp
  from g have e: "getResources linking_env ''app'' linking_store =
       (Inr [\<lparr>r_type = ''js'', r_data = ''Foo from q;'',
              r_servePath = Some ''/packages/global-imports.js''\<rparr>],
        snd (getResources linking_env ''app'' linking_store))"
    by (metis prod.collapse)
  from imports_later_wins [where env = linking_env and selfId = "''app''" and sto = linking_store
      and sto'' = "snd (getResources linking_env ''app'' linking_store)"
      and rs = "[\<lparr>r_type = ''js'', r_data = ''Foo from q;'',
                  r_servePath = Some ''/packages/global-imports.js''\<rparr>]"] e
  have "\<exists>self1 self2 linked files.
         computeImports linking_env self1 (linking_store(''app'' \<mapsto> self1)) =
           (None, linked, snd (getResources linking_env ''app'' linking_store))
         \<and> snd (getResources linking_env ''app'' linking_store) ''app'' = Some self2
         \<and> e_link linking_env \<lparr>la_imports = linked,
                la_useGlobalNamespace = \<not> truthy (p_name (s_pkg self2)),
                la_prelinkFiles = s_prelinkFiles self2,
                la_boundary = s_boundary self2\<rparr> = Inr files
         \<and> map_of linked =
             map_of (rev (exported_to linking_env self1
                            (snd (getResources linking_env ''app'' linking_store))))"
    by blast
  with g c first show ?thesis by blast
qed
section \<open>Conflicts between extension handlers\<close>

lemma agreeD:
  "agree ret S \<Longrightarrow> (e, h) \<in> S \<Longrightarrow> \<exists>h'. map_of ret e = Some h' \<and> h_id h' = h_id h"
  unfolding agree_def by (drule (1) bspec) simp

lemma agreeI:
  "(\<And>e h. (e, h) \<in> S \<Longrightarrow> \<exists>h'. map_of ret e = Some h' \<and> h_id h' = h_id h) \<Longrightarrow> agree ret S"
  unfolding agree_def by (metis prod.collapse)

lemma merge_handler_agree:
  assumes "merge_handler pkg otherPkg eh ret = Inr ret'" "agree ret S"
  shows "agree ret' (insert eh S)"
proof -
  obtain e h where eh: "eh = (e, h)" by (cases eh)
  from assms(1) have r: "map_of ret' = (map_of ret)(e \<mapsto> h)"
    by (cases "map_of ret e") (auto simp: merge_handler_def eh update_conv' split: if_splits)
  from assms(1) have ok: "h_id h' = h_id h" if "map_of ret e = Some h'" for h'
    using that by (simp add: merge_handler_def eh split: if_splits)
  show ?thesis
  proof (rule agreeI)
    fix e2 h2 assume "(e2, h2) \<in> insert eh S"
    then consider "e2 = e" "h2 = h" | "(e2, h2) \<in> S" by (auto simp: eh)
    then show "\<exists>h'. map_of ret' e2 = Some h' \<and> h_id h' = h_id h2"
    proof cases
      case 1
      then show ?thesis by (simp add: r)
    next
      case 2
      from agreeD [OF assms(2) 2] obtain h' where h': "map_of ret e2 = Some h'" "h_id h' = h_id h2"
        by blast
      show ?thesis
      proof (cases "e2 = e")
        case True
        with h' ok [of h'] show ?thesis by (simp add: r)
      next
        case False
        with h' show ?thesis by (simp add: r)
      qed
    qed
  qed
qed

lemma merge_handlers_agree:
  assumes "each_e (merge_handler pkg otherPkg) exts ret = Inr ret'" "agree ret S"
  shows "agree ret' (set exts \<union> S)"
  using assms
proof (induction exts arbitrary: ret S)
  case Nil
  then show ?case by simp
next
  case (Cons eh exts)
  from Cons.prems(1) obtain ret1 where m: "merge_handler pkg otherPkg eh ret = Inr ret1"
    and rest: "each_e (merge_handler pkg otherPkg) exts ret1 = Inr ret'"
    by (auto split: sum.splits)
  from Cons.IH [OF rest merge_handler_agree [OF m Cons.prems(2)]]
  show ?case by (simp add: Un_commute insert_commute)
qed

lemma merge_uses_agree:
  assumes "each_e (merge_use env pkg) us ret = Inr ret'" "agree ret S"
  shows "agree ret' (used_extensions env us \<union> S)"
  using assms
proof (induction us arbitrary: ret S)
  case Nil
  then show ?case by (simp add: used_extensions_def)
next
  case (Cons u us)
  from Cons.prems(1) obtain ret1 where m: "merge_use env pkg u ret = Inr ret1"
    and rest: "each_e (merge_use env pkg) us ret1 = Inr ret'"
    by (auto split: sum.splits)
  from m obtain otherPkg where
    l: "e_library env (takeWhile (\<lambda>c. c \<noteq> CHR ''.'') (spec u)) = Some otherPkg"
    and e: "each_e (merge_handler pkg otherPkg) (p_extensions otherPkg) ret = Inr ret1"
    by (auto simp: merge_use_def Let_def split: option.splits)
  from Cons.IH [OF rest merge_handlers_agree [OF e Cons.prems(2)]]
  show ?case by (simp add: used_extensions_def l Un_assoc Un_left_commute Un_commute)
qed

lemma agree_own:
  assumes "distinct (map fst exts)"
  shows "agree (extend_obj [] exts) (set exts)"
proof -
  have m: "map_of (extend_obj [] exts) = map_of (rev exts)"
    using map_of_fold_update [of exts "[]"]
    by (simp add: extend_obj_def case_prod_unfold)
  have d: "distinct (map fst (rev exts))"
    using assms by (simp add: rev_map [symmetric])
  have "map_of (rev exts) e = Some h" if "(e, h) \<in> set exts" for e h
    using that map_of_eq_Some_iff [OF d, of e h] by simp
  then show ?thesis
    by (intro agreeI) (simp add: m)
qed

lemma handlers_agree:
  assumes "allHandlers env self = Inr ret" "distinct (map fst (p_extensions (s_pkg self)))"
    and "(e, h1) \<in> set (p_extensions (s_pkg self)) \<union> used_extensions env (s_uses self)"
    and "(e, h2) \<in> set (p_extensions (s_pkg self)) \<union> used_extensions env (s_uses self)"
  shows "h_id h1 = h_id h2"
proof -
  from merge_uses_agree [OF assms(1) [unfolded allHandlers_def] agree_own [OF assms(2)]]
  have a: "agree ret (used_extensions env (s_uses self) \<union> set (p_extensions (s_pkg self)))" .
  from assms(3) have "(e, h1) \<in> used_extensions env (s_uses self) \<union> set (p_extensions (s_pkg self))"
    by blast
  from agreeD [OF a this] obtain h' where "map_of ret e = Some h'" "h_id h' = h_id h1"
    by blast
  moreover from assms(4) have "(e, h2) \<in> used_extensions env (s_uses self) \<union> set (p_extensions (s_pkg self))"
    by blast
  from agreeD [OF a this] obtain h'' where "map_of ret e = Some h''" "h_id h'' = h_id h2"
    by blast
  ultimately show ?thesis by simp
qed

text \<open>
  C6, at the input where the code leaves the claim.  Packages \<open>x\<close> and \<open>y\<close> register
  different handlers for \<^verbatim>\<open>.less\<close> and the application uses both.  Building the message
  of the conflict reads \<^verbatim>\<open>ret[ext].pkg.name\<close>, and a registered callback has no \<^verbatim>\<open>pkg\<close>:
  what is thrown is the engine's TypeError, which names neither package nor the
  extension.
\<close>

theorem extension_conflict_example:
  "allHandlers conflict_env conflict_slice = Inl (TypeError ''Cannot read property name of undefined'')"
  by (simp add: allHandlers_def conflict_env_def conflict_slice_def example_env_def extend_obj_def
      merge_use_def merge_handler_def conflict_def pkg_x_def pkg_y_def less_x_def less_y_def)
section \<open>The load order\<close>

lemma deps_in_mono: "deps_in library s D \<Longrightarrow> D \<subseteq> D' \<Longrightarrow> deps_in library s D'"
  unfolding deps_in_def by blast

lemma ordered_from_append:
  "ordered_from library D (xs @ [s]) =
     (ordered_from library D xs \<and> deps_in library s (D \<union> slice_id ` set xs))"
  by (induction xs arbitrary: D) (simp_all add: Un_commute insert_commute Un_insert_left Un_insert_right)

lemma ordered_from_nth:
  "ordered_from library D ss \<Longrightarrow> i < length ss \<Longrightarrow>
     deps_in library (ss ! i) (D \<union> slice_id ` set (take i ss))"
proof (induction ss arbitrary: D i)
  case Nil
  then show ?case by simp
next
  case (Cons s ss)
  show ?case
  proof (cases i)
    case 0
    with Cons.prems show ?thesis by simp
  next
    case (Suc j)
    with Cons.prems have "deps_in library (ss ! j) (insert (slice_id s) D \<union> slice_id ` set (take j ss))"
      using Cons.IH [of "insert (slice_id s) D" j] by simp
    then show ?thesis using Suc by (simp add: Un_commute insert_commute Un_insert_left Un_insert_right)
  qed
qed

lemma ordered_in_load_order:
  assumes "ordered_from library {} ss"
  shows "in_load_order library ss"
  unfolding in_load_order_def
proof (intro allI impI ballI)
  fix i n
  assume i: "i < length ss"
    and n: "n \<in> set (b_uses (sl_pkg (ss ! i)) (sl_role (ss ! i)) (sl_where (ss ! i)))"
    and ns: "\<not> skipped (ss ! i) n"
  from ordered_from_nth [OF assms i] n ns obtain p where
    p: "library n = Some p" and k: "(Use, sl_where (ss ! i), b_id p) \<in> slice_id ` set (take i ss)"
    unfolding deps_in_def by auto
  from k obtain x where x: "x \<in> set (take i ss)" "slice_id x = (Use, sl_where (ss ! i), b_id p)"
    by auto
  then obtain j where j: "j < length (take i ss)" "take i ss ! j = x"
    by (auto simp: in_set_conv_nth)
  with i have "j < i" "ss ! j = x" by simp_all
  with p x show "\<exists>p j. library n = Some p \<and> j < i \<and> slice_id (ss ! j) = (Use, sl_where (ss ! i), b_id p)"
    by blast
qed

lemma load_inv_onStack [simp]: "load_inv library (st\<lparr>onStack := S\<rparr>) = load_inv library st"
  by (simp add: load_inv_def)

lemma load_inv_push:
  assumes "load_inv library st" "deps_in library s (done_ids st)"
  shows "load_inv library (st\<lparr>slices := slices st @ [s], done_ids := insert (slice_id s) (done_ids st),
             remaining := r\<rparr>)"
  using assms by (simp add: load_inv_def ordered_from_append)

lemma load_preserves:
  "load fuel library index s st = Some (Inr st') \<Longrightarrow> index_wf index \<Longrightarrow> load_inv library st \<Longrightarrow>
     load_inv library st' \<and> done_ids st \<subseteq> done_ids st' \<and> slice_id s \<in> done_ids st'"
  "load_uses fuel library index s names st = Some (Inr st') \<Longrightarrow> index_wf index \<Longrightarrow> load_inv library st \<Longrightarrow>
     load_inv library st' \<and> done_ids st \<subseteq> done_ids st' \<and>
     (\<forall>n \<in> set names. \<not> skipped s n \<longrightarrow>
        (\<exists>p. library n = Some p \<and> (Use, sl_where s, b_id p) \<in> done_ids st'))"
proof (induction fuel library index s st and fuel library index s names st
    arbitrary: st' and st' rule: load_load_uses.induct)
  case (1 library index s st)
  then show ?case by simp
next
  case (2 fuel library index s st)
  show ?case
  proof (cases "slice_id s \<in> done_ids st")
    case True
    with "2.prems" show ?thesis by simp
  next
    case False
    with "2.prems"(1) obtain st1 where
      u: "load_uses fuel library index s (b_uses (sl_pkg s) (sl_role s) (sl_where s)) st = Some (Inr st1)"
      and st': "st' = st1\<lparr>slices := slices st1 @ [s],
                               done_ids := insert (slice_id s) (done_ids st1),
                               remaining := AList.delete (slice_id s) (remaining st1)\<rparr>"
      by (auto split: option.splits sum.splits)
    from "2.IH" [OF False u "2.prems"(2,3)]
    have i1: "load_inv library st1" and d1: "done_ids st \<subseteq> done_ids st1"
      and deps: "deps_in library s (done_ids st1)"
      by (simp_all add: deps_in_def)
    from load_inv_push [OF i1 deps] d1 show ?thesis
      by (auto simp: st')
  qed
next
  case (3 fuel library index s st)
  then show ?case by simp
next
  case (4 fuel library index s usedPkgName rest st)
  show ?case
  proof (cases "skipped s usedPkgName")
    case True
    with "4.prems"(1) have "load_uses fuel library index s rest st = Some (Inr st')" by simp
    from "4.IH"(1) [OF True this "4.prems"(2,3)] True show ?thesis by simp
  next
    case False
    with "4.prems"(1) obtain usedPkg where g: "getPackage library (ByName usedPkgName) = Inr usedPkg"
      by (auto split: sum.splits)
    then have lib: "library usedPkgName = Some usedPkg"
      by (auto simp: getPackage_def split: option.splits)
    from False g "4.prems"(1) obtain usedSlice where
      ix: "index (Use, sl_where s, b_id usedPkg) = Some usedSlice"
      by (auto split: option.splits)
    with "4.prems"(2) have key: "slice_id usedSlice = (Use, sl_where s, b_id usedPkg)"
      by (simp add: index_wf_def)
    from False g ix "4.prems"(1) have ns: "slice_id usedSlice \<notin> onStack st"
      by (auto split: if_splits)
    from False g ix ns "4.prems"(1) obtain st1 where
      l: "load fuel library index usedSlice (st\<lparr>onStack := insert (slice_id usedSlice) (onStack st)\<rparr>) = Some (Inr st1)"
      and r: "load_uses fuel library index s rest (st1\<lparr>onStack := onStack st1 - {slice_id usedSlice}\<rparr>) = Some (Inr st')"
      by (auto split: option.splits sum.splits)
    from "4.IH"(2) [OF False g ix ns l "4.prems"(2)] "4.prems"(3)
    have i1: "load_inv library st1" and d1: "done_ids st \<subseteq> done_ids st1"
      and k1: "slice_id usedSlice \<in> done_ids st1"
      by simp_all
    from "4.IH"(3) [OF False g ix ns l refl r "4.prems"(2)] i1
    have i2: "load_inv library st'" and d2: "done_ids st1 \<subseteq> done_ids st'"
      and rest: "\<forall>n \<in> set rest. \<not> skipped s n \<longrightarrow>
        (\<exists>p. library n = Some p \<and> (Use, sl_where s, b_id p) \<in> done_ids st')"
      by simp_all
    from k1 d2 key lib have "\<exists>p. library usedPkgName = Some p \<and> (Use, sl_where s, b_id p) \<in> done_ids st'"
      by auto
    with i2 d1 d2 rest show ?thesis by auto
  qed
qed

lemma load_onStack:
  "load fuel library index s st = Some (Inr st') \<Longrightarrow> onStack st' = onStack st"
  "load_uses fuel library index s names st = Some (Inr st') \<Longrightarrow> onStack st' = onStack st"
proof (induction fuel library index s st and fuel library index s names st
    arbitrary: st' and st' rule: load_load_uses.induct)
  case (1 library index s st)
  then show ?case by simp
next
  case (2 fuel library index s st)
  show ?case
  proof (cases "slice_id s \<in> done_ids st")
    case True
    with "2.prems" show ?thesis by simp
  next
    case False
    with "2.prems"(1) obtain st1 where
      u: "load_uses fuel library index s (b_uses (sl_pkg s) (sl_role s) (sl_where s)) st = Some (Inr st1)"
      and st': "st' = st1\<lparr>slices := slices st1 @ [s],
                               done_ids := insert (slice_id s) (done_ids st1),
                               remaining := AList.delete (slice_id s) (remaining st1)\<rparr>"
      by (auto split: option.splits sum.splits)
    from "2.IH" [OF False u] show ?thesis by (simp add: st')
  qed
next
  case (3 fuel library index s st)
  then show ?case by simp
next
  case (4 fuel library index s usedPkgName rest st)
  show ?case
  proof (cases "skipped s usedPkgName")
    case True
    with "4.prems"(1) have "load_uses fuel library index s rest st = Some (Inr st')" by simp
    from "4.IH"(1) [OF True this] show ?thesis .
  next
    case False
    with "4.prems"(1) obtain usedPkg where g: "getPackage library (ByName usedPkgName) = Inr usedPkg"
      by (auto split: sum.splits)
    from False g "4.prems"(1) obtain usedSlice where
      ix: "index (Use, sl_where s, b_id usedPkg) = Some usedSlice"
      by (auto split: option.splits)
    from False g ix "4.prems"(1) have ns: "slice_id usedSlice \<notin> onStack st"
      by (auto split: if_splits)
    from False g ix ns "4.prems"(1) obtain st1 where
      l: "load fuel library index usedSlice (st\<lparr>onStack := insert (slice_id usedSlice) (onStack st)\<rparr>) = Some (Inr st1)"
      and r: "load_uses fuel library index s rest (st1\<lparr>onStack := onStack st1 - {slice_id usedSlice}\<rparr>) = Some (Inr st')"
      by (auto split: option.splits sum.splits)
    from "4.IH"(2) [OF False g ix ns l] have "onStack st1 = insert (slice_id usedSlice) (onStack st)"
      by simp
    with "4.IH"(3) [OF False g ix ns l refl r] ns show ?thesis by simp
  qed
qed

lemma blocked_fails:
  assumes "name \<in> set names" "\<not> skipped s name" "library name = Some p"
    "index (Use, sl_where s, b_id p) = Some us" "slice_id us \<in> onStack st"
  shows "load_uses fuel library index s names st \<noteq> Some (Inr st')"
  using assms(1,5)
proof (induction names arbitrary: st)
  case Nil
  then show ?case by simp
next
  case (Cons n rest)
  show ?case
  proof (cases "skipped s n")
    case True
    with assms(2) have "n \<noteq> name" by auto
    with Cons.prems have "name \<in> set rest" by simp
    from Cons.IH [OF this Cons.prems(2)] True show ?thesis by simp
  next
    case False
    show ?thesis
    proof (cases "getPackage library (ByName n)")
      case (Inl e)
      with False show ?thesis by simp
    next
      case (Inr usedPkg)
      then have lib: "library n = Some usedPkg"
        by (auto simp: getPackage_def split: option.splits)
      show ?thesis
      proof (cases "index (Use, sl_where s, b_id usedPkg)")
        case None
        with False Inr show ?thesis by simp
      next
        case (Some usedSlice)
        show ?thesis
        proof (cases "slice_id usedSlice \<in> onStack st")
          case True
          with False Inr Some show ?thesis by simp
        next
          case ns: False
          have "n \<noteq> name"
          proof
            assume "n = name"
            with lib assms(3) have "usedPkg = p" by simp
            with Some assms(4) have "usedSlice = us" by simp
            with ns Cons.prems(2) show False by simp
          qed
          with Cons.prems have nr: "name \<in> set rest" by simp
          show ?thesis
          proof (cases "load fuel library index usedSlice
                          (st\<lparr>onStack := insert (slice_id usedSlice) (onStack st)\<rparr>)")
            case None
            with False Inr Some ns show ?thesis by simp
          next
            case (Some res)
            note l = this
            show ?thesis
            proof (cases res)
              case (Inl e)
              with False Inr \<open>index (Use, sl_where s, b_id usedPkg) = Some usedSlice\<close> ns l
              show ?thesis by simp
            next
              case (Inr st1)
              with l load_onStack(1) [of fuel library index usedSlice
                  "st\<lparr>onStack := insert (slice_id usedSlice) (onStack st)\<rparr>" st1]
              have "onStack st1 = insert (slice_id usedSlice) (onStack st)" by simp
              with ns Cons.prems(2)
              have "slice_id us \<in> onStack (st1\<lparr>onStack := onStack st1 - {slice_id usedSlice}\<rparr>)"
                by auto
              from Cons.IH [OF nr this] False \<open>getPackage library (ByName n) = Inr usedPkg\<close>
                \<open>index (Use, sl_where s, b_id usedPkg) = Some usedSlice\<close> ns l Inr
              show ?thesis by simp
            qed
          qed
        qed
      qed
    qed
  qed
qed

lemma blocked_load_uses_fails:
  assumes "blocked library index s (onStack st)"
  shows "load_uses fuel library index s (b_uses (sl_pkg s) (sl_role s) (sl_where s)) st \<noteq> Some (Inr st')"
proof -
  from assms obtain name p us where
    "name \<in> set (b_uses (sl_pkg s) (sl_role s) (sl_where s))" "\<not> skipped s name"
    "library name = Some p" "index (Use, sl_where s, b_id p) = Some us" "slice_id us \<in> onStack st"
    unfolding blocked_def by blast
  then show ?thesis by (rule blocked_fails)
qed

lemma blocked_mono: "blocked library index s S \<Longrightarrow> S \<subseteq> S' \<Longrightarrow> blocked library index s S'"
  unfolding blocked_def by blast

lemma root_not_done:
  "load fuel library index x st = Some (Inr st') \<Longrightarrow> index_wf index \<Longrightarrow>
     index (slice_id x) = Some x \<Longrightarrow> index (slice_id R) = Some R \<Longrightarrow>
     blocked library index R (onStack st) \<Longrightarrow> slice_id R \<notin> done_ids st \<Longrightarrow>
     slice_id R \<notin> done_ids st'"
  "load_uses fuel library index x names st = Some (Inr st') \<Longrightarrow> index_wf index \<Longrightarrow>
     index (slice_id R) = Some R \<Longrightarrow>
     blocked library index R (onStack st) \<Longrightarrow> slice_id R \<notin> done_ids st \<Longrightarrow>
     slice_id R \<notin> done_ids st'"
proof (induction fuel library index x st and fuel library index x names st
    arbitrary: st' and st' rule: load_load_uses.induct)
  case (1 library index s st)
  then show ?case by simp
next
  case (2 fuel library index s st)
  show ?case
  proof (cases "slice_id s \<in> done_ids st")
    case True
    with "2.prems" show ?thesis by simp
  next
    case False
    with "2.prems"(1) obtain st1 where
      u: "load_uses fuel library index s (b_uses (sl_pkg s) (sl_role s) (sl_where s)) st = Some (Inr st1)"
      and st': "st' = st1\<lparr>slices := slices st1 @ [s],
                               done_ids := insert (slice_id s) (done_ids st1),
                               remaining := AList.delete (slice_id s) (remaining st1)\<rparr>"
      by (auto split: option.splits sum.splits)
    have "slice_id s \<noteq> slice_id R"
    proof
      assume "slice_id s = slice_id R"
      with "2.prems"(3,4) have sR: "s = R" by (metis option.inject)
      from u have "load_uses fuel library index R (b_uses (sl_pkg R) (sl_role R) (sl_where R)) st = Some (Inr st1)"
        unfolding sR .
      with blocked_load_uses_fails [OF "2.prems"(5), where fuel = fuel and st' = st1]
      show False by contradiction
    qed
    with "2.IH" [OF False u "2.prems"(2,4,5,6)] show ?thesis by (simp add: st')
  qed
next
  case (3 fuel library index s st)
  then show ?case by simp
next
  case (4 fuel library index s usedPkgName rest st)
  show ?case
  proof (cases "skipped s usedPkgName")
    case True
    with "4.prems"(1) have "load_uses fuel library index s rest st = Some (Inr st')" by simp
    from "4.IH"(1) [OF True this "4.prems"(2,3,4,5)] show ?thesis .
  next
    case False
    with "4.prems"(1) obtain usedPkg where g: "getPackage library (ByName usedPkgName) = Inr usedPkg"
      by (auto split: sum.splits)
    from False g "4.prems"(1) obtain usedSlice where
      ix: "index (Use, sl_where s, b_id usedPkg) = Some usedSlice"
      by (auto split: option.splits)
    with "4.prems"(2) have key: "index (slice_id usedSlice) = Some usedSlice"
      by (simp add: index_wf_def)
    from False g ix "4.prems"(1) have ns: "slice_id usedSlice \<notin> onStack st"
      by (auto split: if_splits)
    from False g ix ns "4.prems"(1) obtain st1 where
      l: "load fuel library index usedSlice (st\<lparr>onStack := insert (slice_id usedSlice) (onStack st)\<rparr>) = Some (Inr st1)"
      and r: "load_uses fuel library index s rest (st1\<lparr>onStack := onStack st1 - {slice_id usedSlice}\<rparr>) = Some (Inr st')"
      by (auto split: option.splits sum.splits)
    have b1: "blocked library index R (onStack (st\<lparr>onStack := insert (slice_id usedSlice) (onStack st)\<rparr>))"
      using blocked_mono [OF "4.prems"(4)] by auto
    from "4.IH"(2) [OF False g ix ns l "4.prems"(2) key "4.prems"(3) b1] "4.prems"(5)
    have d1: "slice_id R \<notin> done_ids st1" by simp
    from load_onStack(1) [OF l] ns
    have "onStack (st1\<lparr>onStack := onStack st1 - {slice_id usedSlice}\<rparr>) = onStack st" by auto
    with "4.prems"(4)
    have b2: "blocked library index R (onStack (st1\<lparr>onStack := onStack st1 - {slice_id usedSlice}\<rparr>))"
      by simp
    from "4.IH"(3) [OF False g ix ns l refl r "4.prems"(2,3) b2] d1 show ?thesis by simp
  qed
qed

lemma self_not_done:
  assumes "load_uses fuel library index R names st = Some (Inr st')"
    and "set names \<subseteq> set (b_uses (sl_pkg R) (sl_role R) (sl_where R))"
    and "index_wf index" "index (slice_id R) = Some R" "slice_id R \<notin> done_ids st"
  shows "slice_id R \<notin> done_ids st'"
  using assms(1,2,5)
proof (induction names arbitrary: st)
  case Nil
  then show ?case by simp
next
  case (Cons n rest)
  show ?case
  proof (cases "skipped R n")
    case True
    with Cons.prems(1) have "load_uses fuel library index R rest st = Some (Inr st')" by simp
    from Cons.IH [OF this] Cons.prems(2,3) show ?thesis by simp
  next
    case False
    with Cons.prems(1) obtain usedPkg where g: "getPackage library (ByName n) = Inr usedPkg"
      by (auto split: sum.splits)
    then have lib: "library n = Some usedPkg"
      by (auto simp: getPackage_def split: option.splits)
    from False g Cons.prems(1) obtain usedSlice where
      ix: "index (Use, sl_where R, b_id usedPkg) = Some usedSlice"
      by (auto split: option.splits)
    with assms(3) have key: "index (slice_id usedSlice) = Some usedSlice"
      by (simp add: index_wf_def)
    from False g ix Cons.prems(1) have ns: "slice_id usedSlice \<notin> onStack st"
      by (auto split: if_splits)
    from False g ix ns Cons.prems(1) obtain st1 where
      l: "load fuel library index usedSlice (st\<lparr>onStack := insert (slice_id usedSlice) (onStack st)\<rparr>) = Some (Inr st1)"
      and r: "load_uses fuel library index R rest (st1\<lparr>onStack := onStack st1 - {slice_id usedSlice}\<rparr>) = Some (Inr st')"
      by (auto split: option.splits sum.splits)
    have "blocked library index R (onStack (st\<lparr>onStack := insert (slice_id usedSlice) (onStack st)\<rparr>))"
      unfolding blocked_def using Cons.prems(2) False lib ix by auto
    from root_not_done(1) [OF l assms(3) key assms(4) this] Cons.prems(3)
    have "slice_id R \<notin> done_ids st1" by simp
    with Cons.IH [OF r] Cons.prems(2) show ?thesis by simp
  qed
qed

lemma load_distinct:
  "load fuel library index s st = Some (Inr st') \<Longrightarrow> index_wf index \<Longrightarrow>
     index (slice_id s) = Some s \<Longrightarrow> load_inv library st \<Longrightarrow>
     distinct (map slice_id (slices st)) \<Longrightarrow> distinct (map slice_id (slices st'))"
  "load_uses fuel library index s names st = Some (Inr st') \<Longrightarrow> index_wf index \<Longrightarrow>
     load_inv library st \<Longrightarrow>
     distinct (map slice_id (slices st)) \<Longrightarrow> distinct (map slice_id (slices st'))"
proof (induction fuel library index s st and fuel library index s names st
    arbitrary: st' and st' rule: load_load_uses.induct)
  case (1 library index s st)
  then show ?case by simp
next
  case (2 fuel library index s st)
  show ?case
  proof (cases "slice_id s \<in> done_ids st")
    case True
    with "2.prems" show ?thesis by simp
  next
    case False
    with "2.prems"(1) obtain st1 where
      u: "load_uses fuel library index s (b_uses (sl_pkg s) (sl_role s) (sl_where s)) st = Some (Inr st1)"
      and st': "st' = st1\<lparr>slices := slices st1 @ [s],
                               done_ids := insert (slice_id s) (done_ids st1),
                               remaining := AList.delete (slice_id s) (remaining st1)\<rparr>"
      by (auto split: option.splits sum.splits)
    from "2.IH" [OF False u "2.prems"(2,4,5)] have d: "distinct (map slice_id (slices st1))" .
    from self_not_done [OF u subset_refl "2.prems"(2,3) False]
    have "slice_id s \<notin> done_ids st1" .
    moreover from load_preserves(2) [OF u "2.prems"(2,4)] have "load_inv library st1" by simp
    ultimately have "slice_id s \<notin> slice_id ` set (slices st1)"
      by (simp add: load_inv_def)
    with d show ?thesis by (simp add: st')
  qed
next
  case (3 fuel library index s st)
  then show ?case by simp
next
  case (4 fuel library index s usedPkgName rest st)
  show ?case
  proof (cases "skipped s usedPkgName")
    case True
    with "4.prems"(1) have "load_uses fuel library index s rest st = Some (Inr st')" by simp
    from "4.IH"(1) [OF True this "4.prems"(2,3,4)] show ?thesis .
  next
    case False
    with "4.prems"(1) obtain usedPkg where g: "getPackage library (ByName usedPkgName) = Inr usedPkg"
      by (auto split: sum.splits)
    from False g "4.prems"(1) obtain usedSlice where
      ix: "index (Use, sl_where s, b_id usedPkg) = Some usedSlice"
      by (auto split: option.splits)
    with "4.prems"(2) have key: "index (slice_id usedSlice) = Some usedSlice"
      by (simp add: index_wf_def)
    from False g ix "4.prems"(1) have ns: "slice_id usedSlice \<notin> onStack st"
      by (auto split: if_splits)
    from False g ix ns "4.prems"(1) obtain st1 where
      l: "load fuel library index usedSlice (st\<lparr>onStack := insert (slice_id usedSlice) (onStack st)\<rparr>) = Some (Inr st1)"
      and r: "load_uses fuel library index s rest (st1\<lparr>onStack := onStack st1 - {slice_id usedSlice}\<rparr>) = Some (Inr st')"
      by (auto split: option.splits sum.splits)
    from "4.IH"(2) [OF False g ix ns l "4.prems"(2) key] "4.prems"(3,4)
    have d1: "distinct (map slice_id (slices st1))" by simp
    from load_preserves(1) [OF l "4.prems"(2)] "4.prems"(3) have "load_inv library st1" by simp
    with "4.IH"(3) [OF False g ix ns l refl r "4.prems"(2)] d1 show ?thesis by simp
  qed
qed

lemma load_remaining:
  "load fuel library index s st = Some (Inr st') \<Longrightarrow> set (remaining st') \<subseteq> set (remaining st)"
  "load_uses fuel library index s names st = Some (Inr st') \<Longrightarrow> set (remaining st') \<subseteq> set (remaining st)"
proof (induction fuel library index s st and fuel library index s names st
    arbitrary: st' and st' rule: load_load_uses.induct)
  case (1 library index s st)
  then show ?case by simp
next
  case (2 fuel library index s st)
  show ?case
  proof (cases "slice_id s \<in> done_ids st")
    case True
    with "2.prems" show ?thesis by simp
  next
    case False
    with "2.prems"(1) obtain st1 where
      u: "load_uses fuel library index s (b_uses (sl_pkg s) (sl_role s) (sl_where s)) st = Some (Inr st1)"
      and st': "st' = st1\<lparr>slices := slices st1 @ [s],
                               done_ids := insert (slice_id s) (done_ids st1),
                               remaining := AList.delete (slice_id s) (remaining st1)\<rparr>"
      by (auto split: option.splits sum.splits)
    from "2.IH" [OF False u] show ?thesis by (auto simp: st' AList.delete_eq)
  qed
next
  case (3 fuel library index s st)
  then show ?case by simp
next
  case (4 fuel library index s usedPkgName rest st)
  show ?case
  proof (cases "skipped s usedPkgName")
    case True
    with "4.prems"(1) have "load_uses fuel library index s rest st = Some (Inr st')" by simp
    from "4.IH"(1) [OF True this] show ?thesis .
  next
    case False
    with "4.prems"(1) obtain usedPkg where g: "getPackage library (ByName usedPkgName) = Inr usedPkg"
      by (auto split: sum.splits)
    from False g "4.prems"(1) obtain usedSlice where
      ix: "index (Use, sl_where s, b_id usedPkg) = Some usedSlice"
      by (auto split: option.splits)
    from False g ix "4.prems"(1) have ns: "slice_id usedSlice \<notin> onStack st"
      by (auto split: if_splits)
    from False g ix ns "4.prems"(1) obtain st1 where
      l: "load fuel library index usedSlice (st\<lparr>onStack := insert (slice_id usedSlice) (onStack st)\<rparr>) = Some (Inr st1)"
      and r: "load_uses fuel library index s rest (st1\<lparr>onStack := onStack st1 - {slice_id usedSlice}\<rparr>) = Some (Inr st')"
      by (auto split: option.splits sum.splits)
    from "4.IH"(2) [OF False g ix ns l] "4.IH"(3) [OF False g ix ns l refl r]
    show ?thesis by auto
  qed
qed

lemma add_preserves:
  "add fuel library pkg r w st = Some (Inr st') \<Longrightarrow> add_inv st \<Longrightarrow> add_inv st'"
  "add_uses fuel library names w st = Some (Inr st') \<Longrightarrow> add_inv st \<Longrightarrow> add_inv st'"
proof (induction fuel library pkg r w st and fuel library names w st
    arbitrary: st' and st' rule: add_add_uses.induct)
  case (1 library pkg r w st)
  then show ?case by simp
next
  case (2 fuel library pkg r w st)
  show ?case
  proof (cases "sliceIndex st (r, w, b_id pkg) \<noteq> None")
    case True
    with "2.prems" show ?thesis by simp
  next
    case False
    let ?s = "\<lparr>sl_pkg = pkg, sl_role = r, sl_where = w\<rparr>"
    let ?st = "st\<lparr>sliceIndex := (sliceIndex st)((r, w, b_id pkg) \<mapsto> ?s),
                 slicesUnordered := slicesUnordered st @ [?s]\<rparr>"
    from False "2.prems"(1) have u: "add_uses fuel library (b_uses pkg r w) w ?st = Some (Inr st')"
      by simp
    have k: "slice_id ?s = (r, w, b_id pkg)" by (simp add: slice_id_def)
    have "add_inv ?st"
      unfolding add_inv_def
    proof (intro conjI ballI)
      show "index_wf (sliceIndex ?st)"
        using "2.prems"(2) k by (auto simp: add_inv_def index_wf_def)
    next
      fix s assume "s \<in> set (slicesUnordered ?st)"
      then consider "s = ?s" | "s \<in> set (slicesUnordered st)" by auto
      then show "sliceIndex ?st (slice_id s) = Some s"
      proof cases
        case 1
        then show ?thesis using k by simp
      next
        case 2
        with "2.prems"(2) have o: "sliceIndex st (slice_id s) = Some s" by (simp add: add_inv_def)
        with False have "slice_id s \<noteq> (r, w, b_id pkg)" by auto
        with o show ?thesis by simp
      qed
    qed
    from "2.IH" [OF False u this] show ?thesis .
  qed
next
  case (3 fuel library w st)
  then show ?case by simp
next
  case (4 fuel library usedPkgName rest w st)
  from "4.prems"(1) obtain usedPkg where g: "getPackage library (ByName usedPkgName) = Inr usedPkg"
    by (auto split: sum.splits)
  from g "4.prems"(1) obtain st1 where a: "add fuel library usedPkg Use w st = Some (Inr st1)"
    and r: "add_uses fuel library rest w st1 = Some (Inr st')"
    by (auto split: option.splits sum.splits)
  from "4.IH"(2) [OF g a refl r] "4.IH"(1) [OF g a "4.prems"(2)] show ?case by simp
qed

lemma add_roots_preserves:
  "add_roots fuel library r w refs st = Some (Inr st') \<Longrightarrow> add_inv st \<Longrightarrow> add_inv st'"
proof (induction refs arbitrary: st)
  case Nil
  then show ?case by simp
next
  case (Cons p refs)
  from Cons.prems(1) obtain pkg where g: "getPackage library p = Inr pkg"
    by (auto split: sum.splits)
  from g Cons.prems(1) obtain st1 where a: "add fuel library pkg r w st = Some (Inr st1)"
    and rest: "add_roots fuel library r w refs st1 = Some (Inr st')"
    by (auto split: option.splits sum.splits)
  from Cons.IH [OF rest add_preserves(1) [OF a Cons.prems(2)]] show ?case .
qed

lemma add_contents_preserves:
  "add_contents fuel library contents rws st = Some (Inr st') \<Longrightarrow> add_inv st \<Longrightarrow> add_inv st'"
proof (induction rws arbitrary: st)
  case Nil
  then show ?case by simp
next
  case (Cons rw rws)
  from Cons.prems(1) obtain st1 where
    a: "add_roots fuel library (fst rw) (snd rw) (contents (fst rw) (snd rw)) st = Some (Inr st1)"
    and rest: "add_contents fuel library contents rws st1 = Some (Inr st')"
    by (auto split: option.splits sum.splits)
  from Cons.IH [OF rest add_roots_preserves [OF a Cons.prems(2)]] show ?case .
qed

lemma set_update_subset: "set (AList.update k v al) \<subseteq> insert (k, v) (set al)"
  by (induction al) auto

lemma set_remaining_init:
  "set (fold (\<lambda>s. AList.update (slice_id s) s) xs acc) \<subseteq> set acc \<union> (\<lambda>s. (slice_id s, s)) ` set xs"
proof (induction xs arbitrary: acc)
  case Nil
  then show ?case by simp
next
  case (Cons x xs)
  from Cons.IH [of "AList.update (slice_id x) x acc"] set_update_subset [of "slice_id x" x acc]
  show ?case by auto
qed

lemma load_all_preserves:
  "load_all fuel library index st = Some (Inr st') \<Longrightarrow> index_wf index \<Longrightarrow>
     remaining_wf index st \<Longrightarrow> load_inv library st \<Longrightarrow> distinct (map slice_id (slices st)) \<Longrightarrow>
     load_inv library st' \<and> distinct (map slice_id (slices st'))"
proof (induction fuel arbitrary: st)
  case 0
  then show ?case by simp
next
  case (Suc fuel)
  show ?case
  proof (cases "remaining st")
    case Nil
    with Suc.prems show ?thesis by simp
  next
    case (Cons first others)
    with Suc.prems(1) obtain st1 where l: "load fuel library index (snd first) st = Some (Inr st1)"
      and rest: "load_all fuel library index st1 = Some (Inr st')"
      by (auto split: option.splits sum.splits)
    from Cons Suc.prems(3) have key: "index (slice_id (snd first)) = Some (snd first)"
      by (simp add: remaining_wf_def)
    from load_preserves(1) [OF l Suc.prems(2,4)] have i1: "load_inv library st1" by simp
    from load_distinct(1) [OF l Suc.prems(2) key Suc.prems(4,5)]
    have d1: "distinct (map slice_id (slices st1))" .
    from load_remaining(1) [OF l] Suc.prems(3) have r1: "remaining_wf index st1"
      unfolding remaining_wf_def by blast
    from Suc.IH [OF rest Suc.prems(2) r1 i1 d1] show ?thesis .
  qed
qed

lemma load_uses_skips:
  "load_uses fuel library index s (filter (\<lambda>n. \<not> skipped s n) names) st =
   load_uses fuel library index s names st"
proof (induction names arbitrary: st)
  case Nil
  then show ?case by simp
next
  case (Cons n names)
  show ?case
  proof (cases "skipped s n")
    case True
    then show ?thesis by (simp add: Cons.IH)
  next
    case False
    then show ?thesis
      by (simp add: Cons.IH split: sum.splits option.splits)
  qed
qed


lemma mk_pkg_sel [simp]:
  "b_id (mk_pkg i name uses unord) = i"
  "b_name (mk_pkg i name uses unord) = name"
  "b_uses (mk_pkg i name uses unord) r w = (if r = Use then uses else [])"
  "b_unordered (mk_pkg i name uses unord) n = (n \<in> set unord)"
  by (simp_all add: mk_pkg_def)

lemma cycle_exits:
  "determineLoadOrder 10 cycle_library app_contents [] =
     Some (Inl (Exit ''fatal: circular dependency between packages b and a''))"
  by (simp add: determineLoadOrder_def eval_nat_numeral app_contents_def cycle_library_def
      getPackage_def slice_id_def skipped_def truthy_def js_string_def)

lemma unordered_loads:
  "determineLoadOrder 10 unordered_library app_contents [] =
     Some (Inr [\<lparr>sl_pkg = mk_pkg 2 (Some ''a'') [''b''] [''b''], sl_role = Use, sl_where = Client\<rparr>,
                \<lparr>sl_pkg = mk_pkg 1 None [''a''] [], sl_role = Use, sl_where = Client\<rparr>,
                \<lparr>sl_pkg = mk_pkg 3 (Some ''b'') [''a''] [], sl_role = Use, sl_where = Client\<rparr>,
                \<lparr>sl_pkg = mk_pkg 2 (Some ''a'') [''b''] [''b''], sl_role = Use, sl_where = Server\<rparr>,
                \<lparr>sl_pkg = mk_pkg 1 None [''a''] [], sl_role = Use, sl_where = Server\<rparr>,
                \<lparr>sl_pkg = mk_pkg 3 (Some ''b'') [''a''] [], sl_role = Use, sl_where = Server\<rparr>])"
  by (simp add: determineLoadOrder_def eval_nat_numeral app_contents_def unordered_library_def
      getPackage_def slice_id_def skipped_def truthy_def)

text \<open>
  C1.  When \<^verbatim>\<open>determineLoadOrder\<close> returns normally, the slices it has put into
  \<^verbatim>\<open>Bundle.slices\<close> are in load order: for every slice and every edge in its
  \<^verbatim>\<open>uses[role][where]\<close> that is not skipped, the \<^verbatim>\<open>use\<close> slice of the used package for the
  same arch stands strictly before it, and no slice stands in the list twice.  An edge
  is skipped when the using package has a name and marks the edge unordered; such edges
  put no constraint on the order, since the walk over the edges of a slice is the walk
  over those that are not skipped.
\<close>

theorem load_order_respects_uses:
  "(determineLoadOrder fuel library contents [] = Some (Inr ss) \<longrightarrow>
      in_load_order library ss \<and> distinct (map slice_id ss))
   \<and> load_uses fuel' library index s (filter (\<lambda>n. \<not> skipped s n) names) st =
       load_uses fuel' library index s names st"
proof (intro conjI impI)
  assume d: "determineLoadOrder fuel library contents [] = Some (Inr ss)"
  then obtain added where
    a: "add_contents fuel library contents
             [(Use, Client), (Use, Server), (Test, Client), (Test, Server)]
             \<lparr>sliceIndex = (\<lambda>k. None), slicesUnordered = []\<rparr> = Some (Inr added)"
    by (auto simp: determineLoadOrder_def split: option.splits sum.splits)
  let ?st = "\<lparr>done_ids = {},
                   remaining = fold (\<lambda>s. AList.update (slice_id s) s) (slicesUnordered added) [],
                   onStack = {},
                   slices = []\<rparr>"
  from d a obtain st' where l: "load_all fuel library (sliceIndex added) ?st = Some (Inr st')"
    and ss: "ss = slices st'"
    by (auto simp: determineLoadOrder_def split: option.splits sum.splits)
  have "add_inv \<lparr>sliceIndex = (\<lambda>k. None), slicesUnordered = []\<rparr>"
    by (simp add: add_inv_def index_wf_def)
  from add_contents_preserves [OF a this] have ai: "add_inv added" .
  then have wf: "index_wf (sliceIndex added)" by (simp add: add_inv_def)
  have rw: "remaining_wf (sliceIndex added) ?st"
    unfolding remaining_wf_def
  proof
    fix ks assume "ks \<in> set (remaining ?st)"
    with set_remaining_init [of "slicesUnordered added" "[]"]
    have "snd ks \<in> set (slicesUnordered added)" by auto
    with ai show "sliceIndex added (slice_id (snd ks)) = Some (snd ks)"
      by (simp add: add_inv_def)
  qed
  have "load_inv library ?st" by (simp add: load_inv_def)
  from load_all_preserves [OF l wf rw this] have "load_inv library st'"
    and "distinct (map slice_id (slices st'))" by simp_all
  then show "in_load_order library ss" and "distinct (map slice_id ss)"
    by (simp_all add: ss load_inv_def ordered_in_load_order)
next
  show "load_uses fuel' library index s (filter (\<lambda>n. \<not> skipped s n) names) st =
       load_uses fuel' library index s names st"
    by (rule load_uses_skips)
qed

theorem load_order_respects_uses_witness:
  "determineLoadOrder 10 unordered_library app_contents [] =
     Some (Inr [\<lparr>sl_pkg = mk_pkg 2 (Some ''a'') [''b''] [''b''], sl_role = Use, sl_where = Client\<rparr>,
                \<lparr>sl_pkg = mk_pkg 1 None [''a''] [], sl_role = Use, sl_where = Client\<rparr>,
                \<lparr>sl_pkg = mk_pkg 3 (Some ''b'') [''a''] [], sl_role = Use, sl_where = Client\<rparr>,
                \<lparr>sl_pkg = mk_pkg 2 (Some ''a'') [''b''] [''b''], sl_role = Use, sl_where = Server\<rparr>,
                \<lparr>sl_pkg = mk_pkg 1 None [''a''] [], sl_role = Use, sl_where = Server\<rparr>,
                \<lparr>sl_pkg = mk_pkg 3 (Some ''b'') [''a''] [], sl_role = Use, sl_where = Server\<rparr>])
   \<and> in_load_order unordered_library
        [\<lparr>sl_pkg = mk_pkg 2 (Some ''a'') [''b''] [''b''], sl_role = Use, sl_where = Client\<rparr>,
         \<lparr>sl_pkg = mk_pkg 1 None [''a''] [], sl_role = Use, sl_where = Client\<rparr>,
         \<lparr>sl_pkg = mk_pkg 3 (Some ''b'') [''a''] [], sl_role = Use, sl_where = Client\<rparr>,
         \<lparr>sl_pkg = mk_pkg 2 (Some ''a'') [''b''] [''b''], sl_role = Use, sl_where = Server\<rparr>,
         \<lparr>sl_pkg = mk_pkg 1 None [''a''] [], sl_role = Use, sl_where = Server\<rparr>,
         \<lparr>sl_pkg = mk_pkg 3 (Some ''b'') [''a''] [], sl_role = Use, sl_where = Server\<rparr>]
   \<and> skipped \<lparr>sl_pkg = mk_pkg 2 (Some ''a'') [''b''] [''b''], sl_role = Use, sl_where = Client\<rparr> ''b''"
  using load_order_respects_uses [where fuel = 10 and library = unordered_library
      and contents = app_contents] unordered_loads
  by (simp add: skipped_def truthy_def)
section \<open>Minification\<close>

lemma take_client_pair:
  "take_client p (acc, fl) =
     (case map_of fl p of
        None \<Rightarrow> Inl (TypeError ''Cannot call method toString of undefined'')
      | Some data \<Rightarrow> Inr (acc @ [data], AList.delete p fl))"
  by (simp add: take_client_def split: option.splits)

lemma take_client_loop:
  assumes "each_e take_client ps (acc, fl) = Inr (parts, fl')"
  shows "\<exists>ds. parts = acc @ ds \<and> map Some ds = map (map_of fl) ps \<and> distinct ps
          \<and> map_of fl' = (\<lambda>q. if q \<in> set ps then None else map_of fl q)"
  using assms
proof (induction ps arbitrary: acc fl)
  case Nil
  then show ?case by auto
next
  case (Cons p ps)
  from Cons.prems obtain d where d: "map_of fl p = Some d"
    and rest: "each_e take_client ps (acc @ [d], AList.delete p fl) = Inr (parts, fl')"
    by (auto simp: take_client_pair split: option.splits)
  from Cons.IH [OF rest] obtain ds where ds: "parts = (acc @ [d]) @ ds"
    and m: "map Some ds = map (map_of (AList.delete p fl)) ps" and di: "distinct ps"
    and f: "map_of fl' = (\<lambda>q. if q \<in> set ps then None else map_of (AList.delete p fl) q)"
    by blast
  have np: "p \<notin> set ps"
  proof
    assume "p \<in> set ps"
    then have "map_of (AList.delete p fl) p \<in> set (map (map_of (AList.delete p fl)) ps)" by simp
    with m have "map_of (AList.delete p fl) p \<in> set (map Some ds)" by simp
    then show False by (auto simp: delete_conv')
  qed
  then have "map (map_of (AList.delete p fl)) ps = map (map_of fl) ps"
    by (intro map_cong) (auto simp: delete_conv')
  with m have m': "map Some (d # ds) = map (map_of fl) (p # ps)" by (simp add: d)
  have f': "map_of fl' = (\<lambda>q. if q \<in> set (p # ps) then None else map_of fl q)"
    by (auto simp: f delete_conv' fun_eq_iff)
  from ds m' di np f' show ?case
    by (intro exI [of _ "d # ds"]) simp
qed

lemma take_client_total:
  assumes "distinct ps" "\<forall>p \<in> set ps. map_of fl p \<noteq> None"
  shows "\<exists>parts fl'. each_e take_client ps (acc, fl) = Inr (parts, fl')"
  using assms
proof (induction ps arbitrary: acc fl)
  case Nil
  then show ?case by simp
next
  case (Cons p ps)
  from Cons.prems obtain d where d: "map_of fl p = Some d" by auto
  have "\<forall>q \<in> set ps. map_of (AList.delete p fl) q \<noteq> None"
    using Cons.prems by (auto simp: delete_conv')
  with Cons.IH [of "AList.delete p fl" "acc @ [d]"] Cons.prems(1)
  show ?case by (simp add: take_client_pair d)
qed

lemma js_css_names: "''/'' @ h @ ''.js'' \<noteq> ''/'' @ h' @ ''.css''"
proof
  assume "''/'' @ h @ ''.js'' = ''/'' @ h' @ ''.css''"
  then have "rev (h @ ''.js'') = rev (h' @ ''.css'')" by simp
  then show False by simp
qed

lemma minify_Inr:
  assumes "minify t b = Inr b'"
  obtains parts fl1 finalCode cssParts fl2 finalCss where
    "each_e take_client (bn_js b Client) ([], bn_client b) = Inr (parts, fl1)"
    "t_uglify t (js_join [CHR 0x0A, CHR '';'', CHR 0x0A] parts) = Some finalCode"
    "each_e take_client (bn_css b) ([], fl1) = Inr (cssParts, fl2)"
    "t_cleanCSS t (concat (map (\<lambda>cssData. CHR 0x0A # cssData) cssParts)) = Some finalCss"
    "b' = addFile t ''css'' finalCss
            ((addFile t ''js'' finalCode (b\<lparr>bn_client := fl1, bn_js := (bn_js b)(Client := [])\<rparr>))
               \<lparr>bn_client := fl2, bn_css := []\<rparr>)"
proof -
  obtain r1 where r1: "each_e take_client (bn_js b Client) ([], bn_client b) = r1" by simp
  with assms obtain parts fl1 where j: "r1 = Inr (parts, fl1)"
    by (cases r1) (auto simp: minify_def)
  from assms r1 j obtain finalCode where
    u: "t_uglify t (js_join [CHR 0x0A, CHR '';'', CHR 0x0A] parts) = Some finalCode"
    by (cases "t_uglify t (js_join [CHR 0x0A, CHR '';'', CHR 0x0A] parts)") (auto simp: minify_def)
  let ?b1 = "addFile t ''js'' finalCode (b\<lparr>bn_client := fl1, bn_js := (bn_js b)(Client := [])\<rparr>)"
  have c1: "bn_css ?b1 = bn_css b" "bn_client ?b1 = fl1"
    by (simp_all add: addFile_def Let_def)
  obtain r2 where r2: "each_e take_client (bn_css b) ([], fl1) = r2" by simp
  with assms r1 j u c1 obtain cssParts fl2 where k: "r2 = Inr (cssParts, fl2)"
    by (cases r2) (auto simp: minify_def Let_def)
  from assms r1 j u c1 r2 k obtain finalCss where
    c: "t_cleanCSS t (concat (map (\<lambda>cssData. CHR 0x0A # cssData) cssParts)) = Some finalCss"
    by (cases "t_cleanCSS t (concat (map (\<lambda>cssData. CHR 0x0A # cssData) cssParts))")
      (auto simp: minify_def Let_def)
  from assms r1 j u c1 r2 k c have "b' = addFile t ''css'' finalCss (?b1\<lparr>bn_client := fl2, bn_css := []\<rparr>)"
    by (simp add: minify_def Let_def)
  with r1 j u r2 k c show thesis by (intro that [of parts fl1 finalCode cssParts fl2 finalCss]) simp_all
qed

lemma example_tools_sel [simp]:
  "t_sha1 example_tools c = ''sha1-of-'' @ c"
  "t_uglify example_tools x = Some x"
  "t_cleanCSS example_tools x = Some x"
  by (simp_all add: example_tools_def)

lemma minify_empty:
  "minify example_tools (new_Bundle None) =
     Inr ((new_Bundle None)
       \<lparr>bn_clientCacheable := [(''/sha1-of-.js'', ''''), (''/sha1-of-.css'', '''')],
        bn_manifest :=
          [\<lparr>m_path = ''static_cacheable/sha1-of-.js'', m_where = ''client'', m_type = Some ''js'',
            m_cacheable = Some True, m_url = Some ''/sha1-of-.js'', m_size = Some 0,
            m_hash = ''sha1-of-''\<rparr>,
           \<lparr>m_path = ''static_cacheable/sha1-of-.css'', m_where = ''client'', m_type = Some ''css'',
            m_cacheable = Some True, m_url = Some ''/sha1-of-.css'', m_size = Some 0,
            m_hash = ''sha1-of-''\<rparr>]\<rparr>)"
  by (simp add: minify_def new_Bundle_def addFile_def Let_def fun_eq_iff)


lemma minify_two_scripts: "minify example_tools two_scripts = Inr two_minified"
  by (simp add: minify_def two_scripts_def new_Bundle_def addFile_def Let_def take_client_pair
      two_minified_def fun_eq_iff)


text \<open>
  C8, as the code has it.  \<^verbatim>\<open>minify\<close> adds a cacheable \<^verbatim>\<open>js\<close> entry and a cacheable \<^verbatim>\<open>css\<close>
  entry to the manifest whatever the lists hold, so also for an empty list of client
  scripts.  When it returns normally, the \<^verbatim>\<open>js\<close> entry is the one entry it adds for the
  scripts: its url and the key under which the code is stored are \<^verbatim>\<open>/<h>.js\<close>, where
  \<^verbatim>\<open>h\<close> is the digest of the minified text of the client scripts joined by a newline, a
  semicolon and a newline; the scripts are no longer in the staged client files, and the
  list of client scripts is empty.  It does return normally when the staged paths are
  distinct and present and the two minifiers accept every input.
\<close>

theorem minify_one_entry:
  "(minify t b = Inr b' \<longrightarrow>
     (\<exists>parts finalCode finalCss.
        map Some parts = map (map_of (bn_client b)) (bn_js b Client)
        \<and> t_uglify t (js_join [CHR 0x0A, CHR '';'', CHR 0x0A] parts) = Some finalCode
        \<and> bn_manifest b' = bn_manifest b @
            [\<lparr>m_path = ''static_cacheable'' @ (''/'' @ t_sha1 t finalCode @ ''.js''),
              m_where = ''client'', m_type = Some ''js'', m_cacheable = Some True,
              m_url = Some (''/'' @ t_sha1 t finalCode @ ''.js''),
              m_size = Some (length finalCode), m_hash = t_sha1 t finalCode\<rparr>,
             \<lparr>m_path = ''static_cacheable'' @ (''/'' @ t_sha1 t finalCss @ ''.css''),
              m_where = ''client'', m_type = Some ''css'', m_cacheable = Some True,
              m_url = Some (''/'' @ t_sha1 t finalCss @ ''.css''),
              m_size = Some (length finalCss), m_hash = t_sha1 t finalCss\<rparr>]
        \<and> map_of (bn_clientCacheable b') (''/'' @ t_sha1 t finalCode @ ''.js'') = Some finalCode
        \<and> (\<forall>p \<in> set (bn_js b Client). map_of (bn_client b') p = None)
        \<and> bn_js b' Client = []))
   \<and> (distinct (bn_js b Client @ bn_css b)
        \<and> (\<forall>p \<in> set (bn_js b Client @ bn_css b). map_of (bn_client b) p \<noteq> None)
        \<and> (\<forall>x. t_uglify t x \<noteq> None \<and> t_cleanCSS t x \<noteq> None) \<longrightarrow>
        (\<exists>b''. minify t b = Inr b''))"
proof (intro conjI impI)
  assume "minify t b = Inr b'"
  then obtain parts fl1 finalCode cssParts fl2 finalCss where
    j: "each_e take_client (bn_js b Client) ([], bn_client b) = Inr (parts, fl1)"
    and u: "t_uglify t (js_join [CHR 0x0A, CHR '';'', CHR 0x0A] parts) = Some finalCode"
    and k: "each_e take_client (bn_css b) ([], fl1) = Inr (cssParts, fl2)"
    and b': "b' = addFile t ''css'' finalCss
            ((addFile t ''js'' finalCode (b\<lparr>bn_client := fl1, bn_js := (bn_js b)(Client := [])\<rparr>))
               \<lparr>bn_client := fl2, bn_css := []\<rparr>)"
    by (rule minify_Inr)
  from take_client_loop [OF j] have p: "map Some parts = map (map_of (bn_client b)) (bn_js b Client)"
    and f1: "map_of fl1 = (\<lambda>q. if q \<in> set (bn_js b Client) then None else map_of (bn_client b) q)"
    by auto
  from take_client_loop [OF k]
  have f2: "map_of fl2 = (\<lambda>q. if q \<in> set (bn_css b) then None else map_of fl1 q)"
    by auto
  have m: "bn_manifest b' = bn_manifest b @
            [\<lparr>m_path = ''static_cacheable'' @ (''/'' @ t_sha1 t finalCode @ ''.js''),
              m_where = ''client'', m_type = Some ''js'', m_cacheable = Some True,
              m_url = Some (''/'' @ t_sha1 t finalCode @ ''.js''),
              m_size = Some (length finalCode), m_hash = t_sha1 t finalCode\<rparr>,
             \<lparr>m_path = ''static_cacheable'' @ (''/'' @ t_sha1 t finalCss @ ''.css''),
              m_where = ''client'', m_type = Some ''css'', m_cacheable = Some True,
              m_url = Some (''/'' @ t_sha1 t finalCss @ ''.css''),
              m_size = Some (length finalCss), m_hash = t_sha1 t finalCss\<rparr>]"
    by (simp add: b' addFile_def Let_def)
  have c: "map_of (bn_clientCacheable b') (''/'' @ t_sha1 t finalCode @ ''.js'') = Some finalCode"
    using js_css_names [of "t_sha1 t finalCode" "t_sha1 t finalCss"]
    by (simp add: b' addFile_def Let_def update_conv')
  have r: "\<forall>p \<in> set (bn_js b Client). map_of (bn_client b') p = None"
    by (simp add: b' addFile_def Let_def f2 f1)
  have e: "bn_js b' Client = []"
    by (simp add: b' addFile_def Let_def)
  from p u m c r e show "\<exists>parts finalCode finalCss.
        map Some parts = map (map_of (bn_client b)) (bn_js b Client)
        \<and> t_uglify t (js_join [CHR 0x0A, CHR '';'', CHR 0x0A] parts) = Some finalCode
        \<and> bn_manifest b' = bn_manifest b @
            [\<lparr>m_path = ''static_cacheable'' @ (''/'' @ t_sha1 t finalCode @ ''.js''),
              m_where = ''client'', m_type = Some ''js'', m_cacheable = Some True,
              m_url = Some (''/'' @ t_sha1 t finalCode @ ''.js''),
              m_size = Some (length finalCode), m_hash = t_sha1 t finalCode\<rparr>,
             \<lparr>m_path = ''static_cacheable'' @ (''/'' @ t_sha1 t finalCss @ ''.css''),
              m_where = ''client'', m_type = Some ''css'', m_cacheable = Some True,
              m_url = Some (''/'' @ t_sha1 t finalCss @ ''.css''),
              m_size = Some (length finalCss), m_hash = t_sha1 t finalCss\<rparr>]
        \<and> map_of (bn_clientCacheable b') (''/'' @ t_sha1 t finalCode @ ''.js'') = Some finalCode
        \<and> (\<forall>p \<in> set (bn_js b Client). map_of (bn_client b') p = None)
        \<and> bn_js b' Client = []"
    by (intro exI [of _ parts] exI [of _ finalCode] exI [of _ finalCss]) simp
next
  assume a: "distinct (bn_js b Client @ bn_css b)
        \<and> (\<forall>p \<in> set (bn_js b Client @ bn_css b). map_of (bn_client b) p \<noteq> None)
        \<and> (\<forall>x. t_uglify t x \<noteq> None \<and> t_cleanCSS t x \<noteq> None)"
  then have "distinct (bn_js b Client)" "\<forall>p \<in> set (bn_js b Client). map_of (bn_client b) p \<noteq> None"
    by auto
  from take_client_total [OF this, of "[]"] obtain parts fl1 where
    j: "each_e take_client (bn_js b Client) ([], bn_client b) = Inr (parts, fl1)" by blast
  from a have "t_uglify t (js_join [CHR 0x0A, CHR '';'', CHR 0x0A] parts) \<noteq> None" by blast
  then obtain finalCode where
    u: "t_uglify t (js_join [CHR 0x0A, CHR '';'', CHR 0x0A] parts) = Some finalCode" by blast
  from take_client_loop [OF j]
  have f1: "map_of fl1 = (\<lambda>q. if q \<in> set (bn_js b Client) then None else map_of (bn_client b) q)"
    by auto
  from a have "distinct (bn_css b)" "\<forall>p \<in> set (bn_css b). map_of fl1 p \<noteq> None"
    by (auto simp: f1)
  from take_client_total [OF this, of "[]"] obtain cssParts fl2 where
    k: "each_e take_client (bn_css b) ([], fl1) = Inr (cssParts, fl2)" by blast
  from a have "t_cleanCSS t (concat (map (\<lambda>cssData. CHR 0x0A # cssData) cssParts)) \<noteq> None" by blast
  then obtain finalCss where
    c: "t_cleanCSS t (concat (map (\<lambda>cssData. CHR 0x0A # cssData) cssParts)) = Some finalCss" by blast
  show "\<exists>b''. minify t b = Inr b''"
    by (simp add: minify_def j u Let_def addFile_def k c)
qed


theorem minify_one_entry_witness:
  "minify example_tools two_scripts = Inr two_minified
   \<and> distinct (bn_js two_scripts Client @ bn_css two_scripts)
   \<and> (\<exists>parts finalCode finalCss.
        map Some parts = map (map_of (bn_client two_scripts)) (bn_js two_scripts Client)
        \<and> t_uglify example_tools (js_join [CHR 0x0A, CHR '';'', CHR 0x0A] parts) = Some finalCode
        \<and> bn_manifest two_minified = bn_manifest two_scripts @
            [\<lparr>m_path = ''static_cacheable'' @ (''/'' @ t_sha1 example_tools finalCode @ ''.js''),
              m_where = ''client'', m_type = Some ''js'', m_cacheable = Some True,
              m_url = Some (''/'' @ t_sha1 example_tools finalCode @ ''.js''),
              m_size = Some (length finalCode), m_hash = t_sha1 example_tools finalCode\<rparr>,
             \<lparr>m_path = ''static_cacheable'' @ (''/'' @ t_sha1 example_tools finalCss @ ''.css''),
              m_where = ''client'', m_type = Some ''css'', m_cacheable = Some True,
              m_url = Some (''/'' @ t_sha1 example_tools finalCss @ ''.css''),
              m_size = Some (length finalCss), m_hash = t_sha1 example_tools finalCss\<rparr>]
        \<and> map_of (bn_clientCacheable two_minified) (''/'' @ t_sha1 example_tools finalCode @ ''.js'') =
            Some finalCode
        \<and> (\<forall>p \<in> set (bn_js two_scripts Client). map_of (bn_client two_minified) p = None)
        \<and> bn_js two_minified Client = [])
   \<and> map m_url (bn_manifest two_minified) =
        [Some (''/sha1-of-A'' @ [CHR 0x0A, CHR '';'', CHR 0x0A] @ ''B.js''), Some ''/sha1-of-.css'']"
proof -
  have "distinct (bn_js two_scripts Client @ bn_css two_scripts)"
    by (simp add: two_scripts_def new_Bundle_def)
  moreover have "map m_url (bn_manifest two_minified) =
        [Some (''/sha1-of-A'' @ [CHR 0x0A, CHR '';'', CHR 0x0A] @ ''B.js''), Some ''/sha1-of-.css'']"
    by (simp add: two_minified_def)
  ultimately show ?thesis
    using minify_one_entry [where t = example_tools and b = two_scripts and b' = two_minified]
      minify_two_scripts
    by blast
qed


text \<open>
  With no client script staged, the manifest still gets a cacheable \<^verbatim>\<open>js\<close> entry: the one
  for the minified empty text.
\<close>

theorem minify_empty_counterexample:
  "bn_js (new_Bundle None) Client = []
   \<and> (case minify example_tools (new_Bundle None) of
         Inl e \<Rightarrow> []
       | Inr b' \<Rightarrow> filter (\<lambda>m. m_type m = Some ''js'' \<and> m_cacheable m = Some True) (bn_manifest b')) =
       [\<lparr>m_path = ''static_cacheable/sha1-of-.js'', m_where = ''client'', m_type = Some ''js'',
         m_cacheable = Some True, m_url = Some ''/sha1-of-.js'', m_size = Some 0,
         m_hash = ''sha1-of-''\<rparr>]"
  by (simp add: minify_empty) (simp add: new_Bundle_def)
section \<open>The bundle operation\<close>

subsection \<open>Errors\<close>

text \<open>What \<^verbatim>\<open>files.rm_recursive\<close> is given, and all below it, is gone afterwards.\<close>

lemma rm_recursive_removes: "under p q \<Longrightarrow> map_of (rm_recursive p fs) q = None"
  by (auto simp add: rm_recursive_def map_of_eq_None_iff)

text \<open>
  C4, as the code has it.  Take a call of \<^verbatim>\<open>bundle\<close> whose options pass the checks before
  \<^verbatim>\<open>try\<close>, and in which an exception \<open>e\<close> is thrown inside \<^verbatim>\<open>try\<close>: in the phases
  before the bundle is written, with the file system \<open>fs\<close> still as it was, or in
  \<^verbatim>\<open>writeToDirectory\<close>, which leaves the file system \<open>fs'\<close>.  Then \<^verbatim>\<open>bundle\<close> returns, its
  \<^verbatim>\<open>errors\<close> hold the one string that ends in the message of \<open>e\<close>, and the file system
  it leaves is \<open>fs'\<close> without the output path: nothing at or below the output path is
  left.  The handler removes the output path only; what else \<^verbatim>\<open>writeToDirectory\<close> wrote
  stays as it is in \<open>fs'\<close>.
\<close>

theorem bundle_error_cleanup:
  assumes "truthy (bo_nodeModulesMode options)"
    and "bo_library options = Some lib"
    and "truthy (bo_releaseStamp options)"
    and "caught e"
    and "prepare fuel t lib appDir options = Some (Inl e) \<and> fs' = fs \<or>
         (\<exists>b. prepare fuel t lib appDir options = Some (Inr b) \<and>
              w_error (writeToDirectory t outputPath appDir
                         (key_of (bo_nodeModulesMode options)) b fs) = Some e \<and>
              fs' = w_fs (writeToDirectory t outputPath appDir
                            (key_of (bo_nodeModulesMode options)) b fs))"
  shows "bundle_op fuel t appDir outputPath (Some options) fs =
           Some (Returns \<lparr>br_errors = Some [''Exception while bundling application:'' @
                                            [CHR 0x0A] @ message e],
                          br_dependencyInfo = None\<rparr>,
                 rm_recursive outputPath fs') \<and>
         (\<forall>p. under outputPath p \<longrightarrow> map_of (rm_recursive outputPath fs') p = None)"
proof
  from assms(5) show "bundle_op fuel t appDir outputPath (Some options) fs =
           Some (Returns \<lparr>br_errors = Some [''Exception while bundling application:'' @
                                            [CHR 0x0A] @ message e],
                          br_dependencyInfo = None\<rparr>,
                 rm_recursive outputPath fs')"
  proof
    assume "prepare fuel t lib appDir options = Some (Inl e) \<and> fs' = fs"
    with assms(1-4) show ?thesis
      by (cases e) (simp_all add: bundle_op_def caught_def)
  next
    assume "\<exists>b. prepare fuel t lib appDir options = Some (Inr b) \<and>
              w_error (writeToDirectory t outputPath appDir
                         (key_of (bo_nodeModulesMode options)) b fs) = Some e \<and>
              fs' = w_fs (writeToDirectory t outputPath appDir
                            (key_of (bo_nodeModulesMode options)) b fs)"
    then obtain b where "prepare fuel t lib appDir options = Some (Inr b)"
      and "w_error (writeToDirectory t outputPath appDir
                         (key_of (bo_nodeModulesMode options)) b fs) = Some e"
      and "fs' = w_fs (writeToDirectory t outputPath appDir
                            (key_of (bo_nodeModulesMode options)) b fs)"
      by (elim exE conjE)
    with assms(1-4) show ?thesis
      by (cases e) (simp_all add: bundle_op_def caught_def Let_def)
  qed
  show "\<forall>p. under outputPath p \<longrightarrow> map_of (rm_recursive outputPath fs') p = None"
    by (simp add: rm_recursive_removes)
qed

subsection \<open>An application that is bundled\<close>

lemma app_package_sel [simp]:
  "b_id app_package = 1" "b_name app_package = None" "b_uses app_package r w = []"
  "b_npmDependencies app_package = False" "b_ensureCompiled app_package = None"
  "b_resources app_package r w = (if r = Use \<and> w = Client
                               then [\<lparr>r_type = ''static'', r_data = ''hello'',
                                      r_servePath = Some ''/main.txt''\<rparr>]
                               else [])"
  "b_prelinkFiles app_package r w = []" "b_boundary app_package r w = []"
  "b_dependencyFileShas app_package = []" "b_registeredExtensions app_package r w = []"
  by (simp_all add: app_package_def mk_pkg_def)

lemma app_order:
  "determineLoadOrder 10 (\<lambda>name. None)
     (\<lambda>r w. case r of Use \<Rightarrow> [ByObject app_package] | Test \<Rightarrow> []) [] =
   Some (Inr [\<lparr>sl_pkg = app_package, sl_role = Use, sl_where = Client\<rparr>,
              \<lparr>sl_pkg = app_package, sl_role = Use, sl_where = Server\<rparr>])"
  by (simp add: determineLoadOrder_def eval_nat_numeral getPackage_def slice_id_def)

lemma example_tools_link [simp]:
  "t_link example_tools args = Inr (case la_prelinkFiles args of None \<Rightarrow> [] | Some fs \<Rightarrow> fs)"
  by (simp add: example_tools_def)

lemma prepare_app: "prepare 10 example_tools app_library ''/app'' skip_options = Some (Inr staged)"
proof -
  have l: "lib_getForApp app_library ''/app'' = Inr app_package" "lib_get app_library = (\<lambda>name. None)"
    by (simp_all add: app_library_def)
  have o: "bo_testPackages skip_options = None" "bo_releaseStamp skip_options = Some ''none''"
    "bo_minify skip_options = False"
    by (simp_all add: skip_options_def)
  have n: "bn_slices (new_Bundle (Some ''none'')) = []"
    by (simp add: new_Bundle_def)
  have c: "(\<lambda>r w. case r of Use \<Rightarrow> [ByObject app_package]
                   | Test \<Rightarrow> (case bo_testPackages skip_options of None \<Rightarrow> [] | Some ps \<Rightarrow> ps)) =
           (\<lambda>r w. case r of Use \<Rightarrow> [ByObject app_package] | Test \<Rightarrow> [])"
    by (simp add: o fun_eq_iff split: role.splits)
  show ?thesis
    by (simp add: prepare_def l o n c app_order)
       (simp add: o prepNodeModules_def prep_slice_def emitResources_def emit_slice_def
          emit_resource_def set_file_def key_of_def staged_def new_Bundle_def fun_eq_iff)
qed

text \<open>
  The development bundle lacks its version file, so \<^verbatim>\<open>writeToDirectory\<close> throws when it
  reads it: the errors hold the message and the old output directory is gone.
\<close>

theorem bundle_error_cleanup_witness:
  "bundle_op 10 example_tools ''/app'' ''/out/bundle'' (Some skip_options) broken_fs =
     Some (Returns \<lparr>br_errors =
                      Some [''Exception while bundling application:'' @ [CHR 0x0A] @
                            ''ENOENT, no such file or directory /meteor/dev_bundle/.bundle_version.txt''],
                    br_dependencyInfo = None\<rparr>,
           rm_recursive ''/out/bundle''
             (w_fs (writeToDirectory example_tools ''/out/bundle'' ''/app'' ''skip'' staged broken_fs))) \<and>
   map_of (rm_recursive ''/out/bundle''
             (w_fs (writeToDirectory example_tools ''/out/bundle'' ''/app'' ''skip'' staged broken_fs)))
     ''/out/bundle/main.js'' = None"
proof -
  have m: "truthy (bo_nodeModulesMode skip_options)" "bo_library skip_options = Some app_library"
    "truthy (bo_releaseStamp skip_options)" "key_of (bo_nodeModulesMode skip_options) = ''skip''"
    by (simp_all add: skip_options_def truthy_def key_of_def)
  have c: "caught (Thrown ''ENOENT, no such file or directory /meteor/dev_bundle/.bundle_version.txt'')"
    by (simp add: caught_def)
  have w: "w_error (writeToDirectory example_tools ''/out/bundle'' ''/app'' ''skip'' staged broken_fs) =
             Some (Thrown ''ENOENT, no such file or directory /meteor/dev_bundle/.bundle_version.txt'')"
    by code_simp
  have u: "under ''/out/bundle'' ''/out/bundle/main.js''"
    by (simp add: under_def)
  from bundle_error_cleanup [where options = skip_options and lib = app_library
      and e = "Thrown ''ENOENT, no such file or directory /meteor/dev_bundle/.bundle_version.txt''"
      and fuel = 10 and t = example_tools and appDir = "''/app''" and outputPath = "''/out/bundle''"
      and fs = broken_fs
      and fs' = "w_fs (writeToDirectory example_tools ''/out/bundle'' ''/app'' ''skip'' staged broken_fs)",
      OF m(1) m(2) m(3) c]
  show ?thesis
    using u by (simp add: m(4) prepare_app w message_def)
qed

text \<open>
  In the same call the exception is thrown after the build area was set up and the
  server was copied to it.  \<^verbatim>\<open>bundle\<close> returns the error, and the build directory
  \<^verbatim>\<open>/out/.build.bundle\<close> with what was written to it is still there.
\<close>

theorem build_directory_counterexample:
  "bundle_op 10 example_tools ''/app'' ''/out/bundle'' (Some skip_options) broken_fs =
     Some (Returns \<lparr>br_errors =
                      Some [''Exception while bundling application:'' @ [CHR 0x0A] @
                            ''ENOENT, no such file or directory /meteor/dev_bundle/.bundle_version.txt''],
                    br_dependencyInfo = None\<rparr>,
           [(''/app/.meteor/packages'', File ''''),
            (''/app/main.txt'', File ''hello''),
            (''/meteor/tools/server'', Dir),
            (''/meteor/tools/server/server.js'', File ''run''),
            (''/meteor/tools/app.html.in'', File ''html''),
            (''/out/.build.bundle'', Dir),
            (''/out/.build.bundle/server'', Dir),
            (''/out/.build.bundle/server/server.js'', File ''run'')]) \<and>
   buildPath_of ''/out/bundle'' = ''/out/.build.bundle''"
  by code_simp

subsection \<open>A circular dependency\<close>

text \<open>
  C5 on the packages \<open>a\<close> and \<open>b\<close> that use each other, neither edge unordered:
  \<^verbatim>\<open>determineLoadOrder\<close> prints a message that names both packages and ends the process.
  No exception is thrown, so \<^verbatim>\<open>bundle\<close> does not return and there is no list of errors;
  the file system is as it was.
\<close>

theorem cycle_exits_process:
  "determineLoadOrder 10 cycle_library app_contents [] =
     Some (Inl (Exit ''fatal: circular dependency between packages b and a'')) \<and>
   bundle_op 10 example_tools ''/app'' ''/out/bundle'' (Some cycle_options) good_fs =
     Some (Exits ''fatal: circular dependency between packages b and a'', good_fs)"
proof
  show "determineLoadOrder 10 cycle_library app_contents [] =
     Some (Inl (Exit ''fatal: circular dependency between packages b and a''))"
    by (simp add: determineLoadOrder_def eval_nat_numeral app_contents_def cycle_library_def
        getPackage_def slice_id_def skipped_def truthy_def js_string_def)
  show "bundle_op 10 example_tools ''/app'' ''/out/bundle'' (Some cycle_options) good_fs =
     Some (Exits ''fatal: circular dependency between packages b and a'', good_fs)"
    by code_simp
qed

subsection \<open>The dependencies that are reported\<close>







lemma each_w_ok: "w_error (each_w f xs st) = None \<Longrightarrow> w_error st = None"
proof (induction xs arbitrary: st)
  case Nil
  then show ?case by (simp add: each_w_def)
next
  case (Cons x xs)
  then have "w_error (step (f x) st) = None" by (simp add: each_w_def)
  then show ?case by (cases "w_error st") (simp_all add: step_def)
qed


text \<open>No step of \<^verbatim>\<open>writeToDirectory\<close> changes the slices of the bundle.\<close>

lemma slices_on_fs [simp]: "bn_slices (w_bundle (on_fs f st)) = bn_slices (w_bundle st)"
  by (simp add: on_fs_def)

lemma slices_w_fail [simp]: "bn_slices (w_bundle (w_fail e st)) = bn_slices (w_bundle st)"
  by (simp add: w_fail_def)

lemma slices_on_dependencyInfo [simp]:
  "bn_slices (w_bundle (on_dependencyInfo f st)) = bn_slices (w_bundle st)"
  by (simp add: on_dependencyInfo_def on_bundle_def split: option.splits)

lemma slices_manifest [simp]:
  "bn_slices (addClientFileToManifest t filepath contents type cacheable url hash b) = bn_slices b"
  by (simp add: addClientFileToManifest_def Let_def)

lemma slices_step:
  "(\<And>st. bn_slices (w_bundle (f st)) = bn_slices (w_bundle st)) \<Longrightarrow>
   bn_slices (w_bundle (step f st)) = bn_slices (w_bundle st)"
  by (simp add: step_def)

lemma slices_each_w:
  "(\<And>x st. bn_slices (w_bundle (f x st)) = bn_slices (w_bundle st)) \<Longrightarrow>
   bn_slices (w_bundle (each_w f xs st)) = bn_slices (w_bundle st)"
  by (induction xs arbitrary: st) (simp_all add: each_w_def step_def)

lemma slices_addDependency [simp]:
  "bn_slices (w_bundle (addDependency t filePath hash onlyIfExists st)) = bn_slices (w_bundle st)"
  by (simp add: addDependency_def Let_def split: sum.splits)

lemma slices_set_directory [simp]:
  "bn_slices (w_bundle (set_directory dir watch st)) = bn_slices (w_bundle st)"
  by (simp add: set_directory_def)

lemma slices_control_files [simp]:
  "bn_slices (w_bundle (control_files t projectDir st)) = bn_slices (w_bundle st)"
  by (simp add: control_files_def slices_step)

lemma slices_set_up_build_area [simp]:
  "bn_slices (w_bundle (set_up_build_area buildPath st)) = bn_slices (w_bundle st)"
  by (simp add: set_up_build_area_def)

lemma slices_copy_server [simp]:
  "bn_slices (w_bundle (copy_server t buildPath st)) = bn_slices (w_bundle st)"
  by (simp add: copy_server_def Let_def slices_step slices_each_w split: sum.splits)

lemma slices_third_party [simp]:
  "bn_slices (w_bundle (third_party t buildPath nodeModulesMode st)) = bn_slices (w_bundle st)"
  by (simp add: third_party_def Let_def split: sum.splits)

lemma slices_bundle_version [simp]:
  "bn_slices (w_bundle (bundle_version t buildPath st)) = bn_slices (w_bundle st)"
  by (simp add: bundle_version_def split: sum.splits)

lemma slices_public_file [simp]:
  "bn_slices (w_bundle (public_file t publicDir relPath st)) = bn_slices (w_bundle st)"
  by (simp add: public_file_def slices_step on_bundle_def split: sum.splits)

lemma slices_static_assets [simp]:
  "bn_slices (w_bundle (static_assets t buildPath projectDir st)) = bn_slices (w_bundle st)"
  by (simp add: static_assets_def Let_def slices_step slices_each_w split: sum.splits)

lemma slices_processClientCode [simp]:
  "bn_slices (w_bundle (processClientCode t type file st)) = bn_slices (w_bundle st)"
  by (simp add: processClientCode_def on_bundle_def split: option.splits)

lemma slices_client_file [simp]:
  "bn_slices (w_bundle (client_file t buildPath f st)) = bn_slices (w_bundle st)"
  by (simp add: client_file_def on_bundle_def)

lemma slices_cacheable_file [simp]:
  "bn_slices (w_bundle (cacheable_file buildPath f st)) = bn_slices (w_bundle st)"
  by (simp add: cacheable_file_def)

lemma slices_server_file [simp]:
  "bn_slices (w_bundle (server_file buildPath f st)) = bn_slices (w_bundle st)"
  by (simp add: server_file_def)

lemma slices_node_modules_dir [simp]:
  "bn_slices (w_bundle (node_modules_dir t buildPath nodeModulesMode d st)) = bn_slices (w_bundle st)"
  by (simp add: node_modules_dir_def Let_def split: sum.splits)

lemma slices_app_html [simp]:
  "bn_slices (w_bundle (app_html t buildPath st)) = bn_slices (w_bundle st)"
  by (simp add: app_html_def Let_def slices_step on_bundle_def split: sum.splits)

lemma slices_launcher [simp]:
  "bn_slices (w_bundle (launcher t buildPath st)) = bn_slices (w_bundle st)"
  by (simp add: launcher_def)



lemma files_set_directory [simp]:
  "map_option di_files (bn_dependencyInfo (w_bundle (set_directory dir watch st))) =
   map_option di_files (bn_dependencyInfo (w_bundle st))"
  by (simp add: set_directory_def on_dependencyInfo_def on_bundle_def w_fail_def split: option.splits)

lemma files_app_directories [simp]:
  "map_option di_files (bn_dependencyInfo (w_bundle (app_directories t projectDir st))) =
   map_option di_files (bn_dependencyInfo (w_bundle st))"
  by (simp add: app_directories_def step_def)

lemma files_metadata [simp]:
  "map_option di_files (bn_dependencyInfo (w_bundle (metadata t buildPath st))) =
   map_option di_files (bn_dependencyInfo (w_bundle st))"
  by (simp add: metadata_def on_fs_def)

lemma files_move_into_place [simp]:
  "map_option di_files (bn_dependencyInfo (w_bundle (move_into_place buildPath outputPath st))) =
   map_option di_files (bn_dependencyInfo (w_bundle st))"
  by (simp add: move_into_place_def on_fs_def)





end
